(* ===== verification/Prelude.thy ===== *)
theory Prelude
  imports Complex_Main "HOL-Library.AList" "HOL-Library.List_Lexorder" "HOL-Library.Char_ord"
    "HOL-Library.Product_Lexorder" "HOL-Library.Signed_Division" "HOL-Library.Multiset"
begin

text \<open>
  Shared foundations of the development: the fact collections the component proofs draw on,
  Go's 64-bit signed arithmetic, Go maps as association lists with distinct keys (the list order
  stands for one iteration order of the runtime), \<open>sort.Slice\<close>, and HTTP replies.
\<close>

named_theorems i64_simps
named_theorems gomap_simps
named_theorems frame_simps

section \<open>Signed 64-bit integers\<close>

text \<open>
  A Go \<open>int\<close> or \<open>int64\<close> is an \<^typ>\<open>int\<close> in the range \<open>[-2^63, 2^63)\<close>; every arithmetic result
  is brought back into that range by \<open>i64\<close>, the two's complement wrap-around.
\<close>

definition i64 :: "int \<Rightarrow> int" where
  "i64 x = (x + 9223372036854775808) mod 18446744073709551616 - 9223372036854775808"

definition in_i64 :: "int \<Rightarrow> bool" where
  "in_i64 x \<longleftrightarrow> - 9223372036854775808 \<le> x \<and> x < 9223372036854775808"

lemma i64_id [i64_simps]: "in_i64 x \<Longrightarrow> i64 x = x"
  by (simp add: i64_def in_i64_def)

lemma i64_id_nonneg: "0 \<le> x \<Longrightarrow> x < 9223372036854775808 \<Longrightarrow> i64 x = x"
  by (simp add: i64_def)

lemma in_i64_i64 [simp]: "in_i64 (i64 x)"
proof -
  have "0 \<le> (x + 9223372036854775808) mod 18446744073709551616"
    and "(x + 9223372036854775808) mod 18446744073709551616 < 18446744073709551616"
    by simp_all
  then show ?thesis unfolding in_i64_def i64_def by linarith
qed

lemma i64_mod: "i64 x mod 18446744073709551616 = x mod 18446744073709551616"
  by (simp add: i64_def mod_diff_left_eq)

lemma i64_cong: "x mod 18446744073709551616 = y mod 18446744073709551616 \<Longrightarrow> i64 x = i64 y"
  unfolding i64_def by (rule arg_cong [where f = "\<lambda>z. z - 9223372036854775808"], rule mod_add_cong) simp_all

lemma i64_add_left [simp]: "i64 (i64 x + y) = i64 (x + y)"
  by (rule i64_cong, rule mod_add_cong) (simp_all add: i64_mod)

lemma i64_add_right [simp]: "i64 (x + i64 y) = i64 (x + y)"
  by (rule i64_cong, rule mod_add_cong) (simp_all add: i64_mod)

lemma i64_i64 [simp]: "i64 (i64 x) = i64 x"
  by (rule i64_cong) (rule i64_mod)

text \<open>The sum of a list with every addition wrapped, as a Go accumulation loop computes it.\<close>

definition sum64 :: "int list \<Rightarrow> int" where
  "sum64 xs = foldl (\<lambda>acc x. i64 (acc + x)) 0 xs"

lemma foldl_i64: "foldl (\<lambda>acc x. i64 (acc + x)) a xs = (if xs = [] then a else i64 (a + sum_list xs))"
  by (induction xs arbitrary: a) (auto simp: add.assoc)

lemma sum64_eq: "sum64 xs = i64 (sum_list xs)"
  by (simp add: sum64_def foldl_i64) (simp add: i64_def)

lemma sum64_exact: "\<forall>x\<in>set xs. 0 \<le> x \<Longrightarrow> sum_list xs < 9223372036854775808 \<Longrightarrow> sum64 xs = sum_list xs"
  by (simp add: sum64_eq i64_id_nonneg sum_list_nonneg)

lemma sum_list_slice_le:
  fixes xs :: "int list"
  assumes "\<forall>x\<in>set xs. 0 \<le> x"
  shows "sum_list (take m (drop n xs)) \<le> sum_list xs"
proof -
  have "sum_list xs = sum_list (take n xs) + sum_list (take m (drop n xs)) + sum_list (drop m (drop n xs))"
    by (metis append_take_drop_id sum_list_append add.assoc)
  moreover have "0 \<le> sum_list (take n xs)" "0 \<le> sum_list (drop m (drop n xs))"
    using assms by (auto intro!: sum_list_nonneg dest: in_set_takeD in_set_dropD)
  ultimately show ?thesis by simp
qed

lemma int_div_less_iff: "0 < (d :: int) \<Longrightarrow> a div d < e \<longleftrightarrow> a < e * d"
proof -
  assume d: "0 < d"
  have a: "a = a div d * d + a mod d" "0 \<le> a mod d" "a mod d < d" using d by simp_all
  show ?thesis
  proof
    assume "a div d < e"
    then have "(a div d + 1) * d \<le> e * d" using d by (intro mult_right_mono) simp_all
    then have "a div d * d + d \<le> e * d" by (simp add: distrib_right)
    with a show "a < e * d" by linarith
  next
    assume lt: "a < e * d"
    have "\<not> e \<le> a div d"
    proof
      assume "e \<le> a div d"
      then have "e * d \<le> a div d * d" using d by (intro mult_right_mono) simp_all
      with a lt show False by linarith
    qed
    then show "a div d < e" by simp
  qed
qed

lemma drop_ConsD:
  assumes "x # xs = drop i ys"
  shows "i < length ys" and "xs = drop (Suc i) ys" and "x = ys ! i" and "length ys - i = Suc (length xs)"
proof -
  show i: "i < length ys" using assms by (cases "i < length ys") auto
  then have "drop i ys = ys ! i # drop (Suc i) ys" by (simp add: Cons_nth_drop_Suc)
  with assms show "xs = drop (Suc i) ys" and "x = ys ! i" by simp_all
  show "length ys - i = Suc (length xs)" using arg_cong [OF assms, of length] by simp
qed

lemma list_all_update: "list_all P ps \<Longrightarrow> P p \<Longrightarrow> list_all P (ps[i := p])"
  by (auto simp: list_all_iff dest: set_update_subset_insert [THEN subsetD])

lemma length_filter_update:
  "c < length cs \<Longrightarrow> length (filter P (cs[c := k])) + (if P (cs ! c) then 1 else 0) =
     length (filter P cs) + (if P k then 1 else 0)"
proof (induction cs arbitrary: c)
  case (Cons a cs)
  then show ?case by (cases c) auto
qed simp

section \<open>Go maps as association lists\<close>

type_synonym ('k, 'v) gomap = "('k \<times> 'v) list"

definition gomap_ok :: "('k, 'v) gomap \<Rightarrow> bool" where
  "gomap_ok m \<longleftrightarrow> distinct (map fst m)"

lemma gomap_ok_Nil [simp]: "gomap_ok []"
  by (simp add: gomap_ok_def)

lemma gomap_ok_update [simp]: "gomap_ok m \<Longrightarrow> gomap_ok (AList.update k v m)"
  by (simp add: gomap_ok_def distinct_update)

lemma gomap_ok_delete [simp]: "gomap_ok m \<Longrightarrow> gomap_ok (AList.delete k m)"
  by (simp add: gomap_ok_def distinct_delete)

lemma gomap_ok_filter [simp]: "gomap_ok m \<Longrightarrow> gomap_ok (filter P m)"
  by (simp add: gomap_ok_def distinct_map_filter)

lemma gomap_ok_map: "(\<And>p. fst (f p) = fst p) \<Longrightarrow> gomap_ok (map f m) = gomap_ok m"
  by (simp add: gomap_ok_def comp_def)

lemma gomap_mem_iff: "gomap_ok m \<Longrightarrow> (k, v) \<in> set m \<longleftrightarrow> map_of m k = Some v"
  by (simp add: gomap_ok_def)

lemma gomap_map_of_filter [gomap_simps]:
  "gomap_ok m \<Longrightarrow> map_of (filter P m) k =
     (case map_of m k of None \<Rightarrow> None | Some v \<Rightarrow> if P (k, v) then Some v else None)"
  by (induction m) (force simp: gomap_ok_def split: option.splits if_splits dest: map_of_SomeD)+

lemma gomap_update_new: "map_of m k = None \<Longrightarrow> AList.update k v m = m @ [(k, v)]"
  by (induction m) (auto split: if_splits)

lemma gomap_delete_filter: "AList.delete k m = filter (\<lambda>p. fst p \<noteq> k) m"
  by (auto simp: AList.delete_eq case_prod_unfold intro: filter_cong)

lemma gomap_delete_absent: "map_of m k = None \<Longrightarrow> AList.delete k m = m"
  by (auto simp: gomap_delete_filter map_of_eq_None_iff intro!: filter_True)

lemma gomap_delete_update: "map_of m k = None \<Longrightarrow> AList.delete k (AList.update k v m) = m"
  by (simp add: gomap_update_new gomap_delete_filter)
     (auto simp: map_of_eq_None_iff intro!: filter_True)

lemma gomap_set_update: "p \<in> set (AList.update k v m) \<Longrightarrow> p = (k, v) \<or> p \<in> set m"
  by (induction m) (auto split: if_splits)

text \<open>How many entries satisfy a predicate: a Go loop that counts over a map.\<close>

definition gomap_count :: "('k \<times> 'v \<Rightarrow> bool) \<Rightarrow> ('k, 'v) gomap \<Rightarrow> nat" where
  "gomap_count P m = length (filter P m)"

lemma gomap_count_update_new [gomap_simps]:
  "map_of m k = None \<Longrightarrow> gomap_count P (AList.update k v m) = gomap_count P m + (if P (k, v) then 1 else 0)"
  by (simp add: gomap_count_def gomap_update_new)

lemma gomap_count_update_le: "gomap_count P (AList.update k v m) \<le> gomap_count P m + (if P (k, v) then 1 else 0)"
  by (induction m) (auto simp: gomap_count_def)

lemma gomap_count_filter_le: "gomap_count P (filter Q m) \<le> gomap_count P m"
  by (induction m) (auto simp: gomap_count_def)

lemma gomap_count_delete_le: "gomap_count P (AList.delete k m) \<le> gomap_count P m"
  by (simp add: gomap_delete_filter gomap_count_filter_le)

lemma gomap_count_delete:
  "gomap_ok m \<Longrightarrow> map_of m k = Some v \<Longrightarrow>
     gomap_count P (AList.delete k m) + (if P (k, v) then 1 else 0) = gomap_count P m"
proof (induction m)
  case Nil
  then show ?case by simp
next
  case (Cons p m)
  show ?case
  proof (cases "fst p = k")
    case True
    with Cons.prems have "map_of m k = None"
      by (auto simp: gomap_ok_def map_of_eq_None_iff)
    with True Cons.prems show ?thesis
      by (cases p) (simp add: gomap_count_def gomap_delete_absent)
  next
    case False
    with Cons show ?thesis by (cases p) (simp add: gomap_count_def gomap_ok_def)
  qed
qed

section \<open>\<open>sort.Slice\<close>\<close>

text \<open>
  Insertion by a strict comparison, the algorithm \<open>sort.Slice\<close> runs on short slices. Where the
  comparison orders the elements by an injective key, every correct sorting algorithm gives the
  same list, which \<open>sort_slice_key\<close> and the library's \<open>sort_key\<close> express.
\<close>

fun insert_slice :: "('a \<Rightarrow> 'a \<Rightarrow> bool) \<Rightarrow> 'a \<Rightarrow> 'a list \<Rightarrow> 'a list" where
  "insert_slice lt x [] = [x]"
| "insert_slice lt x (y # ys) = (if lt y x then y # insert_slice lt x ys else x # y # ys)"

definition sort_slice :: "('a \<Rightarrow> 'a \<Rightarrow> bool) \<Rightarrow> 'a list \<Rightarrow> 'a list" where
  "sort_slice lt xs = foldr (insert_slice lt) xs []"

lemma insert_slice_key:
  assumes "\<And>x y. lt x y \<longleftrightarrow> f x < (f y :: 'k::linorder)"
  shows "insert_slice lt x ys = insort_key f x ys"
  by (induction ys) (auto simp: assms)

lemma sort_slice_key:
  assumes "\<And>x y. lt x y \<longleftrightarrow> f x < (f y :: 'k::linorder)"
  shows "sort_slice lt xs = sort_key f xs"
  by (simp add: sort_slice_def sort_key_def insert_slice_key [OF assms, abs_def])

lemma sort_key_mset_cong:
  assumes "mset xs = mset ys" and "inj_on f (set ys)"
  shows "sort_key f xs = sort_key f ys"
  using assms by (metis mset_eq_setD mset_sort sort_key_inj_key_eq sorted_sort_key)

section \<open>Decimal numbers\<close>

text \<open>\<open>strconv.Itoa\<close> and the \<open>%d\<close> of \<open>fmt\<close>.\<close>

fun decimal :: "nat \<Rightarrow> string" where
  "decimal n = (if n < 10 then [char_of (n + 48)] else decimal (n div 10) @ [char_of (n mod 10 + 48)])"

declare decimal.simps [simp del]

definition itoa :: "int \<Rightarrow> string" where
  "itoa n = (if n < 0 then ''-'' @ decimal (nat (- n)) else decimal (nat n))"

text \<open>\<open>strconv.Atoi\<close> on the decimal digits of a number, with a sign; \<open>None\<close> for an error.\<close>

definition is_digit :: "char \<Rightarrow> bool" where
  "is_digit c \<longleftrightarrow> 48 \<le> (of_char c :: nat) \<and> (of_char c :: nat) \<le> 57"

definition digits_value :: "string \<Rightarrow> int" where
  "digits_value s = foldl (\<lambda>acc c. acc * 10 + (of_char c - 48)) 0 s"

definition Atoi :: "string \<Rightarrow> int option" where
  "Atoi s =
     (let negative = (case s of c # _ \<Rightarrow> c = CHR ''-'' | [] \<Rightarrow> False);
          digits = (case s of c # cs \<Rightarrow> if c = CHR ''-'' \<or> c = CHR ''+'' then cs else s | [] \<Rightarrow> []);
          value = (if negative then - digits_value digits else digits_value digits)
      in if digits \<noteq> [] \<and> list_all is_digit digits \<and> in_i64 value then Some value else None)"

lemma digits_value_snoc: "digits_value (s @ [c]) = digits_value s * 10 + (of_char c - 48)"
  by (simp add: digits_value_def)

lemma decimal_digits: "list_all is_digit (decimal n) \<and> decimal n \<noteq> [] \<and> digits_value (decimal n) = int n"
proof (induction n rule: decimal.induct)
  case (1 n)
  have digit: "is_digit (char_of (k + 48))" "of_char (char_of (k + 48) :: char) = int k + 48" if "k < 10" for k :: nat
  proof -
    have n: "of_char (char_of (k + 48) :: char) = k + 48" using that by simp
    then show "is_digit (char_of (k + 48))" using that by (simp add: is_digit_def)
    show "of_char (char_of (k + 48) :: char) = int k + 48"
      using of_nat_of_char [of "char_of (k + 48)", where ?'a = int] n by simp
  qed
  show ?case
  proof (cases "n < 10")
    case True
    then have "decimal n = [char_of (n + 48)]" by (simp add: decimal.simps)
    with digit [OF True] show ?thesis by (simp add: digits_value_def)
  next
    case False
    then have "decimal n = decimal (n div 10) @ [char_of (n mod 10 + 48)]" by (simp add: decimal.simps [of n])
    moreover have "int (n div 10) * 10 + int (n mod 10) = int n" 
      by (metis div_mult_mod_eq of_nat_add of_nat_mult of_nat_numeral)
    ultimately show ?thesis using "1.IH" [OF False] digit [of "n mod 10"] by (simp add: digits_value_snoc)
  qed
qed

lemma Atoi_decimal:
  assumes "n < 9223372036854775808"
  shows "Atoi (decimal n) = Some (int n)"
proof -
  obtain c cs where c: "decimal n = c # cs" "is_digit c"
    using decimal_digits [of n] by (cases "decimal n") auto
  then have "c \<noteq> CHR ''-''" "c \<noteq> CHR ''+''" by (auto simp: is_digit_def)
  with c decimal_digits [of n] assms show ?thesis by (simp add: Atoi_def in_i64_def)
qed

section \<open>HTTP replies\<close>

text \<open>\<open>httpx.JSON\<close> with a status and a value, and \<open>httpx.Error\<close> with a status and a message.\<close>

datatype 'a reply = JSON nat 'a | Error nat string

fun reply_status :: "'a reply \<Rightarrow> nat" where
  "reply_status (JSON st _) = st"
| "reply_status (Error st _) = st"

end
