(* ===== verification/Api.thy ===== *)
theory Api
  imports Prelude
begin

text \<open>
  The data the components exchange (\<open>src/internal/api/types.go\<close>): one record per Go struct, with
  the struct's fields in order under a prefix of their own. Strings are byte strings, \<open>int\<close> and
  \<open>int64\<close> fields are integers in the signed 64-bit range, \<open>uint64\<close> fields integers in
  \<open>[0, 2^64)\<close>, and \<open>time.Time\<close> is an integer count of nanoseconds since the Unix epoch.
\<close>

record GPUDevice =
  gpu_Index :: int
  gpu_Name :: string
  gpu_UUID :: string
  gpu_MemoryTotalMB :: int
  gpu_MemoryFreeMB :: int
  gpu_DriverVersion :: string
  gpu_ComputeCapability :: string

record HardwareInventory =
  hw_OS :: string
  hw_Arch :: string
  hw_CPULogical :: int
  hw_MemoryMB :: int
  hw_MemoryFreeMB :: int
  hw_GPUDevices :: "GPUDevice list"

record RuntimeStatus =
  rt_Kind :: string
  rt_URL :: string
  rt_Ready :: bool
  rt_Message :: string

record NodeRegistration =
  reg_NodeID :: string
  reg_Endpoint :: string
  reg_Models :: "string list"
  reg_Hardware :: HardwareInventory
  reg_Runtime :: RuntimeStatus
  reg_Available :: bool
  reg_AcceptsModelUploads :: bool
  reg_Scope :: string
  reg_MaxConcurrency :: int
  reg_ActiveTasks :: int
  reg_DistributedReady :: bool
  reg_StageEndpoint :: string

record Node =
  nd_NodeID :: string
  nd_Endpoint :: string
  nd_Models :: "string list"
  nd_Hardware :: HardwareInventory
  nd_Runtime :: RuntimeStatus
  nd_LastSeen :: int
  nd_Available :: bool
  nd_AcceptsModelUploads :: bool
  nd_Scope :: string
  nd_MaxConcurrency :: int
  nd_ActiveTasks :: int
  nd_ReservedTasks :: int
  nd_DistributedReady :: bool
  nd_StageEndpoint :: string

record LeaseRequest =
  lr_Model :: string
  lr_MinVRAMMB :: int
  lr_ModelDigest :: string
  lr_ModelSize :: int
  lr_ModelFormat :: string
  lr_NodeID :: string
  lr_Scope :: string
  lr_ExcludeNodeIDs :: "string list"

record Lease =
  ls_LeaseID :: string
  ls_NodeID :: string
  ls_Endpoint :: string
  ls_Model :: string
  ls_Token :: string
  ls_ExpiresAt :: int
  ls_ModelDigest :: string
  ls_ModelSize :: int
  ls_ModelFormat :: string

record LeaseClaims =
  cl_NodeID :: string
  cl_Model :: string
  cl_ExpiresAt :: int
  cl_Nonce :: string
  cl_ModelDigest :: string
  cl_ModelSize :: int
  cl_GroupID :: string
  cl_StageIndex :: int
  cl_LayerStart :: int
  cl_LayerEnd :: int

record ModelCacheStatus =
  mc_Digest :: string
  mc_Size :: int
  mc_Received :: int
  mc_Ready :: bool

record DistributedGroupRequest =
  gr_Model :: string
  gr_ModelDigest :: string
  gr_ModelSize :: int
  gr_ModelFormat :: string
  gr_LayerCount :: int
  gr_HiddenSize :: int
  gr_MinNodes :: int
  gr_MaxNodes :: int
  gr_Scope :: string
  gr_LayerBytes :: "int list"

record StageAssignment =
  sa_StageIndex :: int
  sa_NodeID :: string
  sa_Endpoint :: string
  sa_LayerStart :: int
  sa_LayerEnd :: int
  sa_MemoryBudgetMB :: int
  sa_TensorBytes :: int
  sa_ReservationID :: string
  sa_Token :: string
  sa_NextStageNodeID :: string

record DistributedGroup =
  dg_GroupID :: string
  dg_Model :: string
  dg_ModelDigest :: string
  dg_LayerCount :: int
  dg_HiddenSize :: int
  dg_Stages :: "StageAssignment list"
  dg_ExpiresAt :: int

text \<open>Go's zero values of the records the code returns beside an error.\<close>

definition zero_hardware :: HardwareInventory where
  "zero_hardware = \<lparr>hw_OS = '''', hw_Arch = '''', hw_CPULogical = 0, hw_MemoryMB = 0,
     hw_MemoryFreeMB = 0, hw_GPUDevices = []\<rparr>"

definition zero_runtime :: RuntimeStatus where
  "zero_runtime = \<lparr>rt_Kind = '''', rt_URL = '''', rt_Ready = False, rt_Message = ''''\<rparr>"

definition zero_node :: Node where
  "zero_node = \<lparr>nd_NodeID = '''', nd_Endpoint = '''', nd_Models = [], nd_Hardware = zero_hardware,
     nd_Runtime = zero_runtime, nd_LastSeen = 0, nd_Available = False,
     nd_AcceptsModelUploads = False, nd_Scope = '''', nd_MaxConcurrency = 0, nd_ActiveTasks = 0,
     nd_ReservedTasks = 0, nd_DistributedReady = False, nd_StageEndpoint = ''''\<rparr>"

definition zero_claims :: LeaseClaims where
  "zero_claims = \<lparr>cl_NodeID = '''', cl_Model = '''', cl_ExpiresAt = 0, cl_Nonce = '''',
     cl_ModelDigest = '''', cl_ModelSize = 0, cl_GroupID = '''', cl_StageIndex = 0,
     cl_LayerStart = 0, cl_LayerEnd = 0\<rparr>"

end
