(* ===== verification/Planner.thy ===== *)
theory Planner
  imports Api
begin

text \<open>
  The layer planner (\<open>src/internal/distributed/planner.go\<close>): \<open>Plan\<close>, \<open>PlanLayers\<close> and
  \<open>chooseLayerEnd\<close>, with int64 wrap-around written out and the two run-time panics the code can
  reach (a slice too large to allocate, a division by a capacity sum that wrapped to zero) as
  values of the error type.
\<close>

section \<open>Data\<close>

text \<open>A finite \<open>float64\<close> load is the rational number it denotes.\<close>

record Candidate =
  cand_Node :: Node
  cand_Capacity :: int
  cand_Load :: rat

datatype plan_error =
    TooFewLayers
  | MaxBelowMin
  | NegativeLayer
  | TooFewNodes int
  | InsufficientMemory int int
  | PlanPanic

section \<open>Operations\<close>

definition abs64 :: "int \<Rightarrow> int" where
  "abs64 v = (if v < 0 then i64 (- v) else v)"

text \<open>The inner loop of \<open>chooseLayerEnd\<close>: extend the stage while that brings it nearer the target.\<close>

function layer_loop :: "int list \<Rightarrow> int \<Rightarrow> nat \<Rightarrow> nat \<Rightarrow> int \<Rightarrow> nat" where
  "layer_loop layerBytes target maxEnd end' assigned =
     (if end' < maxEnd then
        let next' = i64 (assigned + layerBytes ! end')
        in if target \<le> assigned \<or> abs64 (i64 (assigned - target)) < abs64 (i64 (next' - target))
           then end'
           else layer_loop layerBytes target maxEnd (Suc end') next'
      else end')"
  by pat_completeness auto
termination
  by (relation "measure (\<lambda>(_, _, maxEnd, end', _). maxEnd - end')") auto

declare layer_loop.simps [simp del]

definition chooseLayerEnd :: "int list \<Rightarrow> nat \<Rightarrow> nat \<Rightarrow> Candidate list \<Rightarrow> plan_error + nat" where
  "chooseLayerEnd layerBytes start index selected =
     (if index = length selected - 1 then Inr (length layerBytes)
      else
        let remainingCapacity = sum64 (map (\<lambda>c. max (cand_Capacity c) 1) (drop index selected));
            remainingBytes = sum64 (drop start layerBytes)
        in if remainingCapacity = 0 \<or> length layerBytes \<le> start then Inl PlanPanic
           else
             let target = i64 (i64 (remainingBytes * max (cand_Capacity (selected ! index)) 1)
                               sdiv remainingCapacity);
                 maxEnd = length layerBytes - (length selected - index - 1)
             in Inr (layer_loop layerBytes target maxEnd (Suc start) (layerBytes ! start)))"

text \<open>The comparison of \<open>sort.Slice\<close>: by load, then by capacity downwards, then by node id.\<close>

definition usable_less :: "Candidate \<Rightarrow> Candidate \<Rightarrow> bool" where
  "usable_less x y =
     (if cand_Load x \<noteq> cand_Load y then cand_Load x < cand_Load y
      else if cand_Capacity x \<noteq> cand_Capacity y then cand_Capacity y < cand_Capacity x
      else nd_NodeID (cand_Node x) < nd_NodeID (cand_Node y))"

text \<open>The loop that takes nodes until the model fits.\<close>

fun count_loop :: "int \<Rightarrow> int \<Rightarrow> int \<Rightarrow> Candidate list \<Rightarrow> int \<Rightarrow> int \<Rightarrow> int \<times> int" where
  "count_loop minNodes maxNodes neededMB [] cnt totalMB = (cnt, totalMB)"
| "count_loop minNodes maxNodes neededMB (c # cs) cnt totalMB =
     (if cnt < maxNodes then
        let totalMB' = i64 (totalMB + max (cand_Capacity c) 1);
            cnt' = cnt + 1
        in if minNodes \<le> cnt' \<and> neededMB \<le> totalMB' then (cnt', totalMB')
           else count_loop minNodes maxNodes neededMB cs cnt' totalMB'
      else (cnt, totalMB))"

definition assignment :: "int list \<Rightarrow> nat \<Rightarrow> Candidate \<Rightarrow> nat \<Rightarrow> nat \<Rightarrow> StageAssignment" where
  "assignment layerBytes i c start end' =
     \<lparr>sa_StageIndex = int i, sa_NodeID = nd_NodeID (cand_Node c),
      sa_Endpoint = nd_StageEndpoint (cand_Node c), sa_LayerStart = int start,
      sa_LayerEnd = int end', sa_MemoryBudgetMB = cand_Capacity c,
      sa_TensorBytes = sum64 (take (end' - start) (drop start layerBytes)),
      sa_ReservationID = '''', sa_Token = '''', sa_NextStageNodeID = ''''\<rparr>"

text \<open>The loop over the selected nodes; \<open>cs\<close> is \<open>selected[i:]\<close>.\<close>

fun assign_loop :: "int list \<Rightarrow> Candidate list \<Rightarrow> Candidate list \<Rightarrow> nat \<Rightarrow> nat \<Rightarrow>
    plan_error + StageAssignment list" where
  "assign_loop layerBytes selected [] i start = Inr []"
| "assign_loop layerBytes selected (c # cs) i start =
     (case chooseLayerEnd layerBytes start i selected of
        Inl e \<Rightarrow> Inl e
      | Inr end' \<Rightarrow>
          (case assign_loop layerBytes selected cs (Suc i) end' of
             Inl e \<Rightarrow> Inl e
           | Inr rest \<Rightarrow> Inr (assignment layerBytes i c start end' # rest)))"

text \<open>Every stage but the last names the node of the stage after it.\<close>

fun link_stages :: "StageAssignment list \<Rightarrow> StageAssignment list" where
  "link_stages (a # b # rest) = a\<lparr>sa_NextStageNodeID := sa_NodeID b\<rparr> # link_stages (b # rest)"
| "link_stages xs = xs"

definition neededMB_of :: "int \<Rightarrow> int" where
  "neededMB_of modelSize = i64 (i64 (modelSize + 1048576) - 1) div 1048576"

definition PlanLayers :: "Candidate list \<Rightarrow> int list \<Rightarrow> int \<Rightarrow> int \<Rightarrow>
    plan_error + StageAssignment list" where
  "PlanLayers candidates layerBytes minNodes0 maxNodes0 =
     (let layers = int (length layerBytes);
          minNodes = (if minNodes0 < 2 then 2 else minNodes0);
          maxNodes = (if maxNodes0 \<le> 0 \<or> layers < maxNodes0 then layers else maxNodes0)
      in if layers < 2 then Inl TooFewLayers
         else if maxNodes < minNodes then Inl MaxBelowMin
         else if \<exists>size\<in>set layerBytes. size < 0 then Inl NegativeLayer
         else
           let modelSize = sum64 layerBytes;
               usable = sort_slice usable_less candidates
           in if int (length usable) < minNodes then Inl (TooFewNodes minNodes)
              else
                let neededMB = neededMB_of modelSize;
                    (cnt0, totalMB) =
                      (if 0 < modelSize then count_loop minNodes maxNodes neededMB usable 0 0
                       else (min maxNodes (int (length usable)), 0))
                in if 0 < modelSize \<and> totalMB < neededMB then Inl (InsufficientMemory totalMB neededMB)
                   else
                     let cnt = (if cnt0 < minNodes then minNodes else cnt0);
                         selected = take (nat cnt) usable
                     in (case assign_loop layerBytes selected selected 0 0 of
                           Inl e \<Rightarrow> Inl e
                         | Inr assignments \<Rightarrow> Inr (link_stages assignments)))"

text \<open>
  \<open>make([]int64, layers)\<close> panics for a negative length and beyond the address space of the
  runtime (\<open>2^48\<close> bytes on 64-bit Linux and Windows).
\<close>

definition max_int64_slice :: int where
  "max_int64_slice = 281474976710656 div 8"

definition plan_bytes :: "nat \<Rightarrow> int \<Rightarrow> int list" where
  "plan_bytes layers modelSize =
     (if 0 < layers \<and> 0 < modelSize then
        let perLayer = modelSize div int layers
        in (replicate layers perLayer)
             [layers - 1 := i64 (perLayer + i64 (modelSize - i64 (perLayer * int layers)))]
      else replicate layers 0)"

definition Plan :: "Candidate list \<Rightarrow> int \<Rightarrow> int \<Rightarrow> int \<Rightarrow> int \<Rightarrow> plan_error + StageAssignment list" where
  "Plan candidates layers modelSize minNodes maxNodes =
     (if layers < 0 \<or> max_int64_slice < layers then Inl PlanPanic
      else PlanLayers candidates (plan_bytes (nat layers) modelSize) minNodes maxNodes)"

section \<open>Specification vocabulary\<close>

definition stage_layers :: "StageAssignment \<Rightarrow> nat list" where
  "stage_layers s = [nat (sa_LayerStart s)..<nat (sa_LayerEnd s)]"

definition min_nodes_of :: "int \<Rightarrow> int" where
  "min_nodes_of minNodes = (if minNodes < 2 then 2 else minNodes)"

definition max_nodes_of :: "int list \<Rightarrow> int \<Rightarrow> int" where
  "max_nodes_of layerBytes maxNodes =
     (if maxNodes \<le> 0 \<or> int (length layerBytes) < maxNodes then int (length layerBytes) else maxNodes)"

definition capacity_sum :: "Candidate list \<Rightarrow> int" where
  "capacity_sum cs = sum_list (map (\<lambda>c. max (cand_Capacity c) 1) cs)"

definition cand_key :: "Candidate \<Rightarrow> rat \<times> int \<times> string" where
  "cand_key c = (cand_Load c, - cand_Capacity c, nd_NodeID (cand_Node c))"

section \<open>Sorting\<close>

lemma usable_less_key: "usable_less x y \<longleftrightarrow> cand_key x < cand_key y"
  by (auto simp: usable_less_def cand_key_def less_prod_def' split: if_splits)

lemma sort_usable: "sort_slice usable_less cs = sort_key cand_key cs"
  by (rule sort_slice_key) (rule usable_less_key)

section \<open>The inner loop\<close>

lemma layer_loop_bounds:
  "end' \<le> maxEnd \<Longrightarrow>
     end' \<le> layer_loop lb target maxEnd end' assigned \<and> layer_loop lb target maxEnd end' assigned \<le> maxEnd"
proof (induction lb target maxEnd end' assigned rule: layer_loop.induct)
  case (1 lb target maxEnd end' assigned)
  then show ?case
    by (subst (1 2) layer_loop.simps) (fastforce simp: Let_def)
qed

lemma chooseLayerEnd_bounds:
  assumes "chooseLayerEnd lb start i selected = Inr e" and "i < length selected"
    and "start + (length selected - i) \<le> length lb"
  shows "start < e" and "e + (length selected - Suc i) \<le> length lb"
    and "Suc i = length selected \<Longrightarrow> e = length lb"
proof -
  have "start < e \<and> e + (length selected - Suc i) \<le> length lb \<and> (Suc i = length selected \<longrightarrow> e = length lb)"
  proof (cases "i = length selected - 1")
    case True
    with assms show ?thesis by (auto simp: chooseLayerEnd_def)
  next
    case False
    then obtain target where e: "e = layer_loop lb target (length lb - (length selected - i - 1)) (Suc start) (lb ! start)"
      using assms(1) by (auto simp: chooseLayerEnd_def Let_def split: if_splits)
    have "Suc start \<le> length lb - (length selected - i - 1)" using assms(2,3) False by simp
    from layer_loop_bounds [OF this, of lb target "lb ! start"]
    have "Suc start \<le> e" and "e \<le> length lb - (length selected - i - 1)" by (simp_all add: e)
    with assms(2,3) False show ?thesis by auto
  qed
  then show "start < e" and "e + (length selected - Suc i) \<le> length lb"
    and "Suc i = length selected \<Longrightarrow> e = length lb" by auto
qed

section \<open>The assignment loop\<close>

lemma assignment_simps [simp]:
  "sa_StageIndex (assignment lb i c s e) = int i"
  "sa_NodeID (assignment lb i c s e) = nd_NodeID (cand_Node c)"
  "sa_Endpoint (assignment lb i c s e) = nd_StageEndpoint (cand_Node c)"
  "sa_LayerStart (assignment lb i c s e) = int s"
  "sa_LayerEnd (assignment lb i c s e) = int e"
  "sa_MemoryBudgetMB (assignment lb i c s e) = cand_Capacity c"
  "sa_TensorBytes (assignment lb i c s e) = sum64 (take (e - s) (drop s lb))"
  "sa_NextStageNodeID (assignment lb i c s e) = ''''"
  by (simp_all add: assignment_def)

definition stage_ok :: "int list \<Rightarrow> StageAssignment \<Rightarrow> bool" where
  "stage_ok lb s \<longleftrightarrow> 0 \<le> sa_LayerStart s \<and> sa_LayerStart s < sa_LayerEnd s \<and>
     sa_LayerEnd s \<le> int (length lb) \<and>
     sa_TensorBytes s = sum64 (map (nth lb) (stage_layers s))"

lemma stage_layers_assignment [simp]: "stage_layers (assignment lb i c s e) = [s..<e]"
  by (simp add: stage_layers_def)

lemma slice_nth: "e \<le> length lb \<Longrightarrow> take (e - s) (drop s lb) = map (nth lb) [s..<e]"
  by (rule nth_equalityI) auto

lemma stage_ok_assignment: "s < e \<Longrightarrow> e \<le> length lb \<Longrightarrow> stage_ok lb (assignment lb i c s e)"
  by (simp add: stage_ok_def stage_layers_def slice_nth)

lemma assign_loop_spec:
  assumes "assign_loop lb selected cs i start = Inr as"
    and "cs = drop i selected" and "start + length cs \<le> length lb"
    and "cs = [] \<Longrightarrow> start = length lb"
  shows "concat (map stage_layers as) = [start..<length lb] \<and> (\<forall>s\<in>set as. stage_ok lb s) \<and>
    map sa_NodeID as = map (nd_NodeID \<circ> cand_Node) cs \<and>
    map sa_MemoryBudgetMB as = map cand_Capacity cs \<and>
    map sa_StageIndex as = map int [i..<i + length cs]"
  using assms
proof (induction cs arbitrary: i start as)
  case Nil
  then show ?case by simp
next
  case (Cons c cs)
  from Cons.prems(2) have i: "i < length selected" and cs: "cs = drop (Suc i) selected"
    and len: "length selected - i = Suc (length cs)"
    by (auto dest: drop_ConsD)
  from Cons.prems(1) obtain e rest where e: "chooseLayerEnd lb start i selected = Inr e"
    and rest: "assign_loop lb selected cs (Suc i) e = Inr rest"
    and as: "as = assignment lb i c start e # rest"
    by (auto split: sum.splits)
  have "start + (length selected - i) \<le> length lb" using Cons.prems(3) len by simp
  note b = chooseLayerEnd_bounds [OF e i this]
  have "e + length cs \<le> length lb" using b(2) len by simp
  moreover have "cs = [] \<Longrightarrow> e = length lb" using b(3) len i by simp
  ultimately have IH: "concat (map stage_layers rest) = [e..<length lb]" "\<forall>s\<in>set rest. stage_ok lb s"
    "map sa_NodeID rest = map (nd_NodeID \<circ> cand_Node) cs" "map sa_MemoryBudgetMB rest = map cand_Capacity cs"
    "map sa_StageIndex rest = map int [Suc i..<Suc i + length cs]"
    using Cons.IH [OF rest cs] by auto
  have "[start..<length lb] = [start..<e] @ [e..<length lb]"
    using b(1,2) by (metis add_leD1 less_imp_le_nat le_add_diff_inverse upt_add_eq_append)
  then show ?case
    using IH b(1,2) stage_ok_assignment [of start e lb i c]
    by (simp add: as upt_conv_Cons del: upt_Suc)
qed

lemma assign_loop_length: "assign_loop lb selected cs i start = Inr as \<Longrightarrow> length as = length cs"
  by (induction cs arbitrary: i start as) (auto split: sum.splits)

lemma assign_loop_panic: "assign_loop lb selected cs i start = Inl e \<Longrightarrow> e = PlanPanic"
  by (induction cs arbitrary: i start)
     (auto simp: chooseLayerEnd_def Let_def split: sum.splits if_splits)

section \<open>Linking the stages\<close>

lemma link_stages_fields [simp]:
  "length (link_stages as) = length as"
  "map sa_StageIndex (link_stages as) = map sa_StageIndex as"
  "map sa_NodeID (link_stages as) = map sa_NodeID as"
  "map sa_MemoryBudgetMB (link_stages as) = map sa_MemoryBudgetMB as"
  "map sa_TensorBytes (link_stages as) = map sa_TensorBytes as"
  "map stage_layers (link_stages as) = map stage_layers as"
  by (induction as rule: link_stages.induct) (simp_all add: stage_layers_def)

lemma link_stages_ok [simp]: "(\<forall>s\<in>set (link_stages as). stage_ok lb s) = (\<forall>s\<in>set as. stage_ok lb s)"
  by (induction as rule: link_stages.induct) (simp_all add: stage_ok_def stage_layers_def)

lemma link_stages_node: "i < length as \<Longrightarrow> sa_NodeID (link_stages as ! i) = sa_NodeID (as ! i)"
  by (metis link_stages_fields(1,3) nth_map)

lemma link_stages_next:
  "Suc i < length as \<Longrightarrow> sa_NextStageNodeID (link_stages as ! i) = sa_NodeID (as ! Suc i)"
  by (induction as arbitrary: i rule: link_stages.induct) (auto simp: nth_Cons split: nat.splits)

section \<open>Choosing how many nodes\<close>

lemma capacity_sum_simps [simp]:
  "capacity_sum [] = 0"
  "capacity_sum (c # cs) = max (cand_Capacity c) 1 + capacity_sum cs"
  by (simp_all add: capacity_sum_def)

lemma capacity_sum_nonneg: "0 \<le> capacity_sum cs"
  by (induction cs) auto

text \<open>
  \<open>count_loop\<close> takes a prefix of the sorted nodes: the shortest one of at least \<open>minNodes\<close> nodes
  whose (wrapped) capacities reach the need, or as many as the limits allow.
\<close>

lemma count_loop_spec:
  assumes "count_loop mn mx need cs c t = (c', t')" and "in_i64 t"
  shows "\<exists>k\<le>length cs. c' = c + int k \<and> t' = i64 (t + capacity_sum (take k cs)) \<and> (c \<le> mx \<longrightarrow> c' \<le> mx) \<and>
    (\<forall>j<k. 0 < j \<longrightarrow> mn \<le> c + int j \<longrightarrow> i64 (t + capacity_sum (take j cs)) < need) \<and>
    (need \<le> t' \<and> mn \<le> c' \<and> 0 < k \<or> k = length cs \<or> mx \<le> c')"
  using assms
proof (induction cs arbitrary: c t)
  case Nil
  then show ?case by (simp add: i64_id)
next
  case (Cons x cs)
  let ?t = "i64 (t + max (cand_Capacity x) 1)"
  consider (full) "\<not> c < mx" | (stop) "c < mx" "mn \<le> c + 1 \<and> need \<le> ?t"
    | (more) "c < mx" "\<not> (mn \<le> c + 1 \<and> need \<le> ?t)" by blast
  then show ?case
  proof cases
    case full
    with Cons.prems show ?thesis
      by (intro exI [of _ 0]) (auto simp: i64_id)
  next
    case stop
    with Cons.prems show ?thesis
      by (intro exI [of _ 1]) (auto simp: Let_def)
  next
    case more
    with Cons.prems have "count_loop mn mx need cs (c + 1) ?t = (c', t')" by (auto simp: Let_def)
    from Cons.IH [OF this in_i64_i64] obtain k where k: "k \<le> length cs" "c' = c + 1 + int k"
      "t' = i64 (?t + capacity_sum (take k cs))" "c + 1 \<le> mx \<longrightarrow> c' \<le> mx"
      "\<forall>j<k. 0 < j \<longrightarrow> mn \<le> c + 1 + int j \<longrightarrow> i64 (?t + capacity_sum (take j cs)) < need"
      "need \<le> t' \<and> mn \<le> c' \<and> 0 < k \<or> k = length cs \<or> mx \<le> c'" by blast
    have "i64 (t + capacity_sum (take j (x # cs))) < need"
      if "j < Suc k" "0 < j" "mn \<le> c + int j" for j
    proof (cases j)
      case (Suc n)
      with that more(2) k(5) show ?thesis
        by (cases "n = 0") (auto simp: add.assoc)
    qed (use that in simp)
    with k more show ?thesis
      by (intro exI [of _ "Suc k"]) (auto simp: add.assoc)
  qed
qed

section \<open>What a successful plan went through\<close>

text \<open>The node count after the loop, before the assignment.\<close>

definition planned_nodes :: "Candidate list \<Rightarrow> int list \<Rightarrow> int \<Rightarrow> int \<Rightarrow> int \<times> int" where
  "planned_nodes usable layerBytes minNodes maxNodes =
     (if 0 < sum64 layerBytes
      then count_loop minNodes maxNodes (neededMB_of (sum64 layerBytes)) usable 0 0
      else (min maxNodes (int (length usable)), 0))"

lemma planned_nodes_bounds:
  assumes "planned_nodes usable lb mn mx = (c, t)" and "0 \<le> mx"
  shows "0 \<le> c" and "c \<le> mx" and "c \<le> int (length usable)"
proof -
  have "0 \<le> c \<and> c \<le> mx \<and> c \<le> int (length usable)"
  proof (cases "0 < sum64 lb")
    case True
    then have "count_loop mn mx (neededMB_of (sum64 lb)) usable 0 0 = (c, t)"
      using assms(1) by (simp add: planned_nodes_def)
    from count_loop_spec [OF this] assms(2) show ?thesis by (auto simp: in_i64_def)
  next
    case False
    with assms show ?thesis by (auto simp: planned_nodes_def)
  qed
  then show "0 \<le> c" and "c \<le> mx" and "c \<le> int (length usable)" by auto
qed

lemma PlanLayers_Inr:
  assumes "PlanLayers cs lb mn mx = Inr plan"
  obtains c t selected as where
    "planned_nodes (sort_key cand_key cs) lb (min_nodes_of mn) (max_nodes_of lb mx) = (c, t)"
    and "0 < sum64 lb \<Longrightarrow> neededMB_of (sum64 lb) \<le> t"
    and "\<forall>x\<in>set lb. 0 \<le> x"
    and "min_nodes_of mn \<le> max_nodes_of lb mx"
    and "selected = take (nat (max c (min_nodes_of mn))) (sort_key cand_key cs)"
    and "int (length selected) = max c (min_nodes_of mn)"
    and "min_nodes_of mn \<le> int (length selected)" and "int (length selected) \<le> max_nodes_of lb mx"
    and "length selected \<le> length lb" and "2 \<le> length selected"
    and "assign_loop lb selected selected 0 0 = Inr as" and "plan = link_stages as"
proof -
  let ?us = "sort_key cand_key cs" and ?mn = "min_nodes_of mn" and ?mx = "max_nodes_of lb mx"
  obtain c t where ct: "planned_nodes ?us lb ?mn ?mx = (c, t)" by fastforce
  let ?sel = "take (nat (max c ?mn)) ?us"
  from assms ct have guards: "2 \<le> int (length lb)" "?mn \<le> ?mx" "\<forall>x\<in>set lb. 0 \<le> x"
    "?mn \<le> int (length ?us)" and need: "0 < sum64 lb \<Longrightarrow> neededMB_of (sum64 lb) \<le> t"
    and run: "(case assign_loop lb ?sel ?sel 0 0 of Inl e \<Rightarrow> Inl e | Inr as \<Rightarrow> Inr (link_stages as)) = Inr plan"
    by (auto simp: PlanLayers_def sort_usable planned_nodes_def Let_def max_def
          min_nodes_of_def [symmetric] max_nodes_of_def [symmetric] not_less not_le
          split: if_splits)
  from run obtain as where as: "assign_loop lb ?sel ?sel 0 0 = Inr as" "plan = link_stages as"
    by (auto split: sum.splits)
  have mx: "0 \<le> ?mx" "?mx \<le> int (length lb)" "2 \<le> ?mn"
    using guards by (auto simp: max_nodes_of_def min_nodes_of_def)
  note b = planned_nodes_bounds [OF ct mx(1)]
  have len: "int (length ?sel) = max c ?mn" using b guards(4) mx by (auto simp: min_def max_def)
  show thesis
  proof (rule that [OF ct need guards(3,2) refl len])
    show "?mn \<le> int (length ?sel)" "int (length ?sel) \<le> ?mx"
      using len b guards(2) by auto
    then show "length ?sel \<le> length lb" "2 \<le> length ?sel" using mx by auto
  qed (use as in auto)
qed

end
