(* ===== verification/Bytes.thy ===== *)
theory Bytes
  imports Prelude "HOL-Library.Word"
begin

text \<open>
  Byte-level code the components share: fixed-width integers in big- and little-endian order
  (\<open>encoding/binary\<close>), hexadecimal and raw URL base64 (\<open>encoding/hex\<close>, \<open>encoding/base64\<close>),
  \<open>strings.Split\<close>, \<open>io.ReadFull\<close> on a byte stream and the \<open>writeFull\<close> loop that
  \<open>src/internal/tensorwire/frame.go\<close> and \<open>src/internal/tunnel/crypto.go\<close> both hold.
\<close>

type_synonym byte = "8 word"

section \<open>Fixed-width integers\<close>

text \<open>The \<open>n\<close> low-order bytes of a number, most significant first, and the number they denote.\<close>

fun be_put :: "nat \<Rightarrow> nat \<Rightarrow> byte list" where
  "be_put 0 x = []"
| "be_put (Suc n) x = be_put n (x div 256) @ [word_of_nat x]"

definition be_get :: "byte list \<Rightarrow> nat" where
  "be_get bs = foldl (\<lambda>acc b. acc * 256 + unat b) 0 bs"

definition PutUint32 :: "32 word \<Rightarrow> byte list" where
  "PutUint32 w = be_put 4 (unat w)"

definition Uint32 :: "byte list \<Rightarrow> 32 word" where
  "Uint32 bs = word_of_nat (be_get bs)"

definition PutUint64 :: "64 word \<Rightarrow> byte list" where
  "PutUint64 w = be_put 8 (unat w)"

definition Uint64 :: "byte list \<Rightarrow> 64 word" where
  "Uint64 bs = word_of_nat (be_get bs)"

section \<open>Strings, hexadecimal and base64\<close>

definition string_bytes :: "string \<Rightarrow> byte list" where
  "string_bytes s = map (\<lambda>c. word_of_nat (of_char c)) s"

definition bytes_string :: "byte list \<Rightarrow> string" where
  "bytes_string bs = map (\<lambda>b. char_of (unat b)) bs"

text \<open>\<open>strings.Split\<close> with a one-byte separator.\<close>

fun split_on :: "char \<Rightarrow> string \<Rightarrow> string list" where
  "split_on sep [] = [[]]"
| "split_on sep (c # cs) =
     (if c = sep then [] # split_on sep cs
      else (case split_on sep cs of [] \<Rightarrow> [[c]] | x # xs \<Rightarrow> (c # x) # xs))"

definition hex_digit :: "nat \<Rightarrow> char" where
  "hex_digit n = char_of (if n < 10 then n + 48 else n + 87)"

definition hex_value :: "char \<Rightarrow> nat option" where
  "hex_value c =
     (let n = of_char c in
      if 48 \<le> n \<and> n \<le> 57 then Some (n - 48)
      else if 97 \<le> n \<and> n \<le> 102 then Some (n - 87)
      else if 65 \<le> n \<and> n \<le> 70 then Some (n - 55)
      else None)"

definition hex_encode :: "byte list \<Rightarrow> string" where
  "hex_encode bs = concat (map (\<lambda>b. [hex_digit (unat b div 16), hex_digit (unat b mod 16)]) bs)"

fun hex_decode :: "string \<Rightarrow> byte list option" where
  "hex_decode [] = Some []"
| "hex_decode [c] = None"
| "hex_decode (c # d # cs) =
     (case (hex_value c, hex_value d) of
        (Some x, Some y) \<Rightarrow> map_option ((#) (word_of_nat (16 * x + y))) (hex_decode cs)
      | _ \<Rightarrow> None)"

definition b64_char :: "nat \<Rightarrow> char" where
  "b64_char n = char_of (if n < 26 then n + 65 else if n < 52 then n + 71
     else if n < 62 then n - 4 else if n = 62 then 45 else 95)"

definition b64_value :: "char \<Rightarrow> nat option" where
  "b64_value c =
     (let n = of_char c in
      if 65 \<le> n \<and> n \<le> 90 then Some (n - 65)
      else if 97 \<le> n \<and> n \<le> 122 then Some (n - 71)
      else if 48 \<le> n \<and> n \<le> 57 then Some (n + 4)
      else if n = 45 then Some 62
      else if n = 95 then Some 63
      else None)"

fun b64_encode :: "byte list \<Rightarrow> string" where
  "b64_encode [] = []"
| "b64_encode [a] = [b64_char (unat a div 4), b64_char (unat a mod 4 * 16)]"
| "b64_encode [a, b] =
     [b64_char (unat a div 4), b64_char (unat a mod 4 * 16 + unat b div 16), b64_char (unat b mod 16 * 4)]"
| "b64_encode (a # b # c # rest) =
     [b64_char (unat a div 4), b64_char (unat a mod 4 * 16 + unat b div 16),
      b64_char (unat b mod 16 * 4 + unat c div 64), b64_char (unat c mod 64)] @ b64_encode rest"

text \<open>
  Decoding four digits to three bytes; a tail of two or three digits gives one or two bytes with its
  unused low bits ignored (the encoding is not \<open>Strict\<close>), a tail of one digit is an error.
\<close>

fun b64_quads :: "nat list \<Rightarrow> byte list option" where
  "b64_quads [] = Some []"
| "b64_quads [x] = None"
| "b64_quads [x, y] = Some [word_of_nat (x * 4 + y div 16)]"
| "b64_quads [x, y, z] = Some [word_of_nat (x * 4 + y div 16), word_of_nat (y mod 16 * 16 + z div 4)]"
| "b64_quads (x # y # z # w # rest) =
     map_option (\<lambda>bs. word_of_nat (x * 4 + y div 16) # word_of_nat (y mod 16 * 16 + z div 4)
       # word_of_nat (z mod 4 * 64 + w) # bs) (b64_quads rest)"

definition is_newline :: "char \<Rightarrow> bool" where
  "is_newline c \<longleftrightarrow> of_char c = (10::nat) \<or> of_char c = (13::nat)"

definition b64_decode :: "string \<Rightarrow> byte list option" where
  "b64_decode s =
     (case those (map b64_value (filter (\<lambda>c. \<not> is_newline c) s)) of
        None \<Rightarrow> None
      | Some ds \<Rightarrow> b64_quads ds)"

section \<open>Streams\<close>

datatype io_error = EOF | UnexpectedEOF | IOFailed

text \<open>\<open>io.ReadFull\<close> of \<open>n\<close> bytes; the second component is what is left of the stream.\<close>

definition read_full :: "nat \<Rightarrow> byte list \<Rightarrow> (io_error + byte list) \<times> byte list" where
  "read_full n s =
     (if n \<le> length s then (Inr (take n s), drop n s)
      else (Inl (if s = [] then EOF else UnexpectedEOF), []))"

text \<open>
  An \<open>io.Writer\<close>: what it has accepted so far, and how its next calls behave (accept at most so
  many bytes, or accept some and fail); past the end of the script it accepts everything.
\<close>

datatype write_step = Accept nat | Fail nat

record writer =
  accepted :: "byte list"
  script :: "write_step list"

definition write_call :: "writer \<Rightarrow> byte list \<Rightarrow> (nat \<times> bool) \<times> writer" where
  "write_call w bs =
     (case script w of
        [] \<Rightarrow> ((length bs, True), w\<lparr>accepted := accepted w @ bs\<rparr>)
      | Accept n # rest \<Rightarrow>
          ((min n (length bs), True), \<lparr>accepted = accepted w @ take n bs, script = rest\<rparr>)
      | Fail n # rest \<Rightarrow>
          ((min n (length bs), False), \<lparr>accepted = accepted w @ take n bs, script = rest\<rparr>))"

function writeFull :: "writer \<Rightarrow> byte list \<Rightarrow> io_error option \<times> writer" where
  "writeFull w bs =
     (if bs = [] then (None, w)
      else (case write_call w bs of
              ((n, ok), w') \<Rightarrow>
                if \<not> ok then (Some IOFailed, w')
                else if n = 0 then (Some UnexpectedEOF, w')
                else writeFull w' (drop n bs)))"
  by pat_completeness auto
termination
  by (relation "measure (\<lambda>(w, bs). length bs)") auto

declare writeFull.simps [simp del]

section \<open>Integers round trip\<close>

lemma be_put_length [simp]: "length (be_put n x) = n"
  by (induction n arbitrary: x) auto

lemma be_get_append: "be_get (xs @ [b]) = be_get xs * 256 + unat b"
  by (simp add: be_get_def)

lemma be_get_put: "be_get (be_put n x) = x mod 256 ^ n"
proof (induction n arbitrary: x)
  case 0
  then show ?case by (simp add: be_get_def)
next
  case (Suc n)
  have "be_get (be_put (Suc n) x) = x div 256 mod 256 ^ n * 256 + x mod 256"
    by (simp add: be_get_append Suc.IH unat_of_nat)
  also have "\<dots> = x mod (256 * 256 ^ n)"
    by (simp add: mod_mult2_eq mult.commute)
  finally show ?case by simp
qed

lemma Uint32_Put [simp]: "Uint32 (PutUint32 w) = w"
proof -
  have "unat w mod 4294967296 = unat w" using unsigned_less [of w, where ?'a = nat] by simp
  then show ?thesis by (simp add: Uint32_def PutUint32_def be_get_put)
qed

lemma Uint64_Put [simp]: "Uint64 (PutUint64 w) = w"
proof -
  have "unat w mod 18446744073709551616 = unat w" using unsigned_less [of w, where ?'a = nat] by simp
  then show ?thesis by (simp add: Uint64_def PutUint64_def be_get_put)
qed

lemma be_get_less: "be_get bs < 256 ^ length bs"
proof (induction bs rule: rev_induct)
  case (snoc b bs)
  have "unat b < 256" using unsigned_less [of b, where ?'a = nat] by simp
  with snoc show ?case by (simp add: be_get_append)
qed (simp add: be_get_def)

lemma be_put_get: "be_put (length bs) (be_get bs) = bs"
proof (induction bs rule: rev_induct)
  case (snoc b bs)
  have b: "unat b < 256" using unsigned_less [of b, where ?'a = nat] by simp
  then have "(be_get bs * 256 + unat b) div 256 = be_get bs" by simp
  moreover have "word_of_nat (be_get bs * 256 + unat b) = b"
    by (rule word_unat_eq_iff [THEN iffD2]) (use b in \<open>simp add: unat_of_nat del: of_nat_add of_nat_mult\<close>)
  ultimately show ?case using snoc by (simp add: be_get_append del: of_nat_add of_nat_mult)
qed (simp add: be_get_def)

lemma Put_Uint32: "length bs = 4 \<Longrightarrow> PutUint32 (Uint32 bs) = bs"
  using be_get_less [of bs] be_put_get [of bs] by (simp add: PutUint32_def Uint32_def unat_of_nat)

lemma Put_Uint64: "length bs = 8 \<Longrightarrow> PutUint64 (Uint64 bs) = bs"
  using be_get_less [of bs] be_put_get [of bs] by (simp add: PutUint64_def Uint64_def unat_of_nat)

lemma PutUint_length [simp]: "length (PutUint32 w) = 4" "length (PutUint64 v) = 8"
  by (simp_all add: PutUint32_def PutUint64_def)

section \<open>Text encodings round trip\<close>

text \<open>An encoder with a decoder that undoes it: the law every textual encoding here satisfies.\<close>

locale text_codec =
  fixes enc :: "'a \<Rightarrow> 'b" and dec :: "'b \<Rightarrow> 'a option"
  assumes dec_enc: "dec (enc x) = Some x"
begin

lemma enc_inj: "enc x = enc y \<longleftrightarrow> x = y"
  by (metis dec_enc option.inject)

lemma dec_fails_outside: "dec t = None \<Longrightarrow> t \<noteq> enc x"
  using dec_enc by auto

end

lemma unat_byte_less [simp]: "unat (b :: byte) < 256"
  using unsigned_less [of b] by simp

lemma hex_value_digit: "n < 16 \<Longrightarrow> hex_value (hex_digit n) = Some n"
  by (auto simp: hex_value_def hex_digit_def)

lemma byte_of_hex: "word_of_nat (16 * (unat b div 16) + unat b mod 16) = (b :: byte)"
  by simp

interpretation hexadecimal: text_codec hex_encode hex_decode
proof unfold_locales
  fix bs
  show "hex_decode (hex_encode bs) = Some bs"
    by (induction bs) (auto simp: hex_encode_def hex_value_digit byte_of_hex less_mult_imp_div_less)
qed

lemma hex_encode_length [simp]: "length (hex_encode bs) = 2 * length bs"
  by (induction bs) (auto simp: hex_encode_def)

lemma b64_value_char: "n < 64 \<Longrightarrow> b64_value (b64_char n) = Some n"
  by (auto simp: b64_value_def b64_char_def Let_def)

lemma b64_char_plain: "n < 64 \<Longrightarrow> \<not> is_newline (b64_char n) \<and> b64_char n \<noteq> CHR ''.''"
proof -
  assume "n < 64"
  then have "of_char (b64_char n) = (if n < 26 then n + 65 else if n < 52 then n + 71
     else if n < 62 then n - 4 else if n = 62 then 45 else 95)"
    by (simp add: b64_char_def)
  moreover have "of_char CHR ''.'' = (46 :: nat)" by simp
  ultimately show ?thesis by (auto simp: is_newline_def split: if_splits)
qed

lemma b64_byte1: "word_of_nat (unat a div 4 * 4 + (unat a mod 4 * 16 + k) div 16) = (a :: byte)" if "k < 16"
proof -
  have "(unat a mod 4 * 16 + k) div 16 = unat a mod 4" using that by simp
  then show ?thesis by simp
qed

lemma b64_byte2:
  "word_of_nat ((j * 16 + unat b div 16) mod 16 * 16 + (unat b mod 16 * 4 + k) div 4) = (b :: byte)" if "k < 4"
proof -
  have "(unat b mod 16 * 4 + k) div 4 = unat b mod 16" using that by simp
  moreover have "(j * 16 + unat b div 16) mod 16 = unat b div 16"
    by (simp add: mod_eq_self_iff_div_eq_0 div_eq_0_iff less_mult_imp_div_less)
  ultimately show ?thesis by simp
qed

lemma b64_byte3: "word_of_nat ((j * 4 + unat c div 64) mod 4 * 64 + unat c mod 64) = (c :: byte)"
proof -
  have "(j * 4 + unat c div 64) mod 4 = unat c div 64"
    by (simp add: mod_eq_self_iff_div_eq_0 div_eq_0_iff less_mult_imp_div_less)
  then show ?thesis by simp
qed

lemma b64_digit_bounds:
  "unat (a :: byte) div 4 < 64" "unat a mod 4 * 16 + unat (b :: byte) div 16 < 64"
  "unat b mod 16 * 4 + unat (c :: byte) div 64 < 64" "unat a mod 4 * 16 < 64" "unat b mod 16 * 4 < 64"
  using unat_byte_less [of a] unat_byte_less [of b] unat_byte_less [of c]
    mod_less_divisor [of 4 "unat a"] mod_less_divisor [of 16 "unat b"] by linarith+

lemma b64_encode_range: "set (b64_encode bs) \<subseteq> b64_char ` {..<64}"
  by (induction bs rule: b64_encode.induct) (simp_all add: b64_digit_bounds)

lemma b64_encode_nonempty: "bs \<noteq> [] \<Longrightarrow> b64_encode bs \<noteq> []"
  by (cases bs rule: b64_encode.cases) auto

lemma b64_encode_chars: "c \<in> set (b64_encode bs) \<Longrightarrow> \<not> is_newline c \<and> c \<noteq> CHR ''.''"
proof -
  assume "c \<in> set (b64_encode bs)"
  then obtain n where "n < 64" "c = b64_char n" using b64_encode_range [of bs] by auto
  then show ?thesis using b64_char_plain by simp
qed

lemma b64_digits:
  "\<exists>ds. those (map b64_value (b64_encode bs)) = Some ds \<and> b64_quads ds = Some bs"
proof (induction bs rule: b64_encode.induct)
  case (2 a)
  show ?case
    using b64_byte1 [of 0 a] by (simp add: b64_value_char b64_digit_bounds)
next
  case (3 a b)
  show ?case
    using b64_byte1 [of "unat b div 16" a] b64_byte2 [of 0 "unat a mod 4" b]
    by (simp add: b64_value_char b64_digit_bounds less_mult_imp_div_less)
next
  case (4 a b c rest)
  then show ?case
    using b64_byte1 [of "unat b div 16" a] b64_byte2 [of "unat c div 64" "unat a mod 4" b]
      b64_byte3 [of "unat b mod 16" c]
    by (auto simp: b64_value_char b64_digit_bounds less_mult_imp_div_less)
qed simp

interpretation base64url: text_codec b64_encode b64_decode
proof unfold_locales
  fix bs
  have "filter (\<lambda>c. \<not> is_newline c) (b64_encode bs) = b64_encode bs"
    by (rule filter_True) (simp add: b64_encode_chars)
  then show "b64_decode (b64_encode bs) = Some bs"
    using b64_digits [of bs] by (auto simp: b64_decode_def)
qed

lemma string_bytes_inj: "string_bytes a = string_bytes b \<longleftrightarrow> a = b"
proof -
  have "inj (\<lambda>c. word_of_nat (of_char c) :: byte)"
  proof (rule injI)
    fix c d assume "word_of_nat (of_char c) = (word_of_nat (of_char d) :: byte)"
    then have "unat (word_of_nat (of_char c) :: byte) = unat (word_of_nat (of_char d) :: byte)" by simp
    then show "c = d" by (simp add: unat_of_nat)
  qed
  then show ?thesis by (simp add: string_bytes_def inj_map_eq_map)
qed

section \<open>Splitting\<close>

lemma split_on_nonempty [simp]: "split_on sep s \<noteq> []"
  by (induction s) (auto split: list.splits)

lemma split_on_plain: "sep \<notin> set s \<Longrightarrow> split_on sep s = [s]"
  by (induction s) auto

lemma split_on_append: "sep \<notin> set a \<Longrightarrow> split_on sep (a @ sep # s) = a # split_on sep s"
  by (induction a) auto

lemma split_on_concat: "concat (map (\<lambda>x. x @ [sep]) (split_on sep s)) = s @ [sep]"
  by (induction s) (auto split: list.splits)

lemma split_on_parts: "x \<in> set (split_on sep s) \<Longrightarrow> sep \<notin> set x"
  by (induction s arbitrary: x) (auto split: list.splits if_splits)

lemma split_on_pair: "split_on sep s = [a, b] \<longleftrightarrow> s = a @ sep # b \<and> sep \<notin> set a \<and> sep \<notin> set b"
proof
  assume h: "split_on sep s = [a, b]"
  then have "a @ sep # b @ [sep] = s @ [sep]" using split_on_concat [of sep s] by simp
  then have "s = a @ sep # b" by (metis append.assoc append_Cons butlast_snoc)
  with h show "s = a @ sep # b \<and> sep \<notin> set a \<and> sep \<notin> set b"
    using split_on_parts [of _ sep s] by auto
qed (auto simp: split_on_append split_on_plain)

section \<open>Writing everything\<close>

text \<open>
  \<open>writeFull\<close> returns without an error exactly when the writer has taken every byte, in order; on
  an error the writer has taken a prefix.
\<close>

lemma writeFull_spec:
  "writeFull w bs = (r, w') \<Longrightarrow>
     \<exists>n\<le>length bs. accepted w' = accepted w @ take n bs \<and> (r = None \<longrightarrow> n = length bs)"
proof (induction w bs arbitrary: r w' rule: writeFull.induct)
  case (1 w bs)
  show ?case
  proof (cases "bs = []")
    case True
    with "1.prems" show ?thesis by (simp add: writeFull.simps)
  next
    case False
    obtain n ok v where c: "write_call w bs = ((n, ok), v)" by (metis surj_pair)
    then have v: "accepted v = accepted w @ take n bs" "n \<le> length bs"
      by (auto simp: write_call_def min_def split: list.splits write_step.splits)
    show ?thesis
    proof (cases "ok \<and> n \<noteq> 0")
      case True
      with False c "1.prems" have "writeFull v (drop n bs) = (r, w')" by (simp add: writeFull.simps [of w bs])
      from "1.IH" [OF False c [symmetric] refl _ _ this] True
      obtain m where m: "m \<le> length (drop n bs)" "accepted w' = accepted v @ take m (drop n bs)"
        "r = None \<longrightarrow> m = length (drop n bs)" by auto
      then show ?thesis using v by (intro exI [of _ "n + m"]) (auto simp: take_add)
    next
      case False
      with \<open>bs \<noteq> []\<close> c "1.prems" v show ?thesis
        by (intro exI [of _ n]) (auto simp: writeFull.simps [of w bs] split: if_splits)
    qed
  qed
qed

lemma writeFull_ready: "script w = [] \<Longrightarrow> writeFull w bs = (None, w\<lparr>accepted := accepted w @ bs\<rparr>)"
  by (cases "bs = []")
     (simp_all add: writeFull.simps [of w] write_call_def writeFull.simps [of _ "[]"])

section \<open>Reading\<close>

lemma read_full_exact: "length a = n \<Longrightarrow> read_full n (a @ s) = (Inr a, s)"
  by (auto simp: read_full_def)

lemma read_full_Inr: "read_full n s = (Inr a, s') \<longleftrightarrow> s = a @ s' \<and> length a = n"
  by (auto simp: read_full_def)

end
