(* ===== verification/Gguf.thy ===== *)
theory Gguf
  imports Planner Bytes
begin

text \<open>
  The GGUF header parser (\<open>src/internal/gguf/metadata.go\<close>): metadata values of thirteen types with
  nested arrays, tensor descriptions, and the byte counts per layer that the planner uses. A reader
  is the bytes that are left; every read returns an error or a value with the rest.
\<close>

section \<open>Data\<close>

datatype gguf_error =
    GgufIO io_error
  | NotGGUF
  | UnsupportedVersion
  | TooManyEntries
  | StringTooLarge
  | NestingTooDeep
  | ArrayTooLarge
  | UnknownValueType
  | MissingMetadata
  | InvalidDimensionCount
  | InvalidDimensions
  | UnsupportedTensorType
  | TensorTooLarge
  | AllocationPanic

text \<open>The dynamic types of a metadata value; floats are bit patterns.\<close>

datatype gvalue =
    VUint8 int | VInt8 int | VUint16 int | VInt16 int | VUint32 int | VInt32 int
  | VFloat32 int | VBool bool | VString string | VArray "gvalue list"
  | VUint64 int | VInt64 int | VFloat64 int

record Metadata =
  md_Version :: int
  md_TensorCount :: int
  md_Architecture :: string
  md_LayerCount :: int
  md_EmbeddingLength :: int
  md_ContextLength :: int
  md_FileSize :: int
  md_TensorBytes :: int
  md_NonLayerBytes :: int
  md_LayerBytes :: "int list"
  md_Values :: "(string, gvalue) gomap"

definition maxMetadataEntries :: int where
  "maxMetadataEntries = 1048576"

definition maxStringBytes :: int where
  "maxStringBytes = 67108864"

section \<open>Reading\<close>

text \<open>\<open>binary.Read\<close> of an unsigned little-endian number of \<open>n\<close> bytes, and of a signed one.\<close>

definition read_uint :: "nat \<Rightarrow> byte list \<Rightarrow> gguf_error + (int \<times> byte list)" where
  "read_uint n r =
     (case read_full n r of
        (Inl e, _) \<Rightarrow> Inl (GgufIO e)
      | (Inr bs, r') \<Rightarrow> Inr (int (be_get (rev bs)), r'))"

definition to_signed :: "nat \<Rightarrow> int \<Rightarrow> int" where
  "to_signed n x = (if 2 ^ (8 * n - 1) \<le> x then x - 2 ^ (8 * n) else x)"

definition map_value :: "('a \<Rightarrow> 'b) \<Rightarrow> 'e + ('a \<times> byte list) \<Rightarrow> 'e + ('b \<times> byte list)" where
  "map_value f res = (case res of Inl e \<Rightarrow> Inl e | Inr (x, r) \<Rightarrow> Inr (f x, r))"

definition readString :: "byte list \<Rightarrow> gguf_error + (string \<times> byte list)" where
  "readString r =
     (case read_uint 8 r of
        Inl e \<Rightarrow> Inl e
      | Inr (len, r1) \<Rightarrow>
          if maxStringBytes < len then Inl StringTooLarge
          else (case read_full (nat len) r1 of
                  (Inl e, _) \<Rightarrow> Inl (GgufIO e)
                | (Inr bs, r2) \<Rightarrow> Inr (bytes_string bs, r2)))"

text \<open>A loop that reads \<open>n\<close> things.\<close>

primrec read_many :: "nat \<Rightarrow> (byte list \<Rightarrow> 'e + ('a \<times> byte list)) \<Rightarrow> byte list \<Rightarrow> 'e + ('a list \<times> byte list)" where
  "read_many 0 rd r = Inr ([], r)"
| "read_many (Suc n) rd r =
     (case rd r of
        Inl e \<Rightarrow> Inl e
      | Inr (x, r1) \<Rightarrow> (case read_many n rd r1 of Inl e \<Rightarrow> Inl e | Inr (xs, r2) \<Rightarrow> Inr (x # xs, r2)))"

text \<open>\<open>readValue\<close>; the first argument is \<open>5 - depth\<close>, so zero is a depth above 4.\<close>

primrec readValue :: "nat \<Rightarrow> int \<Rightarrow> byte list \<Rightarrow> gguf_error + (gvalue \<times> byte list)" where
  "readValue 0 valueType r = Inl NestingTooDeep"
| "readValue (Suc d) valueType r =
     (if valueType = 0 then map_value VUint8 (read_uint 1 r)
      else if valueType = 1 then map_value (VInt8 \<circ> to_signed 1) (read_uint 1 r)
      else if valueType = 2 then map_value VUint16 (read_uint 2 r)
      else if valueType = 3 then map_value (VInt16 \<circ> to_signed 2) (read_uint 2 r)
      else if valueType = 4 then map_value VUint32 (read_uint 4 r)
      else if valueType = 5 then map_value (VInt32 \<circ> to_signed 4) (read_uint 4 r)
      else if valueType = 6 then map_value VFloat32 (read_uint 4 r)
      else if valueType = 7 then map_value (\<lambda>v. VBool (v \<noteq> 0)) (read_uint 1 r)
      else if valueType = 8 then map_value VString (readString r)
      else if valueType = 9 then
        (case read_uint 4 r of
           Inl e \<Rightarrow> Inl e
         | Inr (elementType, r1) \<Rightarrow>
             (case read_uint 8 r1 of
                Inl e \<Rightarrow> Inl e
              | Inr (len, r2) \<Rightarrow>
                  if maxMetadataEntries < len then Inl ArrayTooLarge
                  else map_value VArray (read_many (nat len) (readValue d elementType) r2)))
      else if valueType = 10 then map_value VUint64 (read_uint 8 r)
      else if valueType = 11 then map_value (VInt64 \<circ> to_signed 8) (read_uint 8 r)
      else if valueType = 12 then map_value VFloat64 (read_uint 8 r)
      else Inl UnknownValueType)"

text \<open>\<open>int(v)\<close> on a 64-bit platform; zero for a value that is absent or not an integer.\<close>

fun intValue :: "gvalue option \<Rightarrow> int" where
  "intValue (Some (VUint8 v)) = v"
| "intValue (Some (VInt8 v)) = v"
| "intValue (Some (VUint16 v)) = v"
| "intValue (Some (VInt16 v)) = v"
| "intValue (Some (VUint32 v)) = v"
| "intValue (Some (VInt32 v)) = v"
| "intValue (Some (VUint64 v)) = i64 v"
| "intValue (Some (VInt64 v)) = v"
| "intValue _ = 0"

fun stringValue :: "gvalue option \<Rightarrow> string" where
  "stringValue (Some (VString s)) = s"
| "stringValue _ = ''''"

section \<open>Tensors\<close>

record tensor_info =
  ti_name :: string
  ti_dimensions :: "int list"
  ti_ggmlType :: int

definition readTensorInfo :: "byte list \<Rightarrow> gguf_error + (tensor_info \<times> byte list)" where
  "readTensorInfo r =
     (case readString r of
        Inl e \<Rightarrow> Inl e
      | Inr (name, r1) \<Rightarrow>
          (case read_uint 4 r1 of
             Inl e \<Rightarrow> Inl e
           | Inr (nDimensions, r2) \<Rightarrow>
               if nDimensions = 0 \<or> 4 < nDimensions then Inl InvalidDimensionCount
               else
                 (case read_many (nat nDimensions) (read_uint 8) r2 of
                    Inl e \<Rightarrow> Inl e
                  | Inr (dimensions, r3) \<Rightarrow>
                      (case read_uint 4 r3 of
                         Inl e \<Rightarrow> Inl e
                       | Inr (ggmlType, r4) \<Rightarrow>
                           map_value (\<lambda>offset. \<lparr>ti_name = name, ti_dimensions = dimensions, ti_ggmlType = ggmlType\<rparr>)
                             (read_uint 8 r4)))))"

definition u64_max :: int where
  "u64_max = 18446744073709551615"

fun element_count :: "int list \<Rightarrow> int \<Rightarrow> int option" where
  "element_count [] elements = Some elements"
| "element_count (d # ds) elements =
     (if d = 0 \<or> u64_max div d < elements then None else element_count ds (elements * d))"

text \<open>The table of block elements and bytes per block.\<close>

definition traits :: "(int \<times> int \<times> int) list" where
  "traits =
     [(0, 1, 4), (1, 1, 2), (2, 32, 18), (3, 32, 20), (6, 32, 22), (7, 32, 24), (8, 32, 34), (9, 32, 36),
      (10, 256, 84), (11, 256, 110), (12, 256, 144), (13, 256, 176), (14, 256, 210), (15, 256, 292),
      (16, 256, 66), (17, 256, 74), (18, 256, 98), (19, 256, 130), (20, 256, 162), (21, 256, 194),
      (22, 256, 226), (23, 256, 258), (24, 1, 1), (25, 1, 2), (26, 1, 4), (27, 1, 8), (28, 1, 8), (30, 1, 2)]"

definition tensorStorageBytes :: "int list \<Rightarrow> int \<Rightarrow> gguf_error + int" where
  "tensorStorageBytes dimensions ggmlType =
     (case element_count dimensions 1 of
        None \<Rightarrow> Inl InvalidDimensions
      | Some elements \<Rightarrow>
          (case map_of traits ggmlType of
             None \<Rightarrow> Inl UnsupportedTensorType
           | Some (blockElements, blockBytes) \<Rightarrow>
               let blocks = ((elements + blockElements - 1) mod 18446744073709551616) div blockElements
               in if 9223372036854775807 div blockBytes < blocks then Inl TensorTooLarge
                  else Inr (i64 (blocks * blockBytes))))"

text \<open>The text after the first occurrence of a marker (\<open>strings.Index\<close> and the slice after it).\<close>

fun after_marker :: "string \<Rightarrow> string \<Rightarrow> string option" where
  "after_marker marker [] = (if marker = [] then Some [] else None)"
| "after_marker marker (c # cs) =
     (if take (length marker) (c # cs) = marker then Some (drop (length marker) (c # cs)) else after_marker marker cs)"

definition marker_layer :: "string \<Rightarrow> int \<Rightarrow> string \<Rightarrow> int option" where
  "marker_layer name layers marker =
     (case after_marker marker name of
        None \<Rightarrow> None
      | Some rest \<Rightarrow>
          if CHR ''.'' \<notin> set rest then None
          else (case Atoi (takeWhile (\<lambda>c. c \<noteq> CHR ''.'') rest) of
                  None \<Rightarrow> None
                | Some layer \<Rightarrow> if 0 \<le> layer \<and> layer < layers then Some layer else None))"

definition tensorLayer :: "string \<Rightarrow> int \<Rightarrow> int option" where
  "tensorLayer name layers =
     (case marker_layer name layers ''blk.'' of
        Some layer \<Rightarrow> Some layer
      | None \<Rightarrow> marker_layer name layers ''block.'')"

section \<open>The file\<close>

text \<open>One turn of the tensor loop: read a description and account its bytes.\<close>

definition account :: "Metadata \<Rightarrow> string \<Rightarrow> int \<Rightarrow> Metadata" where
  "account meta name bytes =
     (let meta' = meta\<lparr>md_TensorBytes := i64 (md_TensorBytes meta + bytes)\<rparr>
      in (case tensorLayer name (md_LayerCount meta) of
            Some layer \<Rightarrow>
              meta'\<lparr>md_LayerBytes := (md_LayerBytes meta')[nat layer := i64 (md_LayerBytes meta' ! nat layer + bytes)]\<rparr>
          | None \<Rightarrow> meta'\<lparr>md_NonLayerBytes := i64 (md_NonLayerBytes meta' + bytes)\<rparr>))"

primrec read_tensors :: "nat \<Rightarrow> Metadata \<Rightarrow> byte list \<Rightarrow> gguf_error + (Metadata \<times> byte list)" where
  "read_tensors 0 meta r = Inr (meta, r)"
| "read_tensors (Suc n) meta r =
     (case readTensorInfo r of
        Inl e \<Rightarrow> Inl e
      | Inr (info, r1) \<Rightarrow>
          (case tensorStorageBytes (ti_dimensions info) (ti_ggmlType info) of
             Inl e \<Rightarrow> Inl e
           | Inr bytes \<Rightarrow> read_tensors n (account meta (ti_name info) bytes) r1))"

definition readEntry :: "byte list \<Rightarrow> gguf_error + ((string \<times> gvalue) \<times> byte list)" where
  "readEntry r =
     (case readString r of
        Inl e \<Rightarrow> Inl e
      | Inr (key, r1) \<Rightarrow>
          (case read_uint 4 r1 of
             Inl e \<Rightarrow> Inl e
           | Inr (valueType, r2) \<Rightarrow> map_value (Pair key) (readValue 5 valueType r2)))"

definition values_of :: "(string \<times> gvalue) list \<Rightarrow> (string, gvalue) gomap" where
  "values_of entries = foldl (\<lambda>m (k, v). AList.update k v m) [] entries"

definition metadata_of :: "int \<Rightarrow> int \<Rightarrow> (string, gvalue) gomap \<Rightarrow> Metadata" where
  "metadata_of version tensorCount values =
     (let arch = stringValue (map_of values ''general.architecture'')
      in \<lparr>md_Version = version, md_TensorCount = tensorCount, md_Architecture = arch,
          md_LayerCount = intValue (map_of values (arch @ ''.block_count'')),
          md_EmbeddingLength = intValue (map_of values (arch @ ''.embedding_length'')),
          md_ContextLength = intValue (map_of values (arch @ ''.context_length'')),
          md_FileSize = 0, md_TensorBytes = 0, md_NonLayerBytes = 0, md_LayerBytes = [], md_Values = values\<rparr>)"

definition Read :: "byte list \<Rightarrow> gguf_error + Metadata" where
  "Read r =
     (case read_full 4 r of
        (Inl e, _) \<Rightarrow> Inl (GgufIO e)
      | (Inr magic, r1) \<Rightarrow>
          if magic \<noteq> string_bytes ''GGUF'' then Inl NotGGUF
          else
            (case read_uint 4 r1 of
               Inl e \<Rightarrow> Inl e
             | Inr (version, r2) \<Rightarrow>
                 if version < 2 \<or> 3 < version then Inl UnsupportedVersion
                 else
                   (case read_uint 8 r2 of
                      Inl e \<Rightarrow> Inl e
                    | Inr (tensorCount, r3) \<Rightarrow>
                        (case read_uint 8 r3 of
                           Inl e \<Rightarrow> Inl e
                         | Inr (metadataCount, r4) \<Rightarrow>
                             if maxMetadataEntries < metadataCount \<or> maxMetadataEntries < tensorCount
                             then Inl TooManyEntries
                             else
                               (case read_many (nat metadataCount) readEntry r4 of
                                  Inl e \<Rightarrow> Inl e
                                | Inr (entries, r5) \<Rightarrow>
                                    let meta = metadata_of version tensorCount (values_of entries)
                                    in if md_Architecture meta = '''' \<or> md_LayerCount meta \<le> 0 \<or> md_EmbeddingLength meta \<le> 0
                                       then Inl MissingMetadata
                                       else if max_int64_slice < md_LayerCount meta then Inl AllocationPanic
                                       else
                                         (case read_tensors (nat tensorCount)
                                                 (meta\<lparr>md_LayerBytes := replicate (nat (md_LayerCount meta)) 0\<rparr>) r5 of
                                            Inl e \<Rightarrow> Inl e
                                          | Inr (meta', _) \<Rightarrow> Inr meta'))))))"

text \<open>\<open>ReadFile\<close> on a file that can be opened and inspected.\<close>

definition ReadFile :: "byte list option \<Rightarrow> gguf_error + Metadata" where
  "ReadFile file =
     (case file of
        None \<Rightarrow> Inl (GgufIO IOFailed)
      | Some content \<Rightarrow>
          (case Read content of
             Inl e \<Rightarrow> Inl e
           | Inr meta \<Rightarrow> Inr (meta\<lparr>md_FileSize := int (length content)\<rparr>)))"

definition Keys :: "Metadata \<Rightarrow> string list" where
  "Keys m = sort (map fst (md_Values m))"

end
