(* ===== verification/Planner_Correct.thy ===== *)
theory Planner_Correct
  imports Planner
begin

text \<open>
  Correctness of the planner: every layer is placed on exactly one node, the memory check and its
  minimality, the accounting of tensor bytes, independence of the order in which candidates arrive,
  the choice of the stage boundary nearest the proportional target, and the interface
  \<open>layer_planner\<close> through which the control plane uses a plan.
\<close>

section \<open>Consequences of a successful plan\<close>

lemma PlanLayers_stages:
  assumes "PlanLayers cs lb mn mx = Inr plan"
  shows "concat (map stage_layers plan) = [0..<length lb]"
    and "\<forall>s\<in>set plan. stage_ok lb s"
    and "map sa_StageIndex plan = map int [0..<length plan]"
    and "min_nodes_of mn \<le> int (length plan)" and "int (length plan) \<le> max_nodes_of lb mx"
    and "2 \<le> length plan"
    and "map sa_NodeID plan = map (nd_NodeID \<circ> cand_Node) (take (length plan) (sort_key cand_key cs))"
    and "map sa_MemoryBudgetMB plan = map cand_Capacity (take (length plan) (sort_key cand_key cs))"
    and "\<forall>i. Suc i < length plan \<longrightarrow> sa_NextStageNodeID (plan ! i) = sa_NodeID (plan ! Suc i)"
proof -
  from assms obtain c and t :: int and selected as where len: "length selected \<le> length lb" "2 \<le> length selected"
    and bounds: "min_nodes_of mn \<le> int (length selected)" "int (length selected) \<le> max_nodes_of lb mx"
    and sel: "selected = take (nat (max c (min_nodes_of mn))) (sort_key cand_key cs)"
    and as: "assign_loop lb selected selected 0 0 = Inr as" and plan: "plan = link_stages as"
    by (rule PlanLayers_Inr) blast
  have "selected \<noteq> []" using len(2) by auto
  with assign_loop_spec [OF as] len(1) have spec: "concat (map stage_layers as) = [0..<length lb]"
    "\<forall>s\<in>set as. stage_ok lb s" "map sa_NodeID as = map (nd_NodeID \<circ> cand_Node) selected"
    "map sa_MemoryBudgetMB as = map cand_Capacity selected"
    "map sa_StageIndex as = map int [0..<length selected]" by auto
  have lenas: "length as = length selected" using arg_cong [OF spec(3), of length] by simp
  have sel': "selected = take (length selected) (sort_key cand_key cs)"
    by (metis sel length_take min.commute min_def nle_le take_all_iff)
  show "concat (map stage_layers plan) = [0..<length lb]" "\<forall>s\<in>set plan. stage_ok lb s"
    "map sa_StageIndex plan = map int [0..<length plan]" "min_nodes_of mn \<le> int (length plan)"
    "int (length plan) \<le> max_nodes_of lb mx" "2 \<le> length plan"
    using spec bounds lenas len by (simp_all add: plan)
  show "map sa_NodeID plan = map (nd_NodeID \<circ> cand_Node) (take (length plan) (sort_key cand_key cs))"
    "map sa_MemoryBudgetMB plan = map cand_Capacity (take (length plan) (sort_key cand_key cs))"
    using spec(3,4) sel' lenas by (simp_all add: plan)
  show "\<forall>i. Suc i < length plan \<longrightarrow> sa_NextStageNodeID (plan ! i) = sa_NodeID (plan ! Suc i)"
    by (simp add: plan link_stages_next link_stages_node)
qed

lemma PlanLayers_count:
  assumes "PlanLayers cs lb mn mx = Inr plan"
  obtains c t where "planned_nodes (sort_key cand_key cs) lb (min_nodes_of mn) (max_nodes_of lb mx) = (c, t)"
    and "0 < sum64 lb \<Longrightarrow> neededMB_of (sum64 lb) \<le> t" and "\<forall>x\<in>set lb. 0 \<le> x"
    and "0 \<le> max_nodes_of lb mx" and "int (length plan) = max c (min_nodes_of mn)"
proof -
  from assms obtain c t selected as where
    *: "planned_nodes (sort_key cand_key cs) lb (min_nodes_of mn) (max_nodes_of lb mx) = (c, t)"
    "0 < sum64 lb \<Longrightarrow> neededMB_of (sum64 lb) \<le> t" "\<forall>x\<in>set lb. 0 \<le> x"
    "min_nodes_of mn \<le> max_nodes_of lb mx" "int (length selected) = max c (min_nodes_of mn)"
    "length selected \<le> length lb" "2 \<le> length selected"
    and as: "assign_loop lb selected selected 0 0 = Inr as" "plan = link_stages as"
    by (rule PlanLayers_Inr) blast
  have "length as = length selected"
    using as(1) by (rule assign_loop_length)
  moreover have "0 \<le> max_nodes_of lb mx" using *(4) by (simp add: min_nodes_of_def split: if_splits)
  ultimately show thesis using that * as(2) by simp
qed

lemma concat_map_sum:
  "sum_list (map (\<lambda>s. sum_list (map f (g s))) xs) = (sum_list (map f (concat (map g xs))) :: int)"
  by (induction xs) auto

lemma neededMB_of_exact:
  assumes "0 < m" and "m < 9223372036853727232"
  shows "neededMB_of m = (m + 1048575) div 1048576" and "m \<le> neededMB_of m * 1048576"
    and "0 < neededMB_of m" and "(neededMB_of m - 1) * 1048576 < m"
proof -
  have "i64 (m + 1048576) = m + 1048576" "i64 (m + 1048576 - 1) = m + 1048575"
    using assms by (simp_all add: i64_def)
  then show eq: "neededMB_of m = (m + 1048575) div 1048576" by (simp add: neededMB_of_def)
  show "(neededMB_of m - 1) * 1048576 < m" by (simp add: eq)
  show "m \<le> neededMB_of m * 1048576" "0 < neededMB_of m" using assms(1) by (simp_all add: eq)
qed

text \<open>The node count under the hypothesis that no capacity sum overflows.\<close>

lemma capacity_sum_take_le: "capacity_sum (take k cs) \<le> capacity_sum cs"
proof -
  have "capacity_sum cs = capacity_sum (take k cs) + capacity_sum (drop k cs)"
    by (metis append_take_drop_id capacity_sum_def map_append sum_list_append)
  then show ?thesis using capacity_sum_nonneg [of "drop k cs"] by simp
qed

lemma capacity_sum_sort: "capacity_sum (sort_key f cs) = capacity_sum cs"
  by (metis capacity_sum_def mset_map mset_sort sum_mset_sum_list)

lemma planned_nodes_exact:
  assumes "planned_nodes us lb mn mx = (c, t)" and "0 < sum64 lb" and "0 \<le> mx"
    and "capacity_sum us < 9223372036854775808"
  obtains k where "k \<le> length us" and "c = int k" and "c \<le> mx" and "t = capacity_sum (take k us)"
    and "\<forall>j<k. 0 < j \<longrightarrow> mn \<le> int j \<longrightarrow> capacity_sum (take j us) < neededMB_of (sum64 lb)"
    and "neededMB_of (sum64 lb) \<le> t \<and> mn \<le> c \<or> k = length us \<or> mx \<le> c"
proof -
  have ct: "count_loop mn mx (neededMB_of (sum64 lb)) us 0 0 = (c, t)"
    using assms(1,2) by (simp add: planned_nodes_def)
  have exact: "i64 (0 + capacity_sum (take j us)) = capacity_sum (take j us)" for j
    using capacity_sum_take_le [of j us] assms(4) capacity_sum_nonneg [of "take j us"]
    by (simp add: i64_id_nonneg)
  have "in_i64 0" by (simp add: in_i64_def)
  from count_loop_spec [OF ct this] that assms(3) show thesis
    unfolding exact by fastforce
qed


lemma plan_room:
  assumes plan: "PlanLayers cs lb mn mx = Inr plan"
    and size: "0 < sum_list lb" "sum_list lb < 9223372036853727232"
    and caps: "capacity_sum cs < 9223372036854775808"
  shows "sum_list lb \<le> sum_list (map (\<lambda>s. max (sa_MemoryBudgetMB s) 1) plan) * 1048576"
proof -
  let ?us = "sort_key cand_key cs"
  from plan obtain c t where pn: "planned_nodes ?us lb (min_nodes_of mn) (max_nodes_of lb mx) = (c, t)"
    and need: "0 < sum64 lb \<Longrightarrow> neededMB_of (sum64 lb) \<le> t"
    and nn: "\<forall>x\<in>set lb. 0 \<le> x" and mx: "0 \<le> max_nodes_of lb mx"
    and len: "int (length plan) = max c (min_nodes_of mn)" by (rule PlanLayers_count) blast
  have sum: "sum64 lb = sum_list lb" using nn size by (intro sum64_exact) auto
  have "capacity_sum ?us < 9223372036854775808"
    using caps by (simp add: capacity_sum_sort)
  then obtain k where k: "c = int k" "t = capacity_sum (take k ?us)"
    using planned_nodes_exact [OF pn _ mx] size(1) sum by metis
  have "sum_list (map (\<lambda>s. max (sa_MemoryBudgetMB s) 1) plan) = capacity_sum (take (length plan) ?us)"
    using arg_cong [OF PlanLayers_stages(8) [OF plan], of "map (\<lambda>x. max x 1)"]
    by (simp add: capacity_sum_def comp_def)
  moreover have "t \<le> capacity_sum (take (length plan) ?us)"
    using capacity_sum_take_le [of k "take (length plan) ?us"] len k by (simp add: min_def split: if_splits)
  ultimately have "neededMB_of (sum_list lb) \<le> sum_list (map (\<lambda>s. max (sa_MemoryBudgetMB s) 1) plan)"
    using need size(1) sum by simp
  then show ?thesis using neededMB_of_exact(2) [OF size] by linarith
qed

lemma plan_minimal:
  assumes plan: "PlanLayers cs lb mn mx = Inr plan"
    and size: "0 < sum_list lb" "sum_list lb < 9223372036853727232"
    and caps: "capacity_sum cs < 9223372036854775808"
    and j: "max 2 mn \<le> int j" "j < length plan"
  shows "capacity_sum (take j (sort_key cand_key cs)) * 1048576 < sum_list lb"
proof -
  let ?us = "sort_key cand_key cs"
  from plan obtain c t where pn: "planned_nodes ?us lb (min_nodes_of mn) (max_nodes_of lb mx) = (c, t)"
    and nn: "\<forall>x\<in>set lb. 0 \<le> x" and mx: "0 \<le> max_nodes_of lb mx"
    and len: "int (length plan) = max c (min_nodes_of mn)" by (rule PlanLayers_count) blast
  have sum: "sum64 lb = sum_list lb" using nn size by (intro sum64_exact) auto
  have "capacity_sum ?us < 9223372036854775808"
    using caps by (simp add: capacity_sum_sort)
  then obtain k where k: "c = int k" "\<forall>j<k. 0 < j \<longrightarrow> min_nodes_of mn \<le> int j \<longrightarrow>
      capacity_sum (take j ?us) < neededMB_of (sum_list lb)"
    using planned_nodes_exact [OF pn _ mx] size(1) sum by metis
  have m: "min_nodes_of mn \<le> int j" using j(1) by (simp add: min_nodes_of_def)
  then have "j < k" using j(2) len k(1) by simp
  then have "capacity_sum (take j ?us) \<le> neededMB_of (sum_list lb) - 1" using k(2) m j(1) by fastforce
  from mult_right_mono [OF this, of 1048576] neededMB_of_exact(4) [OF size] show ?thesis by simp
qed

section \<open>The boundary nearest the target\<close>

text \<open>
  With sizes that cannot overflow, the loop stops at the boundary whose assigned bytes are nearest
  the target among all boundaries the remaining nodes leave open.
\<close>

definition prefix_bytes :: "int list \<Rightarrow> nat \<Rightarrow> nat \<Rightarrow> int" where
  "prefix_bytes lb start e = sum_list (take (e - start) (drop start lb))"

lemma prefix_bytes_Suc: "start \<le> e \<Longrightarrow> e < length lb \<Longrightarrow> prefix_bytes lb start (Suc e) = prefix_bytes lb start e + lb ! e"
  by (simp add: prefix_bytes_def Suc_diff_le take_Suc_conv_app_nth)

lemma prefix_bytes_mono:
  assumes "\<forall>x\<in>set lb. 0 \<le> x" and "start \<le> e" and "e \<le> e'" and "e' \<le> length lb"
  shows "prefix_bytes lb start e \<le> prefix_bytes lb start e'"
  using assms(3,4)
proof (induction rule: dec_induct)
  case (step n)
  then have "0 \<le> lb ! n" using assms(1) by (auto simp: Suc_le_eq)
  with step assms(2) show ?case by (simp add: prefix_bytes_Suc)
qed simp

lemma prefix_bytes_bounds:
  assumes "\<forall>x\<in>set lb. 0 \<le> x"
  shows "0 \<le> prefix_bytes lb start e" and "prefix_bytes lb start e \<le> sum_list lb"
  using assms sum_list_slice_le [OF assms]
  by (auto simp: prefix_bytes_def intro!: sum_list_nonneg dest!: in_set_takeD in_set_dropD)

lemma abs64_exact: "\<bar>x\<bar> < 9223372036854775808 \<Longrightarrow> abs64 (i64 x) = \<bar>x\<bar>"
  by (auto simp: abs64_def i64_def)

lemma layer_loop_nearest:
  assumes nn: "\<forall>x\<in>set lb. 0 \<le> x" and small: "sum_list lb < 4611686018427387904"
    and t: "0 \<le> target" "target < 4611686018427387904"
    and "start < e" and "e \<le> maxEnd" and "maxEnd \<le> length lb" and "e \<le> f" and "f \<le> maxEnd"
  shows "\<bar>prefix_bytes lb start (layer_loop lb target maxEnd e (prefix_bytes lb start e)) - target\<bar>
           \<le> \<bar>prefix_bytes lb start f - target\<bar>"
  using assms(5-)
proof (induction "maxEnd - e" arbitrary: e f)
  case 0
  then show ?case by (simp add: layer_loop.simps)
next
  case (Suc n)
  let ?P = "prefix_bytes lb start" and ?r = "layer_loop lb target maxEnd e (prefix_bytes lb start e)"
  have e: "e < maxEnd" "start \<le> e" "e < length lb" using Suc.hyps(2) Suc.prems by auto
  have next': "i64 (?P e + lb ! e) = ?P (Suc e)"
    using prefix_bytes_bounds [OF nn, of start "Suc e"] small e by (simp add: i64_id_nonneg prefix_bytes_Suc)
  have dist: "abs64 (i64 (?P k - target)) = \<bar>?P k - target\<bar>" for k
    using prefix_bytes_bounds [OF nn, of start k] small t by (intro abs64_exact) linarith
  have mono: "?P k \<le> ?P l" if "start \<le> k" "k \<le> l" "l \<le> maxEnd" for k l
    using prefix_bytes_mono [OF nn that(1,2)] that(3) Suc.prems(3) by simp
  have up: "?P e \<le> ?P (Suc e)" using mono [of e "Suc e"] e by simp
  consider (stop) "target \<le> ?P e \<or> \<bar>?P e - target\<bar> < \<bar>?P (Suc e) - target\<bar>"
    | (go) "\<not> (target \<le> ?P e \<or> \<bar>?P e - target\<bar> < \<bar>?P (Suc e) - target\<bar>)" by blast
  then show ?case
  proof cases
    case stop
    then have r: "?r = e" using e by (subst layer_loop.simps) (auto simp: Let_def next' dist)
    have "?P e \<le> ?P f" using mono [of e f] e Suc.prems by simp
    moreover have "?P (Suc e) \<le> ?P f" if "e < f" using mono [of "Suc e" f] e that Suc.prems by simp
    ultimately show ?thesis using stop up Suc.prems(4) unfolding r
      by (cases "e = f") (simp, linarith)
  next
    case go
    then have r: "?r = layer_loop lb target maxEnd (Suc e) (?P (Suc e))"
      using e by (subst layer_loop.simps) (auto simp: Let_def next' dist)
    have IH: "\<bar>?P ?r - target\<bar> \<le> \<bar>?P g - target\<bar>" if "Suc e \<le> g" "g \<le> maxEnd" for g
      unfolding r using that Suc.prems e Suc.hyps(2) by (intro Suc.hyps(1)) auto
    show ?thesis
      using IH [of f] IH [of "Suc e"] go e Suc.prems(4,5) by (cases "e = f") auto
  qed
qed


text \<open>A node's proportional share of the bytes that are left, in exact arithmetic.\<close>

definition layer_share :: "int list \<Rightarrow> Candidate list \<Rightarrow> nat \<Rightarrow> nat \<Rightarrow> int" where
  "layer_share layerBytes selected start index =
     sum_list (drop start layerBytes) * max (cand_Capacity (selected ! index)) 1
       div capacity_sum (drop index selected)"

lemma prefix_bytes_single: "start < length lb \<Longrightarrow> prefix_bytes lb start (Suc start) = lb ! start"
  by (simp add: prefix_bytes_def take_Suc hd_drop_conv_nth)

lemma capacity_sum_drop: "i < length cs \<Longrightarrow>
  max (cand_Capacity (cs ! i)) 1 \<le> capacity_sum (drop i cs) \<and> capacity_sum (drop i cs) \<le> capacity_sum cs"
proof (induction cs arbitrary: i)
  case (Cons c cs)
  then show ?case using capacity_sum_nonneg [of cs] by (cases i) fastforce+
qed simp

lemma layer_share_bounds:
  assumes "Suc i < length sel" and nn: "\<forall>x\<in>set lb. 0 \<le> x" and caps: "capacity_sum sel < 9223372036854775808"
    and prod: "sum_list lb * max (cand_Capacity (sel ! i)) 1 < 9223372036854775808"
  shows "sum64 (map (\<lambda>c. max (cand_Capacity c) 1) (drop i sel)) = capacity_sum (drop i sel)"
    and "i64 (i64 (sum64 (drop start lb) * max (cand_Capacity (sel ! i)) 1) sdiv capacity_sum (drop i sel))
           = layer_share lb sel start i"
    and "capacity_sum (drop i sel) \<noteq> 0"
    and "0 \<le> layer_share lb sel start i" and "layer_share lb sel start i \<le> sum_list lb"
proof -
  let ?cap = "max (cand_Capacity (sel ! i)) 1" and ?rest = "sum_list (drop start lb)"
    and ?R = "capacity_sum (drop i sel)"
  have R: "?cap \<le> ?R" "?R < 9223372036854775808" using capacity_sum_drop [of i sel] assms(1) caps by auto
  show rc: "sum64 (map (\<lambda>c. max (cand_Capacity c) 1) (drop i sel)) = ?R"
    using R(2) by (subst sum64_exact) (auto simp: capacity_sum_def)
  have rest: "0 \<le> ?rest" "?rest \<le> sum_list lb"
    using sum_list_slice_le [OF nn, of "length lb" start] nn
    by (auto intro!: sum_list_nonneg dest!: in_set_dropD)
  have cap0: "0 \<le> ?cap" by simp
  have pr: "?rest * ?cap < 9223372036854775808" "0 \<le> ?rest * ?cap"
    using mult_right_mono [OF rest(2) cap0] prod mult_nonneg_nonneg [OF rest(1) cap0] by linarith+
  have le: "?rest * ?cap div ?R \<le> ?rest"
  proof -
    have "?rest * ?cap \<le> ?rest * ?R" using R(1) rest(1) by (rule mult_left_mono)
    then have "?rest * ?cap div ?R \<le> ?rest * ?R div ?R" using R(1) by (intro zdiv_mono1) auto
    also have "\<dots> = ?rest" using R(1) by (intro nonzero_mult_div_cancel_right) auto
    finally show ?thesis .
  qed
  have grow: "?rest \<le> ?rest * ?cap" using rest(1) mult_left_mono [of 1 ?cap ?rest] by simp
  then have "sum64 (drop start lb) = ?rest"
    using pr rest(1) by (simp add: sum64_eq i64_id_nonneg)
  moreover have "?rest * ?cap sdiv ?R = ?rest * ?cap div ?R"
    using pr(2) R(1) by (auto simp: signed_divide_int_def sgn_if)
  moreover have share: "0 \<le> ?rest * ?cap div ?R" using pr(2) R(1) by (simp add: pos_imp_zdiv_nonneg_iff)
  moreover have "?rest * ?cap div ?R < 9223372036854775808"
    using le grow pr(1) by linarith
  ultimately show "i64 (i64 (sum64 (drop start lb) * ?cap) sdiv ?R) = layer_share lb sel start i"
    using pr by (simp add: layer_share_def i64_id_nonneg)
  show "?R \<noteq> 0" using R(1) by auto
  show "0 \<le> layer_share lb sel start i" "layer_share lb sel start i \<le> sum_list lb"
    using share le rest by (simp_all add: layer_share_def)
qed

section \<open>The interface the control plane plans through\<close>

text \<open>
  What group creation relies on: a plan names at least two nodes, all of them candidates and, when
  the candidates have distinct ids, all different; every stage has a non-empty layer range; and the
  plan does not depend on the order in which the candidates were collected.
\<close>

definition distinct_candidates :: "Candidate list \<Rightarrow> bool" where
  "distinct_candidates cs \<longleftrightarrow> distinct (map (nd_NodeID \<circ> cand_Node) cs)"

locale layer_planner =
  fixes plan_for :: "Candidate list \<Rightarrow> plan_error + StageAssignment list"
  assumes plan_len: "plan_for cs = Inr p \<Longrightarrow> 2 \<le> length p"
    and plan_subset: "plan_for cs = Inr p \<Longrightarrow> set (map sa_NodeID p) \<subseteq> set (map (nd_NodeID \<circ> cand_Node) cs)"
    and plan_distinct: "plan_for cs = Inr p \<Longrightarrow> distinct_candidates cs \<Longrightarrow> distinct (map sa_NodeID p)"
    and plan_range: "plan_for cs = Inr p \<Longrightarrow> s \<in> set p \<Longrightarrow> 0 \<le> sa_LayerStart s \<and> sa_LayerStart s < sa_LayerEnd s"
    and plan_perm: "mset cs = mset cs' \<Longrightarrow> distinct_candidates cs \<Longrightarrow> plan_for cs = plan_for cs'"
begin

lemma plan_node_candidate:
  assumes "plan_for cs = Inr p" and "s \<in> set p"
  obtains c where "c \<in> set cs" and "sa_NodeID s = nd_NodeID (cand_Node c)"
proof -
  have "sa_NodeID s \<in> set (map (nd_NodeID \<circ> cand_Node) cs)"
    using plan_subset [OF assms(1)] imageI [OF assms(2), of sa_NodeID] by (simp add: subset_iff)
  then show thesis using that by auto
qed

lemma plan_two_nodes:
  assumes "plan_for cs = Inr p" and "distinct_candidates cs"
  shows "\<exists>a b. a \<in> set (map sa_NodeID p) \<and> b \<in> set (map sa_NodeID p) \<and> a \<noteq> b"
proof -
  obtain a b rest where "p = a # b # rest"
    using plan_len [OF assms(1)] by (cases p; cases "tl p") auto
  with plan_distinct [OF assms] show ?thesis by auto
qed

end

lemma cand_key_inj: "distinct_candidates cs \<Longrightarrow> inj_on cand_key (set cs)"
  by (auto simp: distinct_candidates_def distinct_map cand_key_def inj_on_def)

lemma sort_cand_perm:
  "mset cs = mset cs' \<Longrightarrow> distinct_candidates cs \<Longrightarrow> sort_slice usable_less cs = sort_slice usable_less cs'"
  by (metis sort_usable sort_key_mset_cong cand_key_inj)

lemma PlanLayers_perm:
  assumes "mset cs = mset cs'" and "distinct_candidates cs"
  shows "PlanLayers cs lb mn mx = PlanLayers cs' lb mn mx"
  unfolding PlanLayers_def sort_cand_perm [OF assms] ..

interpretation layers_plan: layer_planner "\<lambda>cs. PlanLayers cs lb mn mx" for lb mn mx
proof unfold_locales
  fix cs p assume p: "PlanLayers cs lb mn mx = Inr p"
  note st = PlanLayers_stages [OF p]
  show "2 \<le> length p" by (rule st(6))
  show "set (map sa_NodeID p) \<subseteq> set (map (nd_NodeID \<circ> cand_Node) cs)"
    unfolding st(7) by (auto dest: in_set_takeD)
  show "distinct (map sa_NodeID p)" if "distinct_candidates cs"
  proof -
    have "distinct (map (nd_NodeID \<circ> cand_Node) (sort_key cand_key cs))"
      using that by (metis distinct_candidates_def mset_map mset_sort mset_eq_imp_distinct_iff)
    then show ?thesis unfolding st(7) by (simp add: take_map [symmetric])
  qed
  show "0 \<le> sa_LayerStart s \<and> sa_LayerStart s < sa_LayerEnd s" if "s \<in> set p" for s
    using st(2) that by (auto simp: stage_ok_def)
next
  fix cs cs' :: "Candidate list"
  assume "mset cs = mset cs'" and "distinct_candidates cs"
  then show "PlanLayers cs lb mn mx = PlanLayers cs' lb mn mx" by (rule PlanLayers_perm)
qed

lemma Plan_Inr: "Plan cs n sz mn mx = Inr p \<Longrightarrow> PlanLayers cs (plan_bytes (nat n) sz) mn mx = Inr p"
  by (simp add: Plan_def split: if_splits)

interpretation even_plan: layer_planner "\<lambda>cs. Plan cs n sz mn mx" for n sz mn mx
proof unfold_locales
  fix cs p assume "Plan cs n sz mn mx = Inr p"
  note pl = Plan_Inr [OF this]
  show "2 \<le> length p" "set (map sa_NodeID p) \<subseteq> set (map (nd_NodeID \<circ> cand_Node) cs)"
    by (rule layers_plan.plan_len [OF pl], rule layers_plan.plan_subset [OF pl])
  show "distinct (map sa_NodeID p)" if "distinct_candidates cs"
    using that by (rule layers_plan.plan_distinct [OF pl])
  show "0 \<le> sa_LayerStart s \<and> sa_LayerStart s < sa_LayerEnd s" if "s \<in> set p" for s
    using that by (rule layers_plan.plan_range [OF pl])
qed (simp add: Plan_def, intro impI, rule PlanLayers_perm)

section \<open>A concrete pool\<close>

text \<open>Two nodes and four layers, evaluated by the simplifier; the witnesses below use it.\<close>

definition sample_node :: "string \<Rightarrow> Node" where
  "sample_node nid = zero_node\<lparr>nd_NodeID := nid, nd_StageEndpoint := nid\<rparr>"

definition sample_cand :: "string \<Rightarrow> int \<Rightarrow> Candidate" where
  "sample_cand nid cap = \<lparr>cand_Node = sample_node nid, cand_Capacity = cap, cand_Load = 0\<rparr>"

definition sample_pool :: "Candidate list" where
  "sample_pool = [sample_cand ''a'' 600, sample_cand ''b'' 400]"

definition sample_layers :: "int list" where
  "sample_layers = [104857600, 419430400, 104857600, 104857600]"

lemmas sample_simps = sample_pool_def sample_layers_def sample_cand_def sample_node_def zero_node_def
  zero_runtime_def zero_hardware_def

lemmas plan_eval = PlanLayers_def sort_slice_def usable_less_def neededMB_of_def chooseLayerEnd_def
  layer_loop.simps sum64_def i64_def abs64_def assignment_def Let_def signed_divide_int_def

definition sample_plan :: "StageAssignment list" where
  "sample_plan =
     [\<lparr>sa_StageIndex = 0, sa_NodeID = ''a'', sa_Endpoint = ''a'', sa_LayerStart = 0, sa_LayerEnd = 2,
       sa_MemoryBudgetMB = 600, sa_TensorBytes = 524288000, sa_ReservationID = '''', sa_Token = '''',
       sa_NextStageNodeID = ''b''\<rparr>,
      \<lparr>sa_StageIndex = 1, sa_NodeID = ''b'', sa_Endpoint = ''b'', sa_LayerStart = 2, sa_LayerEnd = 4,
       sa_MemoryBudgetMB = 400, sa_TensorBytes = 209715200, sa_ReservationID = '''', sa_Token = '''',
       sa_NextStageNodeID = ''''\<rparr>]"

lemma sample_plan_eval: "PlanLayers sample_pool sample_layers 2 2 = Inr sample_plan"
  by (simp add: sample_simps plan_eval sample_plan_def)

section \<open>Properties\<close>

text \<open>
  C1. Every layer exactly once: whenever \<open>PlanLayers\<close> returns a plan, the stages' layer ranges put
  one after another are exactly the layers \<open>0, 1, ..., n-1\<close> in order, no stage is empty, the stages
  are numbered from 0, there are between the requested minimum and maximum of them (at least two),
  and each stage but the last names the node of the next one. Overflow cannot break this.
\<close>

theorem plan_covers_layers_once:
  assumes "PlanLayers candidates layerBytes minNodes maxNodes = Inr plan"
  shows "concat (map stage_layers plan) = [0..<length layerBytes] \<and>
    (\<forall>s\<in>set plan. sa_LayerStart s < sa_LayerEnd s) \<and>
    map sa_StageIndex plan = map int [0..<length plan] \<and>
    2 \<le> length plan \<and> minNodes \<le> int (length plan) \<and>
    (0 < maxNodes \<longrightarrow> int (length plan) \<le> maxNodes) \<and>
    (\<forall>i. Suc i < length plan \<longrightarrow> sa_NextStageNodeID (plan ! i) = sa_NodeID (plan ! Suc i))"
proof -
  note st = PlanLayers_stages [OF assms]
  have "minNodes \<le> int (length plan)" using st(4) by (simp add: min_nodes_of_def split: if_splits)
  moreover have "0 < maxNodes \<longrightarrow> int (length plan) \<le> maxNodes"
    using st(5) by (auto simp: max_nodes_of_def split: if_splits)
  moreover have "\<forall>s\<in>set plan. sa_LayerStart s < sa_LayerEnd s"
    using st(2) by (simp add: stage_ok_def)
  ultimately show ?thesis using st(1,3,6,9) by blast
qed

theorem plan_covers_layers_once_witness:
  "PlanLayers sample_pool sample_layers 2 2 = Inr sample_plan \<and>
   concat (map stage_layers sample_plan) = [0..<length sample_layers]"
  using plan_covers_layers_once [OF sample_plan_eval] sample_plan_eval by blast

text \<open>
  C7. Memory: when the model's bytes are positive and their sum, rounded up to MiB, fits an int64
  (below 2^63 less 1 MiB), and the sum of the pool's capacities in MiB fits one too, a returned
  plan's nodes have room for the whole model, and the plan is minimal among what the request
  allows: no shorter run of the preferred nodes that has at least max 2 minNodes nodes would have
  had room. Without these bounds the sums wrap around and the claim is not made.
\<close>

theorem plan_fits_memory_minimally:
  assumes plan: "PlanLayers candidates layerBytes minNodes maxNodes = Inr plan"
    and size: "0 < sum_list layerBytes" "sum_list layerBytes < 9223372036853727232"
    and caps: "capacity_sum candidates < 9223372036854775808"
  shows "sum_list layerBytes \<le> sum_list (map (\<lambda>s. max (sa_MemoryBudgetMB s) 1) plan) * 1048576 \<and>
    (\<forall>j. max 2 minNodes \<le> int j \<and> j < length plan \<longrightarrow>
       capacity_sum (take j (sort_slice usable_less candidates)) * 1048576 < sum_list layerBytes)"
  using plan_room [OF assms] plan_minimal [OF assms] by (simp add: sort_usable)

theorem plan_fits_memory_minimally_witness:
  "PlanLayers sample_pool sample_layers 2 2 = Inr sample_plan \<and> 0 < sum_list sample_layers \<and>
   capacity_sum sample_pool < 9223372036854775808 \<and>
   sum_list sample_layers \<le> sum_list (map (\<lambda>s. max (sa_MemoryBudgetMB s) 1) sample_plan) * 1048576"
proof -
  have "0 < sum_list sample_layers" "sum_list sample_layers < 9223372036853727232"
    "capacity_sum sample_pool < 9223372036854775808" by (simp_all add: sample_simps)
  with plan_fits_memory_minimally [OF sample_plan_eval] sample_plan_eval show ?thesis by blast
qed

text \<open>
  Accounting: the tensor bytes of the stages add up to the bytes of the model, and each stage's
  tensor bytes are the sum over its own layers, whenever the total fits an int64.
\<close>

theorem plan_accounts_tensor_bytes:
  assumes plan: "PlanLayers candidates layerBytes minNodes maxNodes = Inr plan"
    and fit: "sum_list layerBytes < 9223372036854775808"
  shows "sum_list (map sa_TensorBytes plan) = sum_list layerBytes \<and>
    (\<forall>s\<in>set plan. sa_TensorBytes s = (\<Sum>l\<leftarrow>stage_layers s. layerBytes ! l))"
proof -
  note st = PlanLayers_stages [OF plan]
  from plan have nn: "\<forall>x\<in>set layerBytes. 0 \<le> x" by (rule PlanLayers_count) blast
  have each: "sa_TensorBytes s = (\<Sum>l\<leftarrow>stage_layers s. layerBytes ! l)" if "s \<in> set plan" for s
  proof -
    from st(2) that have ok: "0 \<le> sa_LayerStart s" "sa_LayerEnd s \<le> int (length layerBytes)"
      and tb: "sa_TensorBytes s = sum64 (map (nth layerBytes) (stage_layers s))" by (auto simp: stage_ok_def)
    have slice: "map (nth layerBytes) (stage_layers s) =
        take (nat (sa_LayerEnd s) - nat (sa_LayerStart s)) (drop (nat (sa_LayerStart s)) layerBytes)"
      using ok by (simp add: stage_layers_def slice_nth)
    have "sum_list (map (nth layerBytes) (stage_layers s)) < 9223372036854775808"
      unfolding slice by (rule le_less_trans [OF sum_list_slice_le [OF nn] fit])
    moreover have "\<forall>x\<in>set (map (nth layerBytes) (stage_layers s)). 0 \<le> x"
      unfolding slice using nn by (auto dest!: in_set_takeD in_set_dropD)
    ultimately show ?thesis unfolding tb by (intro sum64_exact)
  qed
  then have "sum_list (map sa_TensorBytes plan) = (\<Sum>s\<leftarrow>plan. \<Sum>l\<leftarrow>stage_layers s. layerBytes ! l)"
    by (simp cong: map_cong)
  also have "\<dots> = sum_list (map (nth layerBytes) [0..<length layerBytes])"
    unfolding concat_map_sum st(1) ..
  finally show ?thesis using each by (simp add: map_nth)
qed

theorem plan_accounts_tensor_bytes_witness:
  "PlanLayers sample_pool sample_layers 2 2 = Inr sample_plan \<and> sum_list sample_layers < 9223372036854775808 \<and>
   sum_list (map sa_TensorBytes sample_plan) = 734003200"
  using plan_accounts_tensor_bytes [OF sample_plan_eval] sample_plan_eval by (simp add: sample_simps)

text \<open>
  C8. Order independence: the control plane collects candidates by ranging over a Go map, whose
  order is random, and sorts them with an unstable sort. With distinct node ids the plan, or the
  error, is the same for every order.
\<close>

theorem plan_order_independent:
  assumes "mset candidates = mset candidates'"
    and "distinct (map (nd_NodeID \<circ> cand_Node) candidates)"
  shows "PlanLayers candidates layerBytes minNodes maxNodes = PlanLayers candidates' layerBytes minNodes maxNodes \<and>
    Plan candidates layers modelSize minNodes maxNodes = Plan candidates' layers modelSize minNodes maxNodes"
proof -
  from assms(2) have "distinct_candidates candidates" by (simp add: distinct_candidates_def)
  from layers_plan.plan_perm [OF assms(1) this] even_plan.plan_perm [OF assms(1) this]
  show ?thesis by blast
qed

theorem plan_order_independent_witness:
  "mset sample_pool = mset (rev sample_pool) \<and>
   PlanLayers (rev sample_pool) sample_layers 2 2 = Inr sample_plan"
proof -
  have "mset sample_pool = mset (rev sample_pool)"
    and "distinct (map (nd_NodeID \<circ> cand_Node) sample_pool)" by (simp_all add: sample_simps)
  with plan_order_independent [OF this] sample_plan_eval show ?thesis by simp
qed

text \<open>
  Balance: for a stage that is not the last, the boundary \<open>chooseLayerEnd\<close> returns is the one
  whose assigned bytes are nearest the node's proportional share of what is left, among all
  boundaries that leave a layer for every later node (sizes and products within int64).
\<close>

theorem chooseLayerEnd_nearest_share:
  assumes ret: "chooseLayerEnd layerBytes start index selected = Inr e"
    and idx: "Suc index < length selected" "start + (length selected - index) \<le> length layerBytes"
    and nn: "\<forall>x\<in>set layerBytes. 0 \<le> x" and small: "sum_list layerBytes < 4611686018427387904"
    and caps: "capacity_sum selected < 9223372036854775808"
    and prod: "sum_list layerBytes * max (cand_Capacity (selected ! index)) 1 < 9223372036854775808"
    and f: "start < f" "f + (length selected - Suc index) \<le> length layerBytes"
  shows "\<bar>prefix_bytes layerBytes start e - layer_share layerBytes selected start index\<bar>
           \<le> \<bar>prefix_bytes layerBytes start f - layer_share layerBytes selected start index\<bar>"
proof -
  let ?share = "layer_share layerBytes selected start index"
  have start: "start < length layerBytes" and last: "index \<noteq> length selected - Suc 0" using idx by simp_all
  note share = layer_share_bounds [OF idx(1) nn caps prod]
  have "e = layer_loop layerBytes ?share (length layerBytes - (length selected - index - 1)) (Suc start)
      (prefix_bytes layerBytes start (Suc start))"
    using ret start by (simp add: chooseLayerEnd_def Let_def prefix_bytes_single last share(1-3))
  moreover have "?share < 4611686018427387904" using share(5) [of start] small by linarith
  ultimately show ?thesis
    using layer_loop_nearest [OF nn small share(4), where e = "Suc start" and f = f and start = start] idx f
    by simp
qed

theorem chooseLayerEnd_nearest_share_witness:
  "chooseLayerEnd sample_layers 0 0 sample_pool = Inr 2 \<and>
   \<bar>prefix_bytes sample_layers 0 2 - layer_share sample_layers sample_pool 0 0\<bar>
     \<le> \<bar>prefix_bytes sample_layers 0 3 - layer_share sample_layers sample_pool 0 0\<bar>"
proof -
  have ret: "chooseLayerEnd sample_layers 0 0 sample_pool = Inr 2"
    by (simp add: sample_simps plan_eval)
  from chooseLayerEnd_nearest_share [OF this, of 3] ret show ?thesis
    by (simp add: sample_simps)
qed








section \<open>Where overflow defeats the checks\<close>

text \<open>
  The size sum is not checked for overflow: two layers of \<open>2^62\<close> bytes sum to a negative number,
  the memory check is skipped, and two nodes of one MiB each are planned for an eight EiB model.
\<close>

lemma plan_overflow_skips_memory_check:
  "\<exists>plan. PlanLayers [sample_cand ''a'' 1, sample_cand ''b'' 1] [4611686018427387904, 4611686018427387904] 2 2 = Inr plan"
  by (simp add: sample_simps plan_eval)

text \<open>
  The capacity sum is not checked either: four nodes that report \<open>2^62\<close> MiB each sum to zero and
  \<open>chooseLayerEnd\<close> divides by it.
\<close>

lemma plan_overflow_divides_by_zero:
  "PlanLayers [sample_cand ''a'' 4611686018427387904, sample_cand ''b'' 4611686018427387904,
     sample_cand ''c'' 4611686018427387904, sample_cand ''d'' 4611686018427387904] [0, 0, 0, 0] 4 4 = Inl PlanPanic"
  by (simp add: sample_simps plan_eval)

end
