(* ===== verification/Gguf_Correct.thy ===== *)
theory Gguf_Correct
  imports Gguf Planner_Correct
begin

text \<open>
  Correctness of the GGUF parser: it reads back what a writer of the format writes, it accounts every
  tensor byte exactly once, the storage size is the number of blocks times their bytes, and tensor
  names are assigned to their layers.
\<close>

section \<open>A writer of the format\<close>

definition le_put :: "nat \<Rightarrow> int \<Rightarrow> byte list" where
  "le_put n x = rev (be_put n (nat x))"

definition put_string :: "string \<Rightarrow> byte list" where
  "put_string s = le_put 8 (int (length s)) @ string_bytes s"

fun value_type :: "gvalue \<Rightarrow> int" where
  "value_type (VUint8 _) = 0" | "value_type (VInt8 _) = 1" | "value_type (VUint16 _) = 2" | "value_type (VInt16 _) = 3"
| "value_type (VUint32 _) = 4" | "value_type (VInt32 _) = 5" | "value_type (VFloat32 _) = 6" | "value_type (VBool _) = 7"
| "value_type (VString _) = 8" | "value_type (VArray _) = 9" | "value_type (VUint64 _) = 10" | "value_type (VInt64 _) = 11"
| "value_type (VFloat64 _) = 12"

definition element_type :: "gvalue list \<Rightarrow> int" where
  "element_type vs = (case vs of [] \<Rightarrow> 0 | v # _ \<Rightarrow> value_type v)"

fun put_value :: "gvalue \<Rightarrow> byte list" where
  "put_value (VUint8 x) = le_put 1 x"
| "put_value (VInt8 x) = le_put 1 (x mod 256)"
| "put_value (VUint16 x) = le_put 2 x"
| "put_value (VInt16 x) = le_put 2 (x mod 65536)"
| "put_value (VUint32 x) = le_put 4 x"
| "put_value (VInt32 x) = le_put 4 (x mod 4294967296)"
| "put_value (VFloat32 x) = le_put 4 x"
| "put_value (VBool b) = le_put 1 (if b then 1 else 0)"
| "put_value (VString s) = put_string s"
| "put_value (VArray vs) = le_put 4 (element_type vs) @ le_put 8 (int (length vs)) @ concat (map put_value vs)"
| "put_value (VUint64 x) = le_put 8 x"
| "put_value (VInt64 x) = le_put 8 (x mod 18446744073709551616)"
| "put_value (VFloat64 x) = le_put 8 x"

text \<open>Values the format can hold, with arrays nested at most so deep.\<close>

fun wf_value :: "nat \<Rightarrow> gvalue \<Rightarrow> bool" where
  "wf_value 0 v = False"
| "wf_value (Suc d) (VUint8 x) = (0 \<le> x \<and> x < 256)"
| "wf_value (Suc d) (VInt8 x) = (-128 \<le> x \<and> x < 128)"
| "wf_value (Suc d) (VUint16 x) = (0 \<le> x \<and> x < 65536)"
| "wf_value (Suc d) (VInt16 x) = (-32768 \<le> x \<and> x < 32768)"
| "wf_value (Suc d) (VUint32 x) = (0 \<le> x \<and> x < 4294967296)"
| "wf_value (Suc d) (VInt32 x) = (-2147483648 \<le> x \<and> x < 2147483648)"
| "wf_value (Suc d) (VFloat32 x) = (0 \<le> x \<and> x < 4294967296)"
| "wf_value (Suc d) (VBool b) = True"
| "wf_value (Suc d) (VString s) = (int (length s) \<le> maxStringBytes)"
| "wf_value (Suc d) (VArray vs) =
     (int (length vs) \<le> maxMetadataEntries \<and> (\<forall>v\<in>set vs. wf_value d v \<and> value_type v = element_type vs))"
| "wf_value (Suc d) (VUint64 x) = (0 \<le> x \<and> x < 18446744073709551616)"
| "wf_value (Suc d) (VInt64 x) = in_i64 x"
| "wf_value (Suc d) (VFloat64 x) = (0 \<le> x \<and> x < 18446744073709551616)"

definition put_entry :: "string \<times> gvalue \<Rightarrow> byte list" where
  "put_entry e = put_string (fst e) @ le_put 4 (value_type (snd e)) @ put_value (snd e)"

text \<open>A tensor is written with its offset in the data section, which the parser reads over.\<close>

definition put_tensor :: "tensor_info \<times> int \<Rightarrow> byte list" where
  "put_tensor = (\<lambda>(t, offset). put_string (ti_name t) @ le_put 4 (int (length (ti_dimensions t))) @
     concat (map (le_put 8) (ti_dimensions t)) @ le_put 4 (ti_ggmlType t) @ le_put 8 offset)"

definition put_file :: "int \<Rightarrow> (string \<times> gvalue) list \<Rightarrow> (tensor_info \<times> int) list \<Rightarrow> byte list" where
  "put_file version entries tensors =
     string_bytes ''GGUF'' @ le_put 4 version @ le_put 8 (int (length tensors)) @ le_put 8 (int (length entries)) @
     concat (map put_entry entries) @ concat (map put_tensor tensors)"

definition wf_tensor :: "tensor_info \<Rightarrow> bool" where
  "wf_tensor t \<longleftrightarrow> int (length (ti_name t)) \<le> maxStringBytes \<and> ti_dimensions t \<noteq> [] \<and> length (ti_dimensions t) \<le> 4 \<and>
     (\<forall>d\<in>set (ti_dimensions t). 0 \<le> d \<and> d < 18446744073709551616) \<and> 0 \<le> ti_ggmlType t \<and> ti_ggmlType t < 4294967296"

section \<open>Reading back\<close>

lemma read_uint_put: "0 \<le> x \<Longrightarrow> x < 256 ^ n \<Longrightarrow> read_uint n (le_put n x @ r) = Inr (x, r)"
proof -
  assume x: "0 \<le> x" "x < 256 ^ n"
  then have "nat x < 256 ^ n" by (simp add: nat_less_iff)
  then have "be_get (be_put n (nat x)) = nat x" by (simp add: be_get_put)
  with x read_full_exact [of "le_put n x" n r] show ?thesis by (simp add: read_uint_def le_put_def)
qed

lemma bytes_string_bytes [simp]: "bytes_string (string_bytes s) = s"
proof -
  have "char_of (unat (word_of_nat (of_char c) :: byte)) = c" for c :: char by (simp add: unat_of_nat)
  then show ?thesis by (simp add: bytes_string_def string_bytes_def comp_def)
qed

lemma length_string_bytes [simp]: "length (string_bytes s) = length s"
  by (simp add: string_bytes_def)

lemma readString_put: "int (length s) \<le> maxStringBytes \<Longrightarrow> readString (put_string s @ r) = Inr (s, r)"
proof -
  assume s: "int (length s) \<le> maxStringBytes"
  then have "read_uint 8 (le_put 8 (int (length s)) @ string_bytes s @ r) = Inr (int (length s), string_bytes s @ r)"
    by (intro read_uint_put) (simp_all add: maxStringBytes_def)
  with s read_full_exact [of "string_bytes s" "length s" r] show ?thesis by (simp add: readString_def put_string_def)
qed

lemma read_many_put:
  "(\<And>x r. x \<in> set xs \<Longrightarrow> rd (put x @ r) = Inr (x, r)) \<Longrightarrow>
     read_many (length xs) rd (concat (map put xs) @ r) = Inr (xs, r)"
  by (induction xs arbitrary: r) simp_all

lemma to_signed_mod:
  "-128 \<le> x \<Longrightarrow> x < 128 \<Longrightarrow> to_signed (Suc 0) (x mod 256) = x"
  "-32768 \<le> x \<Longrightarrow> x < 32768 \<Longrightarrow> to_signed 2 (x mod 65536) = x"
  "-2147483648 \<le> x \<Longrightarrow> x < 2147483648 \<Longrightarrow> to_signed 4 (x mod 4294967296) = x"
  "in_i64 x \<Longrightarrow> to_signed 8 (x mod 18446744073709551616) = x"
proof -
  have neg: "x mod m = (if x < 0 then x + m else x)" if "- m \<le> x" "x < m" "0 < m" for m :: int
  proof (cases "x < 0")
    case True
    have "x mod m = (x + m) mod m" by simp
    also have "\<dots> = x + m" using True that by (intro mod_pos_pos_trivial) simp_all
    finally show ?thesis using True by simp
  qed (use that in simp)
  show "-128 \<le> x \<Longrightarrow> x < 128 \<Longrightarrow> to_signed (Suc 0) (x mod 256) = x" using neg [of 256] by (simp add: to_signed_def)
  show "-32768 \<le> x \<Longrightarrow> x < 32768 \<Longrightarrow> to_signed 2 (x mod 65536) = x" using neg [of 65536] by (simp add: to_signed_def)
  show "-2147483648 \<le> x \<Longrightarrow> x < 2147483648 \<Longrightarrow> to_signed 4 (x mod 4294967296) = x"
    using neg [of 4294967296] by (simp add: to_signed_def)
  show "in_i64 x \<Longrightarrow> to_signed 8 (x mod 18446744073709551616) = x"
    using neg [of 18446744073709551616] by (simp add: to_signed_def in_i64_def)
qed

lemma map_value_simps [simp]: "map_value f (Inr (x, r)) = Inr (f x, r)" "map_value f (Inl e) = Inl e"
  by (simp_all add: map_value_def)

lemma value_type_range: "0 \<le> value_type v \<and> value_type v < 13"
  by (cases v) simp_all

lemma readValue_put: "wf_value d v \<Longrightarrow> readValue d (value_type v) (put_value v @ r) = Inr (v, r)"
proof (induction d arbitrary: v r)
  case (Suc d)
  show ?case
  proof (cases v)
    case (VArray vs)
    let ?t = "element_type vs"
    have t: "0 \<le> ?t" "?t < 256 ^ 4"
      using value_type_range [of "hd vs"] by (auto simp: element_type_def split: list.splits)
    have len: "int (length vs) \<le> maxMetadataEntries" and el: "\<And>v. v \<in> set vs \<Longrightarrow> wf_value d v \<and> value_type v = ?t"
      using Suc.prems VArray by auto
    have "read_many (length vs) (readValue d ?t) (concat (map put_value vs) @ r) = Inr (vs, r)"
      by (rule read_many_put) (use Suc.IH el in metis)
    moreover have "read_uint 8 (le_put 8 (int (length vs)) @ concat (map put_value vs) @ r) = Inr (int (length vs), concat (map put_value vs) @ r)"
      using len by (intro read_uint_put) (simp_all add: maxMetadataEntries_def)
    ultimately show ?thesis using len read_uint_put [OF t] by (simp add: VArray)
  next
    case (VString s)
    with Suc.prems readString_put [of s r] show ?thesis by simp
  qed (use Suc.prems in \<open>auto simp: read_uint_put to_signed_mod\<close>)
qed simp

lemma readEntry_put:
  "int (length (fst e)) \<le> maxStringBytes \<Longrightarrow> wf_value 5 (snd e) \<Longrightarrow> readEntry (put_entry e @ r) = Inr (e, r)"
proof -
  assume e: "int (length (fst e)) \<le> maxStringBytes" "wf_value 5 (snd e)"
  have "read_uint 4 (le_put 4 (value_type (snd e)) @ put_value (snd e) @ r) = Inr (value_type (snd e), put_value (snd e) @ r)"
    using value_type_range [of "snd e"] by (intro read_uint_put) simp_all
  with e readString_put [of "fst e"] readValue_put [of 5 "snd e" r] show ?thesis
    by (simp add: readEntry_def put_entry_def del: readValue.simps)
qed

lemma readTensorInfo_put:
  assumes "wf_tensor t" and "0 \<le> offset" and "offset < 18446744073709551616"
  shows "readTensorInfo (put_tensor (t, offset) @ r) = Inr (t, r)"
proof -
  let ?ds = "ti_dimensions t"
  let ?r3 = "le_put 4 (ti_ggmlType t) @ le_put 8 offset @ r"
  have "read_uint 4 (le_put 4 (int (length ?ds)) @ concat (map (le_put 8) ?ds) @ ?r3) = Inr (int (length ?ds), concat (map (le_put 8) ?ds) @ ?r3)"
    using assms by (intro read_uint_put) (simp_all add: wf_tensor_def)
  moreover have "read_many (length ?ds) (read_uint 8) (concat (map (le_put 8) ?ds) @ ?r3) = Inr (?ds, ?r3)"
    by (rule read_many_put, rule read_uint_put) (use assms in \<open>auto simp: wf_tensor_def\<close>)
  moreover have "read_uint 4 ?r3 = Inr (ti_ggmlType t, le_put 8 offset @ r)"
    using assms by (intro read_uint_put) (simp_all add: wf_tensor_def)
  moreover have "read_uint 8 (le_put 8 offset @ r) = Inr (offset, r)" using assms(2,3) by (intro read_uint_put) simp_all
  moreover have "0 < length ?ds" "length ?ds \<le> 4" using assms by (auto simp: wf_tensor_def)
  ultimately show ?thesis
    using assms readString_put [of "ti_name t"] by (auto simp: readTensorInfo_def put_tensor_def wf_tensor_def)
qed

text \<open>The bytes of a tensor, and the accounts after a list of tensors.\<close>

definition tensor_bytes :: "tensor_info \<Rightarrow> int" where
  "tensor_bytes t = (case tensorStorageBytes (ti_dimensions t) (ti_ggmlType t) of Inl _ \<Rightarrow> 0 | Inr b \<Rightarrow> b)"

definition account_all :: "Metadata \<Rightarrow> tensor_info list \<Rightarrow> Metadata" where
  "account_all meta ts = foldl (\<lambda>m t. account m (ti_name t) (tensor_bytes t)) meta ts"

definition storable :: "tensor_info \<times> int \<Rightarrow> bool" where
  "storable = (\<lambda>(t, offset). wf_tensor t \<and> 0 \<le> offset \<and> offset < 18446744073709551616 \<and>
     (\<exists>b. tensorStorageBytes (ti_dimensions t) (ti_ggmlType t) = Inr b))"

lemma read_tensors_put:
  "\<forall>t\<in>set ts. storable t \<Longrightarrow> read_tensors (length ts) meta (concat (map put_tensor ts) @ r) = Inr (account_all meta (map fst ts), r)"
proof (induction ts arbitrary: meta)
  case (Cons x ts)
  obtain t offset where x: "x = (t, offset)" by fastforce
  with Cons.prems obtain b where "tensorStorageBytes (ti_dimensions t) (ti_ggmlType t) = Inr b" by (auto simp: storable_def)
  with Cons x readTensorInfo_put [of t offset] show ?case by (simp add: storable_def account_all_def tensor_bytes_def)
qed (simp add: account_all_def)

section \<open>Properties\<close>

lemma Read_put_file:
  assumes version: "version = 2 \<or> version = 3"
    and counts: "int (length entries) \<le> maxMetadataEntries" "int (length tensors) \<le> maxMetadataEntries"
    and entries: "\<forall>e\<in>set entries. int (length (fst e)) \<le> maxStringBytes \<and> wf_value 5 (snd e)"
    and tensors: "\<forall>t\<in>set tensors. storable t"
    and meta: "meta = metadata_of version (int (length tensors)) (values_of entries)"
      "md_Architecture meta \<noteq> ''''" "0 < md_LayerCount meta" "md_LayerCount meta \<le> max_int64_slice" "0 < md_EmbeddingLength meta"
  shows "Read (put_file version entries tensors @ rest) =
    Inr (account_all (meta\<lparr>md_LayerBytes := replicate (nat (md_LayerCount meta)) 0\<rparr>) (map fst tensors))"
proof -
  let ?body = "concat (map put_entry entries) @ concat (map put_tensor tensors) @ rest"
  let ?r3 = "le_put 8 (int (length entries)) @ ?body"
  let ?r2 = "le_put 8 (int (length tensors)) @ ?r3"
  have "read_full 4 (string_bytes ''GGUF'' @ le_put 4 version @ ?r2) = (Inr (string_bytes ''GGUF''), le_put 4 version @ ?r2)"
    by (rule read_full_exact) simp
  moreover have "read_uint 4 (le_put 4 version @ ?r2) = Inr (version, ?r2)" using version by (intro read_uint_put) auto
  moreover have "read_uint 8 ?r2 = Inr (int (length tensors), ?r3)" "read_uint 8 ?r3 = Inr (int (length entries), ?body)"
    using counts by (auto intro!: read_uint_put simp: maxMetadataEntries_def)
  moreover have "read_many (length entries) readEntry ?body = Inr (entries, concat (map put_tensor tensors) @ rest)"
    by (rule read_many_put, rule readEntry_put) (use entries in auto)
  ultimately show ?thesis
    using version counts meta read_tensors_put [OF tensors] by (auto simp: Read_def put_file_def Let_def)
qed

text \<open>
  C22. The parser reads what the writer \<open>put_file\<close> writes after the format: from every header of version 2 or 3 with at
  most 2^20 metadata entries and 2^20 tensors within the parser's limits (strings of bounded length, arrays nested
  up to four deep, one to four dimensions, a known storage type, any offset), that names its architecture, layer
  count and embedding length, \<open>Read\<close> recovers the metadata and the accounts of all tensors, whatever follows the
  header. An empty array is written as one of unsigned bytes.
\<close>

theorem gguf_reads_written_file:
  assumes version: "version = 2 \<or> version = 3"
    and counts: "int (length entries) \<le> maxMetadataEntries" "int (length tensors) \<le> maxMetadataEntries"
    and entries: "\<forall>e\<in>set entries. int (length (fst e)) \<le> maxStringBytes \<and> wf_value 5 (snd e)"
    and tensors: "\<forall>t\<in>set tensors. storable t"
    and meta: "meta = metadata_of version (int (length tensors)) (values_of entries)"
      "md_Architecture meta \<noteq> ''''" "0 < md_LayerCount meta" "md_LayerCount meta \<le> max_int64_slice" "0 < md_EmbeddingLength meta"
  shows "Read (put_file version entries tensors @ rest) =
    Inr (account_all (meta\<lparr>md_LayerBytes := replicate (nat (md_LayerCount meta)) 0\<rparr>) (map fst tensors))"
  using assms by (rule Read_put_file)

definition sample_entries :: "(string \<times> gvalue) list" where
  "sample_entries = [(''general.architecture'', VString ''llama''), (''llama.block_count'', VUint32 2),
     (''llama.embedding_length'', VUint32 8), (''tokens'', VArray [VInt8 (-1), VInt8 5])]"

definition sample_tensors :: "(tensor_info \<times> int) list" where
  "sample_tensors = [(\<lparr>ti_name = ''blk.1.w'', ti_dimensions = [64, 2], ti_ggmlType = 2\<rparr>, 0),
     (\<lparr>ti_name = ''output'', ti_dimensions = [3], ti_ggmlType = 0\<rparr>, 96)]"

lemma sample_tensor_bytes: "tensorStorageBytes [64, 2] 2 = Inr 72" "tensorStorageBytes [3] 0 = Inr 12"
  by (simp_all add: tensorStorageBytes_def u64_max_def traits_def i64_def)

lemma wf_value_positive:
  "0 < d \<Longrightarrow> wf_value d (VString s) \<longleftrightarrow> int (length s) \<le> maxStringBytes"
  "0 < d \<Longrightarrow> wf_value d (VUint32 x) \<longleftrightarrow> 0 \<le> x \<and> x < 4294967296"
  "0 < d \<Longrightarrow> wf_value d (VInt8 x) \<longleftrightarrow> -128 \<le> x \<and> x < 128"
  "0 < d \<Longrightarrow> wf_value d (VArray vs) \<longleftrightarrow> int (length vs) \<le> maxMetadataEntries \<and>
     (\<forall>v\<in>set vs. wf_value (d - 1) v \<and> value_type v = element_type vs)"
  by (cases d; simp)+

lemma sample_entries_ok: "\<forall>e\<in>set sample_entries. int (length (fst e)) \<le> maxStringBytes \<and> wf_value 5 (snd e)"
  by (simp add: sample_entries_def maxStringBytes_def maxMetadataEntries_def element_type_def wf_value_positive)

lemma sample_tensors_ok: "\<forall>t\<in>set sample_tensors. storable t"
  by (simp add: sample_tensors_def storable_def wf_tensor_def sample_tensor_bytes maxStringBytes_def)

definition sample_meta :: Metadata where
  "sample_meta = \<lparr>md_Version = 3, md_TensorCount = 2, md_Architecture = ''llama'', md_LayerCount = 2, md_EmbeddingLength = 8,
     md_ContextLength = 0, md_FileSize = 0, md_TensorBytes = 0, md_NonLayerBytes = 0, md_LayerBytes = [],
     md_Values = values_of sample_entries\<rparr>"

lemma sample_metadata_of: "sample_meta = metadata_of 3 (int (length sample_tensors)) (values_of sample_entries)"
  by (simp add: metadata_of_def sample_meta_def sample_tensors_def values_of_def sample_entries_def Let_def)

lemma sample_counts: "int (length sample_entries) \<le> maxMetadataEntries" "int (length sample_tensors) \<le> maxMetadataEntries"
  by (simp_all add: sample_entries_def sample_tensors_def maxMetadataEntries_def)

lemma sample_layer_counts: "replicate (nat (md_LayerCount sample_meta)) 0 = [0, 0 :: int]"
  by (simp add: sample_meta_def numeral_2_eq_2)

theorem gguf_reads_written_file_witness:
  "Read (put_file 3 sample_entries sample_tensors @ [1, 2]) =
     Inr (account_all (sample_meta\<lparr>md_LayerBytes := [0, 0]\<rparr>) (map fst sample_tensors))"
proof -
  have "md_LayerCount sample_meta = 2" "md_Architecture sample_meta = ''llama''" "md_EmbeddingLength sample_meta = 8"
    by (simp_all add: sample_meta_def)
  then show ?thesis
    using gguf_reads_written_file [OF _ sample_counts sample_entries_ok sample_tensors_ok sample_metadata_of, of "[1, 2]"]
    by (simp add: max_int64_slice_def numeral_2_eq_2)
qed

section \<open>Accounts\<close>

definition accounts_ok :: "Metadata \<Rightarrow> bool" where
  "accounts_ok m \<longleftrightarrow> 0 \<le> md_LayerCount m \<and> length (md_LayerBytes m) = nat (md_LayerCount m) \<and>
     md_TensorBytes m = i64 (sum_list (md_LayerBytes m) + md_NonLayerBytes m)"

lemma tensorLayer_range: "tensorLayer name n = Some k \<Longrightarrow> 0 \<le> k \<and> k < n"
  by (auto simp: tensorLayer_def marker_layer_def split: option.splits if_splits)

lemma sum_list_update_int: "k < length xs \<Longrightarrow> sum_list (xs[k := y :: int]) = sum_list xs + (y - xs ! k)"
  by (induction xs arbitrary: k) (auto split: nat.split)

lemma account_fields [simp]:
  "md_LayerCount (account m name b) = md_LayerCount m" "md_Architecture (account m name b) = md_Architecture m"
  "md_EmbeddingLength (account m name b) = md_EmbeddingLength m" "md_Values (account m name b) = md_Values m"
  "length (md_LayerBytes (account m name b)) = length (md_LayerBytes m)"
  by (auto simp: account_def Let_def split: option.split)

lemma i64_diff_left: "i64 (x + (i64 y - z)) = i64 (x + (y - z))"
  using i64_add_right [of "x - z" y] by (simp add: algebra_simps)

lemma accounts_ok_account:
  assumes "accounts_ok m"
  shows "accounts_ok (account m name b)"
proof (cases "tensorLayer name (md_LayerCount m)")
  case None
  with assms show ?thesis by (simp add: accounts_ok_def account_def Let_def add.assoc)
next
  case (Some k)
  with tensorLayer_range [OF Some] assms have k: "nat k < length (md_LayerBytes m)" by (simp add: accounts_ok_def)
  have "i64 (sum_list (md_LayerBytes m) + (i64 (md_LayerBytes m ! nat k + b) - md_LayerBytes m ! nat k) + md_NonLayerBytes m) =
      i64 (sum_list (md_LayerBytes m) + md_NonLayerBytes m + b)"
    using i64_diff_left [of "sum_list (md_LayerBytes m) + md_NonLayerBytes m" "md_LayerBytes m ! nat k + b" "md_LayerBytes m ! nat k"]
    by (simp add: algebra_simps)
  with assms Some k show ?thesis by (simp add: accounts_ok_def account_def Let_def sum_list_update_int)
qed

lemma read_tensors_keep:
  "read_tensors n m r = Inr (m', r') \<Longrightarrow> accounts_ok m \<Longrightarrow>
     accounts_ok m' \<and> md_LayerCount m' = md_LayerCount m \<and> md_Architecture m' = md_Architecture m \<and>
     md_EmbeddingLength m' = md_EmbeddingLength m"
proof (induction n arbitrary: m r)
  case (Suc n)
  from Suc.prems(1) obtain info :: tensor_info and r1 b where "read_tensors n (account m (ti_name info) b) r1 = Inr (m', r')"
    by (auto split: sum.splits)
  from Suc.IH [OF this accounts_ok_account [OF Suc.prems(2)]] show ?case by simp
qed simp

lemma Read_accounts:
  assumes "Read file = Inr meta"
  shows "int (length (md_LayerBytes meta)) = md_LayerCount meta \<and> 1 \<le> md_LayerCount meta \<and>
    md_LayerCount meta \<le> max_int64_slice \<and> md_Architecture meta \<noteq> '''' \<and> 1 \<le> md_EmbeddingLength meta \<and>
    md_TensorBytes meta = i64 (sum_list (md_LayerBytes meta) + md_NonLayerBytes meta)"
proof -
  from assms obtain v c vs n r r' where m0: "0 < md_LayerCount (metadata_of v c vs)" "md_LayerCount (metadata_of v c vs) \<le> max_int64_slice"
    "md_Architecture (metadata_of v c vs) \<noteq> ''''" "0 < md_EmbeddingLength (metadata_of v c vs)"
    and run: "read_tensors n ((metadata_of v c vs)\<lparr>md_LayerBytes := replicate (nat (md_LayerCount (metadata_of v c vs))) 0\<rparr>) r =
      Inr (meta, r')"
    by (fastforce simp: Read_def Let_def not_less not_le split: if_splits sum.splits prod.splits)
  have "accounts_ok ((metadata_of v c vs)\<lparr>md_LayerBytes := replicate (nat (md_LayerCount (metadata_of v c vs))) 0\<rparr>)"
    using m0 by (simp add: accounts_ok_def sum_list_replicate i64_def) (simp add: metadata_of_def Let_def)
  from read_tensors_keep [OF run this] m0 show ?thesis by (simp add: accounts_ok_def)
qed

lemma sample_read: "Read (put_file 3 sample_entries sample_tensors @ []) =
    Inr (account_all (sample_meta\<lparr>md_LayerBytes := [0, 0]\<rparr>) (map fst sample_tensors))"
  using Read_put_file [OF _ sample_counts sample_entries_ok sample_tensors_ok sample_metadata_of, of "[]"] sample_layer_counts
  by (simp add: sample_meta_def max_int64_slice_def)

text \<open>
  Every byte is accounted once: whatever the file, when \<open>Read\<close> returns metadata, it has one
  entry per layer, at least one layer and an architecture name, and the tensor bytes are the layer
  bytes plus the bytes outside the layers, in 64-bit arithmetic.
\<close>

theorem gguf_accounts_every_byte:
  assumes "Read file = Inr meta"
  shows "int (length (md_LayerBytes meta)) = md_LayerCount meta \<and> 1 \<le> md_LayerCount meta \<and>
    md_LayerCount meta \<le> max_int64_slice \<and> md_Architecture meta \<noteq> '''' \<and> 1 \<le> md_EmbeddingLength meta \<and>
    md_TensorBytes meta = i64 (sum_list (md_LayerBytes meta) + md_NonLayerBytes meta)"
  using assms by (rule Read_accounts)

theorem gguf_accounts_every_byte_witness:
  "md_TensorBytes (account_all (sample_meta\<lparr>md_LayerBytes := [0, 0]\<rparr>) (map fst sample_tensors)) = 84 \<and>
   md_LayerBytes (account_all (sample_meta\<lparr>md_LayerBytes := [0, 0]\<rparr>) (map fst sample_tensors)) = [0, 72]"
proof -
  let ?m = "account_all (sample_meta\<lparr>md_LayerBytes := [0, 0]\<rparr>) (map fst sample_tensors)"
  have "md_LayerBytes ?m = [0, 72]" "md_NonLayerBytes ?m = 12"
    by (simp_all add: sample_meta_def sample_tensors_def account_all_def account_def tensor_bytes_def sample_tensor_bytes
        tensorLayer_def marker_layer_def Atoi_def is_digit_def digits_value_def in_i64_def i64_def Let_def)
  with gguf_accounts_every_byte [OF sample_read] show ?thesis by (simp add: i64_def)
qed

section \<open>Storage sizes\<close>

lemma element_count_prod:
  assumes "1 \<le> e" "\<forall>d\<in>set ds. 0 < d"
  shows "element_count ds e = (if e * prod_list ds \<le> u64_max \<or> ds = [] then Some (e * prod_list ds) else None)"
  using assms
proof (induction ds arbitrary: e)
  case (Cons d ds)
  have pos: "1 \<le> prod_list ds" using Cons.prems(2)
    by (induction ds) (auto simp: int_one_le_iff_zero_less zero_less_mult_iff)
  have iff: "u64_max div d < e \<longleftrightarrow> u64_max < e * d"
    using Cons.prems(2) by (simp add: int_div_less_iff)
  have d: "0 < d" "1 \<le> e * d" using Cons.prems by (auto simp: int_one_le_iff_zero_less zero_less_mult_iff)
  show ?case
  proof (cases "u64_max < e * d")
    case True
    have "e * d * 1 \<le> e * d * prod_list ds" using pos d by (intro mult_left_mono) auto
    with True iff d show ?thesis by (simp add: mult.assoc)
  next
    case False
    with iff d Cons.IH [of "e * d"] Cons.prems show ?thesis by (auto simp: mult.assoc)
  qed
qed simp

lemma element_count_zero: "0 \<in> set ds \<Longrightarrow> element_count ds e = None"
  by (induction ds arbitrary: e) auto

lemma traits_range: "map_of traits t = Some (be, bb) \<Longrightarrow> 1 \<le> be \<and> be \<le> 256 \<and> 1 \<le> bb"
  by (auto simp: traits_def split: if_splits)

text \<open>
  The storage size of a tensor is its number of blocks, rounded up, times the bytes of a block:
  for dimensions whose product does not come within 255 of 2^64, \<open>tensorStorageBytes\<close> refuses a zero
  dimension, an unknown type and a size of 2^63 bytes or more, each with its own error, and else
  returns exactly that size.
\<close>

theorem tensor_storage_exact:
  assumes dims: "\<forall>d\<in>set dimensions. 0 \<le> d" and fits: "prod_list dimensions + 255 < 18446744073709551616"
  shows "tensorStorageBytes dimensions ggmlType =
    (if 0 \<in> set dimensions then Inl InvalidDimensions
     else (case map_of traits ggmlType of
             None \<Rightarrow> Inl UnsupportedTensorType
           | Some (blockElements, blockBytes) \<Rightarrow>
               let bytes = (prod_list dimensions + blockElements - 1) div blockElements * blockBytes
               in if 9223372036854775808 \<le> bytes then Inl TensorTooLarge else Inr bytes))"
proof (cases "0 \<in> set dimensions")
  case True
  then show ?thesis by (simp add: tensorStorageBytes_def element_count_zero)
next
  case False
  with dims have pos: "\<forall>d\<in>set dimensions. 0 < d" by (metis order_le_less)
  let ?n = "prod_list dimensions"
  have n: "1 \<le> ?n" using pos by (induction dimensions) (auto simp: int_one_le_iff_zero_less zero_less_mult_iff)
  have "element_count dimensions 1 = Some ?n" using element_count_prod [OF _ pos, of 1] fits by (simp add: u64_max_def)
  moreover have "(let blocks = (?n + be - 1) mod 18446744073709551616 div be
      in if 9223372036854775807 div bb < blocks then Inl TensorTooLarge else Inr (i64 (blocks * bb))) =
    (let bytes = (?n + be - 1) div be * bb in if 9223372036854775808 \<le> bytes then Inl TensorTooLarge else Inr bytes)"
    if "map_of traits ggmlType = Some (be, bb)" for be bb
  proof -
    let ?b = "(?n + be - 1) div be"
    from traits_range [OF that] have t: "1 \<le> be" "be \<le> 256" "1 \<le> bb" by auto
    have "(?n + be - 1) mod 18446744073709551616 = ?n + be - 1" using n t fits by (intro mod_pos_pos_trivial) auto
    moreover have "9223372036854775807 div bb < ?b \<longleftrightarrow> 9223372036854775808 \<le> ?b * bb"
      using t by (auto simp: int_div_less_iff)
    moreover have "0 \<le> ?b * bb" using n t by (simp add: pos_imp_zdiv_nonneg_iff)
    then have "i64 (?b * bb) = ?b * bb" if "?b * bb < 9223372036854775808" using that by (simp add: i64_id_nonneg)
    ultimately show ?thesis by (auto simp: Let_def)
  qed
  ultimately show ?thesis using False by (auto simp: tensorStorageBytes_def split: option.splits)
qed

theorem tensor_storage_exact_witness:
  "tensorStorageBytes [33, 3] 2 = Inr 72 \<and> tensorStorageBytes [0, 3] 2 = Inl InvalidDimensions"
  using tensor_storage_exact [of "[33, 3]" 2] tensor_storage_exact [of "[0, 3]" 2]
  by (simp add: traits_def)

text \<open>Rounding up wraps near 2^64: a one-dimensional quantised tensor of 2^64 - 1 elements takes no bytes.\<close>

lemma tensor_storage_wraps: "tensorStorageBytes [18446744073709551615] 2 = Inr 0"
  by (simp add: tensorStorageBytes_def u64_max_def traits_def i64_def)

section \<open>Layer names\<close>

text \<open>
  A tensor named \<open>blk.<n>.\<dots>\<close> for a layer of the model is accounted to layer \<open>n\<close>.
\<close>

theorem tensor_layer_of_name:
  assumes "int n < layers" and "layers \<le> max_int64_slice"
  shows "tensorLayer (''blk.'' @ decimal n @ ''.'' @ rest) layers = Some (int n)"
proof -
  have "CHR ''.'' \<notin> set (decimal n)"
    using decimal_digits [of n] by (auto simp: list_all_iff is_digit_def)
  then have "takeWhile (\<lambda>c. c \<noteq> CHR ''.'') (decimal n @ CHR ''.'' # rest) = decimal n"
    by (subst takeWhile_append2) auto
  then show ?thesis
    using assms Atoi_decimal [of n] by (simp add: tensorLayer_def marker_layer_def max_int64_slice_def)
qed

theorem tensor_layer_of_name_witness: "tensorLayer ''blk.12.attn_q.weight'' 32 = Some 12"
proof -
  have "decimal 12 = ''12''" by code_simp
  with tensor_layer_of_name [of 12 32 "''attn_q.weight''"] show ?thesis by (simp add: max_int64_slice_def)
qed

end
