(* ===== verification/Protocol.thy ===== *)
theory Protocol
  imports Sha256
begin

text \<open>
  The messages of the tunnel and their authentication (\<open>src/internal/tunnel/protocol.go\<close>): one JSON
  object per line, roles, and the signed challenge by which the owner of a pair token proves it.
  The JSON encoding of a message type is a record \<open>message_codec\<close>, Ed25519 a record \<open>ed25519\<close>;
  \<open>message_json\<close> and \<open>ed25519_ok\<close> are what the code relies on of them.
\<close>

section \<open>Messages\<close>

definition maxHandshakeSize :: nat where
  "maxHandshakeSize = 16384"

record handshake =
  hs_Type :: string
  hs_Role :: string
  hs_PairID :: string
  hs_StreamID :: string
  hs_Target :: string

record authChallenge =
  ac_Type :: string
  ac_Nonce :: string

record authResponse =
  ar_Type :: string
  ar_Signature :: string

record controlMessage =
  cm_Type :: string
  cm_StreamID :: string
  cm_Target :: string
  cm_Error :: string

definition control_message :: "string \<Rightarrow> controlMessage" where
  "control_message t = \<lparr>cm_Type = t, cm_StreamID = '''', cm_Target = '''', cm_Error = ''''\<rparr>"

record 'a message_codec =
  marshal_message :: "'a \<Rightarrow> byte list option"
  unmarshal_message :: "byte list \<Rightarrow> 'a option"

text \<open>
  \<open>json.Marshal\<close> gives one line, and \<open>json.Unmarshal\<close> recovers the value from it and the newline
  after it.
\<close>

definition message_json :: "'a message_codec \<Rightarrow> 'a \<Rightarrow> bool" where
  "message_json codec v \<longleftrightarrow>
     (\<exists>bs. marshal_message codec v = Some bs \<and> 10 \<notin> set bs \<and> unmarshal_message codec (bs @ [10]) = Some v)"

datatype line_error = LineIO io_error | LineTooLarge | LineMalformed | LineUnencodable

definition writeJSONLine :: "'a message_codec \<Rightarrow> writer \<Rightarrow> 'a \<Rightarrow> line_error option \<times> writer" where
  "writeJSONLine codec w v =
     (case marshal_message codec v of
        None \<Rightarrow> (Some LineUnencodable, w)
      | Some bs \<Rightarrow>
          if maxHandshakeSize < length bs then (Some LineTooLarge, w)
          else (case write_call w (bs @ [10]) of
                  ((n, ok), w') \<Rightarrow> (if ok then None else Some (LineIO IOFailed), w')))"

definition readJSONLine :: "'a message_codec \<Rightarrow> byte list \<Rightarrow> (line_error + 'a) \<times> byte list" where
  "readJSONLine codec s =
     (if 10 \<notin> set s then (Inl (LineIO EOF), [])
      else
        let line = takeWhile (\<lambda>b. b \<noteq> 10) s @ [10];
            rest = drop (length line) s
        in if maxHandshakeSize < length line then (Inl LineTooLarge, rest)
           else (case unmarshal_message codec line of
                   None \<Rightarrow> (Inl LineMalformed, rest)
                 | Some v \<Rightarrow> (Inr v, rest)))"

definition peerRole :: "string \<Rightarrow> string" where
  "peerRole role =
     (if role = ''requester'' then ''provider''
      else if role = ''provider'' then ''requester''
      else '''')"

section \<open>The signed challenge\<close>

text \<open>\<open>crypto/ed25519\<close>: keys are byte strings.\<close>

record ed25519 =
  NewKeyFromSeed :: "byte list \<Rightarrow> byte list"
  Public :: "byte list \<Rightarrow> byte list"
  ed_Sign :: "byte list \<Rightarrow> byte list \<Rightarrow> byte list"
  ed_Verify :: "byte list \<Rightarrow> byte list \<Rightarrow> byte list \<Rightarrow> bool"

definition PublicKeySize :: nat where
  "PublicKeySize = 32"

text \<open>A public key has 32 bytes, and it verifies what its private key signs.\<close>

definition ed25519_ok :: "ed25519 \<Rightarrow> bool" where
  "ed25519_ok ed \<longleftrightarrow>
     (\<forall>seed. length (Public ed (NewKeyFromSeed ed seed)) = PublicKeySize) \<and>
     (\<forall>seed msg. ed_Verify ed (Public ed (NewKeyFromSeed ed seed)) msg (ed_Sign ed (NewKeyFromSeed ed seed) msg))"

definition pairPrivateKey :: "ed25519 \<Rightarrow> string \<Rightarrow> byte list" where
  "pairPrivateKey ed token = NewKeyFromSeed ed (sha256 (string_bytes (''aipool-relay-auth-v2|'' @ token)))"

definition PairIDFromToken :: "ed25519 \<Rightarrow> string \<Rightarrow> string" where
  "PairIDFromToken ed token = hex_encode (Public ed (pairPrivateKey ed token))"

definition ValidPairToken :: "string \<Rightarrow> bool" where
  "ValidPairToken token = (case b64_decode token of None \<Rightarrow> False | Some decoded \<Rightarrow> 32 \<le> length decoded)"

definition authPayload :: "handshake \<Rightarrow> string \<Rightarrow> byte list" where
  "authPayload hello nonce =
     string_bytes (''aipool-relay-auth-v2|'' @ hs_Type hello @ ''|'' @ hs_Role hello @ ''|'' @ hs_PairID hello
       @ ''|'' @ hs_StreamID hello @ ''|'' @ hs_Target hello @ ''|'' @ nonce)"

definition signChallenge :: "ed25519 \<Rightarrow> string \<Rightarrow> handshake \<Rightarrow> string \<Rightarrow> string" where
  "signChallenge ed token hello nonce =
     b64_encode (ed_Sign ed (pairPrivateKey ed token) (authPayload hello nonce))"

definition verifyChallenge :: "ed25519 \<Rightarrow> handshake \<Rightarrow> string \<Rightarrow> string \<Rightarrow> bool" where
  "verifyChallenge ed hello nonce encodedSignature =
     (case (hex_decode (hs_PairID hello), b64_decode encodedSignature) of
        (Some publicKey, Some signature) \<Rightarrow>
          length publicKey = PublicKeySize \<and> ed_Verify ed publicKey (authPayload hello nonce) signature
      | _ \<Rightarrow> False)"

definition known_target :: "string \<Rightarrow> bool" where
  "known_target t \<longleftrightarrow> t = ''provider-host'' \<or> t = ''provider-rpc'' \<or> t = ''requester-control''"

section \<open>Lines\<close>

lemma takeWhile_line: "10 \<notin> set bs \<Longrightarrow> takeWhile (\<lambda>b. b \<noteq> 10) (bs @ 10 # rest) = (bs :: byte list)"
  by (subst takeWhile_append2) auto

lemma readJSONLine_line:
  assumes "10 \<notin> set bs"
  shows "readJSONLine codec (bs @ 10 # rest) =
     (if maxHandshakeSize \<le> length bs then (Inl LineTooLarge, rest)
      else (case unmarshal_message codec (bs @ [10]) of
              None \<Rightarrow> (Inl LineMalformed, rest) | Some v \<Rightarrow> (Inr v, rest)))"
  using takeWhile_line [OF assms, of rest] by (auto simp: readJSONLine_def Let_def split: option.splits)

text \<open>A codec for control messages that only knows one message, for evaluating the operations.\<close>

definition one_message_codec :: "byte list \<Rightarrow> 'a \<Rightarrow> 'a message_codec" where
  "one_message_codec bs v =
     \<lparr>marshal_message = (\<lambda>_. Some bs), unmarshal_message = (\<lambda>bs'. if bs' = bs @ [10] then Some v else None)\<rparr>"

lemma one_message_codec_ok: "10 \<notin> set bs \<Longrightarrow> message_json (one_message_codec bs v) v"
  by (simp add: message_json_def one_message_codec_def)

text \<open>
  A message whose encoding is shorter than 16384 bytes is sent and read back exactly, with the
  rest of the stream left; a longer one is not sent at all; one of exactly 16384 bytes is sent but
  refused by the reader, whose limit counts the newline.
\<close>

theorem line_round_trip:
  assumes "message_json codec v" and "marshal_message codec v = Some bs"
  shows "(length bs < maxHandshakeSize \<longrightarrow>
           writeJSONLine codec \<lparr>accepted = sent, script = []\<rparr> v =
             (None, \<lparr>accepted = sent @ bs @ [10], script = []\<rparr>) \<and>
           readJSONLine codec ((bs @ [10]) @ rest) = (Inr v, rest)) \<and>
         (length bs = maxHandshakeSize \<longrightarrow>
           fst (writeJSONLine codec \<lparr>accepted = sent, script = []\<rparr> v) = None \<and>
           readJSONLine codec ((bs @ [10]) @ rest) = (Inl LineTooLarge, rest)) \<and>
         (maxHandshakeSize < length bs \<longrightarrow> writeJSONLine codec w v = (Some LineTooLarge, w))"
  using assms
  by (auto simp: message_json_def writeJSONLine_def readJSONLine_line write_call_def)

theorem line_round_trip_witness:
  "readJSONLine (one_message_codec [123, 125] (control_message ''ready'')) [123, 125, 10, 7]
     = (Inr (control_message ''ready''), [7])"
  using line_round_trip [of "one_message_codec [123, 125] (control_message ''ready'')"
      "control_message ''ready''" "[123, 125]" "[]" "[7]"]
  by (simp add: one_message_codec_ok) (simp add: one_message_codec_def maxHandshakeSize_def)

section \<open>What a signature binds\<close>

lemma sep_left:
  assumes "sep \<notin> set a" and "sep \<notin> set a'"
  shows "a @ sep # x = a' @ sep # y \<longleftrightarrow> a = a' \<and> x = y"
proof
  assume "a @ sep # x = a' @ sep # y"
  then have "takeWhile (\<lambda>c. c \<noteq> sep) (a @ sep # x) = takeWhile (\<lambda>c. c \<noteq> sep) (a' @ sep # y)" by simp
  moreover have "takeWhile (\<lambda>c. c \<noteq> sep) (b @ sep # z) = b" if "sep \<notin> set b" for b z
    using that by (subst takeWhile_append2) auto
  ultimately have "a = a'" using assms by simp
  with \<open>a @ sep # x = a' @ sep # y\<close> show "a = a' \<and> x = y" by simp
qed simp

lemma sep_right:
  assumes "sep \<notin> set x" and "sep \<notin> set y"
  shows "a @ sep # x = a' @ sep # y \<longleftrightarrow> a = a' \<and> x = y"
  using sep_left [of sep "rev x" "rev y" "rev a" "rev a'"] assms by (metis rev.simps(2) rev_append
      rev_rev_ident set_rev append.assoc append_Cons append_Nil)

lemma hex_decode_chars: "hex_decode s = Some bs \<Longrightarrow> \<forall>c\<in>set s. hex_value c \<noteq> None"
  by (induction s arbitrary: bs rule: hex_decode.induct) (auto split: option.splits)

lemma hex_no_bar: "hex_decode s = Some bs \<Longrightarrow> CHR ''|'' \<notin> set s"
  using hex_decode_chars [of s bs] by (force simp: hex_value_def)

lemma b64_encode_no_bar: "CHR ''|'' \<notin> set (b64_encode bs)"
proof
  assume "CHR ''|'' \<in> set (b64_encode bs)"
  then obtain n where n: "n < 64" and c: "CHR ''|'' = b64_char n" using b64_encode_range [of bs] by auto
  then have "b64_value CHR ''|'' = Some n" using b64_value_char by metis
  then show False by (simp add: b64_value_def)
qed

text \<open>
  The handshakes the relay acts on: a known role, a hexadecimal pair, and either a control session or
  a stream with an identifier and a known target.
\<close>

definition acted_on :: "handshake \<Rightarrow> bool" where
  "acted_on hello \<longleftrightarrow> peerRole (hs_Role hello) \<noteq> '''' \<and> hex_decode (hs_PairID hello) \<noteq> None \<and>
     (hs_Type hello = ''control'' \<or>
      hs_Type hello = ''stream'' \<and> hs_StreamID hello \<noteq> '''' \<and> known_target (hs_Target hello))"

lemma acted_on_no_bar:
  assumes "acted_on hello"
  shows "CHR ''|'' \<notin> set (hs_Type hello)" and "CHR ''|'' \<notin> set (hs_Role hello)"
    and "CHR ''|'' \<notin> set (hs_PairID hello)" and "hs_Type hello = ''stream'' \<Longrightarrow> CHR ''|'' \<notin> set (hs_Target hello)"
  using assms hex_no_bar [of "hs_PairID hello"]
  by (auto simp: acted_on_def peerRole_def known_target_def split: if_splits)

definition hello_stream :: handshake where
  "hello_stream = \<lparr>hs_Type = ''stream'', hs_Role = ''requester'', hs_PairID = ''00ff'',
     hs_StreamID = ''s|1'', hs_Target = ''provider-host''\<rparr>"

text \<open>
  C23. A signed challenge authenticates one handshake only: when two handshakes the relay acts on have
  the same signed payload under challenges it draws, they agree in type, role, pair and challenge, and
  for streams also in stream and target, even if the stream identifier contains separators.
\<close>

theorem challenge_binds_handshake:
  assumes "acted_on hello" and "acted_on hello'"
    and "authPayload hello (b64_encode nonce) = authPayload hello' (b64_encode nonce')"
  shows "hs_Type hello = hs_Type hello' \<and> hs_Role hello = hs_Role hello' \<and> hs_PairID hello = hs_PairID hello' \<and>
     nonce = nonce' \<and> (hs_Type hello = ''stream'' \<longrightarrow> hello = hello')"
proof -
  note bars = acted_on_no_bar [OF assms(1)] acted_on_no_bar [OF assms(2)]
  have head: "hs_Type hello = hs_Type hello'" "hs_Role hello = hs_Role hello'" "hs_PairID hello = hs_PairID hello'"
    and tail: "hs_StreamID hello @ ''|'' @ hs_Target hello @ ''|'' @ b64_encode nonce
      = hs_StreamID hello' @ ''|'' @ hs_Target hello' @ ''|'' @ b64_encode nonce'"
    using assms(3) bars by (simp_all add: authPayload_def string_bytes_inj sep_left)
  have split: "(hs_StreamID hello @ ''|'' @ hs_Target hello) @ CHR ''|'' # b64_encode nonce
      = (hs_StreamID hello' @ ''|'' @ hs_Target hello') @ CHR ''|'' # b64_encode nonce'"
    using tail by simp
  have nonce: "nonce = nonce'"
    and rest: "hs_StreamID hello @ CHR ''|'' # hs_Target hello = hs_StreamID hello' @ CHR ''|'' # hs_Target hello'"
    using iffD1 [OF sep_right split] by (simp_all add: b64_encode_no_bar base64url.enc_inj)
  have "hello = hello'" if "hs_Type hello = ''stream''"
    using that head rest bars by (simp add: sep_right)
  with head nonce show ?thesis by blast
qed

theorem challenge_binds_handshake_witness:
  "hello_stream = hello_stream \<and> acted_on hello_stream"
proof -
  have ok: "acted_on hello_stream"
    by (simp add: acted_on_def hello_stream_def peerRole_def known_target_def hex_value_def)
  from challenge_binds_handshake [OF ok ok, of "[1]" "[1]"] ok show ?thesis by blast
qed

text \<open>The owner of a pair token answers every challenge for its pair.\<close>

lemma verify_signChallenge:
  assumes "ed25519_ok ed" and "hs_PairID hello = PairIDFromToken ed token"
  shows "verifyChallenge ed hello nonce (signChallenge ed token hello nonce)"
  using assms
  by (simp add: verifyChallenge_def signChallenge_def PairIDFromToken_def hexadecimal.dec_enc base64url.dec_enc
      ed25519_ok_def pairPrivateKey_def)

end
