(* ===== verification/Relay.thy ===== *)
theory Relay
  imports Protocol
begin

text \<open>
  The relay (\<open>src/internal/tunnel/relay.go\<close>). Every goroutine of the relay is a \<open>task\<close>; one task step
  is one section of its function: a critical section under the mutex \<open>r.mu\<close>, or code between two of
  them. \<open>input\<close> holds what the section gets from outside (messages read, writes that succeed, random
  bytes, bytes copied). A connection is an index into the list of accepted connections.
\<close>

section \<open>Data\<close>

record RelayConfig =
  rc_MaxConnections :: int
  rc_MaxConnectionsPerIP :: int
  rc_MaxConnectionsPerPair :: int
  rc_MaxPendingPerPair :: int
  rc_HandshakeTimeout :: int
  rc_StreamTimeout :: int

text \<open>\<open>ps_ref\<close> is the identity of the Go pointer.\<close>

record pendingStream =
  ps_ref :: nat
  ps_requester :: "nat option"
  ps_provider :: "nat option"
  ps_created :: int
  ps_target :: string

record Relay =
  rl_controls :: "(string, (string, nat) gomap) gomap"
  rl_streams :: "(string, pendingStream) gomap"
  rl_connectionsByIP :: "(string, int) gomap"
  rl_connectionsByPair :: "(string, int) gomap"
  rl_activeConnections :: int
  rl_maxPendingPerPair :: int
  rl_config :: RelayConfig
  rl_bytesRelayed :: "64 word"

text \<open>
  An accepted connection: its address, the handshake it was admitted with (from then on it is wrapped
  a second time, for its pair), and whether the \<open>closeOnce\<close> of either wrapper has fired.
\<close>

record countedConn =
  cn_ip :: string
  cn_hello :: "handshake option"
  cn_ipReleased :: bool
  cn_pairReleased :: bool

definition positive_or :: "int \<Rightarrow> int \<Rightarrow> int" where
  "positive_or v d = (if v \<le> 0 then d else v)"

definition NewRelayWithConfig :: "RelayConfig \<Rightarrow> Relay" where
  "NewRelayWithConfig config0 =
     (let config = \<lparr>rc_MaxConnections = positive_or (rc_MaxConnections config0) 4096,
        rc_MaxConnectionsPerIP = positive_or (rc_MaxConnectionsPerIP config0) 256,
        rc_MaxConnectionsPerPair = positive_or (rc_MaxConnectionsPerPair config0) 512,
        rc_MaxPendingPerPair = positive_or (rc_MaxPendingPerPair config0) 128,
        rc_HandshakeTimeout = positive_or (rc_HandshakeTimeout config0) 15000000000,
        rc_StreamTimeout = positive_or (rc_StreamTimeout config0) 30000000000\<rparr>
      in \<lparr>rl_controls = [], rl_streams = [], rl_connectionsByIP = [], rl_connectionsByPair = [],
          rl_activeConnections = 0, rl_maxPendingPerPair = rc_MaxPendingPerPair config,
          rl_config = config, rl_bytesRelayed = 0\<rparr>)"

definition NewRelay :: Relay where
  "NewRelay = NewRelayWithConfig \<lparr>rc_MaxConnections = 0, rc_MaxConnectionsPerIP = 0, rc_MaxConnectionsPerPair = 0,
     rc_MaxPendingPerPair = 0, rc_HandshakeTimeout = 0, rc_StreamTimeout = 0\<rparr>"

section \<open>Connection counters\<close>

text \<open>Reading a missing entry of a Go map of integers gives zero.\<close>

definition tally :: "(string, int) gomap \<Rightarrow> string \<Rightarrow> int" where
  "tally m k = (case map_of m k of None \<Rightarrow> 0 | Some v \<Rightarrow> v)"

definition tally_inc :: "string \<Rightarrow> (string, int) gomap \<Rightarrow> (string, int) gomap" where
  "tally_inc k m = AList.update k (tally m k + 1) m"

definition tally_dec :: "string \<Rightarrow> (string, int) gomap \<Rightarrow> (string, int) gomap" where
  "tally_dec k m =
     (let m' = AList.update k (tally m k - 1) m in if tally m' k = 0 then AList.delete k m' else m')"

definition acquireConnection :: "Relay \<Rightarrow> string \<Rightarrow> bool \<times> Relay" where
  "acquireConnection r ip =
     (if rc_MaxConnections (rl_config r) \<le> rl_activeConnections r \<or>
         rc_MaxConnectionsPerIP (rl_config r) \<le> tally (rl_connectionsByIP r) ip
      then (False, r)
      else (True, r\<lparr>rl_activeConnections := rl_activeConnections r + 1,
                    rl_connectionsByIP := tally_inc ip (rl_connectionsByIP r)\<rparr>))"

definition releaseConnection :: "string \<Rightarrow> Relay \<Rightarrow> Relay" where
  "releaseConnection ip r =
     r\<lparr>rl_activeConnections := rl_activeConnections r - 1,
       rl_connectionsByIP := tally_dec ip (rl_connectionsByIP r)\<rparr>"

definition acquirePair :: "Relay \<Rightarrow> string \<Rightarrow> bool \<times> Relay" where
  "acquirePair r pairID =
     (if rc_MaxConnectionsPerPair (rl_config r) \<le> tally (rl_connectionsByPair r) pairID then (False, r)
      else (True, r\<lparr>rl_connectionsByPair := tally_inc pairID (rl_connectionsByPair r)\<rparr>))"

definition releasePair :: "string \<Rightarrow> Relay \<Rightarrow> Relay" where
  "releasePair pairID r = r\<lparr>rl_connectionsByPair := tally_dec pairID (rl_connectionsByPair r)\<rparr>"

section \<open>The system\<close>

datatype task =
    Greeting nat
  | Admitting nat handshake
  | Enrolling nat handshake
  | Replacing nat handshake "nat option"
  | Replaced nat handshake nat
  | Readying nat handshake
  | Controlling nat handshake
  | Leaving nat handshake
  | Joining nat handshake
  | Notifying nat handshake "nat option"
  | Removing string nat
  | Pairing nat nat
  | Relaying nat nat
  | Draining nat nat
  | Expiring string nat
  | Closing "nat list"
  | Releasing "nat list"
  | Blocked

text \<open>\<open>sy_mu\<close>: the mutex is held by a goroutine that is blocked for ever.\<close>

record system =
  sy_relay :: Relay
  sy_mu :: bool
  sy_conns :: "countedConn list"
  sy_tasks :: "task list"
  sy_refs :: nat

record input =
  in_hello :: "handshake option"
  in_random :: "byte list option"
  in_response :: "authResponse option"
  in_message :: "controlMessage option"
  in_sent :: bool
  in_sent2 :: bool
  in_copied :: "64 word"
  in_now :: int

definition initial_system :: "RelayConfig \<Rightarrow> system" where
  "initial_system config =
     \<lparr>sy_relay = NewRelayWithConfig config, sy_mu = False, sy_conns = [], sy_tasks = [], sy_refs = 0\<rparr>"

definition spawn :: "task list \<Rightarrow> system \<Rightarrow> system" where
  "spawn ts w = w\<lparr>sy_tasks := sy_tasks w @ ts\<rparr>"

definition on_relay :: "(Relay \<Rightarrow> Relay) \<Rightarrow> system \<Rightarrow> system" where
  "on_relay f w = w\<lparr>sy_relay := f (sy_relay w)\<rparr>"

text \<open>One pass of the accept loop of \<open>Serve\<close>, for a connection from \<open>ip\<close>.\<close>

definition Serve :: "string \<Rightarrow> system \<Rightarrow> system" where
  "Serve ip w =
     (case acquireConnection (sy_relay w) ip of
        (False, r) \<Rightarrow> w\<lparr>sy_relay := r\<rparr>
      | (True, r) \<Rightarrow>
          spawn [Greeting (length (sy_conns w))]
            (w\<lparr>sy_relay := r,
               sy_conns := sy_conns w @ [\<lparr>cn_ip = ip, cn_hello = None, cn_ipReleased = False, cn_pairReleased = False\<rparr>]\<rparr>))"

text \<open>
  \<open>Close\<close> of a connection, by whoever holds no lock, has two sections: the inner wrapper releases the address
  once, and then the outer one, if there is one, the pair once. Each takes the mutex for itself, and only
  when its \<open>closeOnce\<close> has not fired.
\<close>

definition close_ip :: "nat \<Rightarrow> system \<Rightarrow> system" where
  "close_ip c w =
     (let k = sy_conns w ! c in
      if cn_ipReleased k then w
      else w\<lparr>sy_conns := (sy_conns w)[c := k\<lparr>cn_ipReleased := True\<rparr>], sy_relay := releaseConnection (cn_ip k) (sy_relay w)\<rparr>)"

definition close_pair :: "nat \<Rightarrow> system \<Rightarrow> system" where
  "close_pair c w =
     (let k = sy_conns w ! c in
      case cn_hello k of
        None \<Rightarrow> w
      | Some hello \<Rightarrow>
          if cn_pairReleased k then w
          else w\<lparr>sy_conns := (sy_conns w)[c := k\<lparr>cn_pairReleased := True\<rparr>],
                 sy_relay := releasePair (hs_PairID hello) (sy_relay w)\<rparr>)"

text \<open>
  The task \<open>Closing cs\<close> closes the connections \<open>cs\<close> one after the other; \<open>Releasing cs\<close> is within the \<open>Close\<close>
  of the first of them, between its two sections.
\<close>

definition countedConn_Close :: "nat list \<Rightarrow> system \<Rightarrow> system" where
  "countedConn_Close cs w = (case cs of [] \<Rightarrow> w | c # rest \<Rightarrow> spawn [Releasing (c # rest)] (close_ip c w))"

definition countedConn_Close_outer :: "nat list \<Rightarrow> system \<Rightarrow> system" where
  "countedConn_Close_outer cs w = (case cs of [] \<Rightarrow> w | c # rest \<Rightarrow> spawn [Closing rest] (close_pair c w))"

section \<open>Handshake\<close>

definition relay_authenticate :: "ed25519 \<Rightarrow> handshake \<Rightarrow> byte list option \<Rightarrow> bool \<Rightarrow> authResponse option \<Rightarrow> bool" where
  "relay_authenticate ed hello random sent response =
     (case random of
        None \<Rightarrow> False
      | Some nonceBytes \<Rightarrow>
          sent \<and>
          (case response of
             None \<Rightarrow> False
           | Some resp \<Rightarrow> ar_Type resp = ''auth_response'' \<and>
               verifyChallenge ed hello (b64_encode nonceBytes) (ar_Signature resp)))"

definition relay_handle_hello :: "ed25519 \<Rightarrow> nat \<Rightarrow> input \<Rightarrow> system \<Rightarrow> system" where
  "relay_handle_hello ed c inp w =
     (case in_hello inp of
        None \<Rightarrow> spawn [Closing [c]] w
      | Some hello \<Rightarrow>
          if hs_PairID hello = '''' \<or> peerRole (hs_Role hello) = '''' \<or>
             \<not> relay_authenticate ed hello (in_random inp) (in_sent inp) (in_response inp)
          then spawn [Closing [c]] w
          else spawn [Admitting c hello] w)"

definition relay_handle_admit :: "nat \<Rightarrow> handshake \<Rightarrow> system \<Rightarrow> system" where
  "relay_handle_admit c hello w =
     (case acquirePair (sy_relay w) (hs_PairID hello) of
        (False, r) \<Rightarrow> spawn [Closing [c]] (w\<lparr>sy_relay := r\<rparr>)
      | (True, r) \<Rightarrow>
          spawn [if hs_Type hello = ''control'' then Enrolling c hello
                 else if hs_Type hello = ''stream'' then Joining c hello
                 else Closing [c]]
            (w\<lparr>sy_relay := r, sy_conns := (sy_conns w)[c := (sy_conns w ! c)\<lparr>cn_hello := Some hello\<rparr>]\<rparr>))"

section \<open>Control sessions\<close>

definition roles_of :: "Relay \<Rightarrow> string \<Rightarrow> (string, nat) gomap" where
  "roles_of r pairID = (case map_of (rl_controls r) pairID of None \<Rightarrow> [] | Some roles \<Rightarrow> roles)"

definition handleControl_enroll :: "nat \<Rightarrow> handshake \<Rightarrow> system \<Rightarrow> system" where
  "handleControl_enroll c hello w =
     (let roles = roles_of (sy_relay w) (hs_PairID hello)
      in spawn [Replacing c hello (map_of roles (hs_Role hello))]
           (on_relay (\<lambda>r. r\<lparr>rl_controls :=
              AList.update (hs_PairID hello) (AList.update (hs_Role hello) c roles) (rl_controls r)\<rparr>) w))"

definition handleControl_replace :: "nat \<Rightarrow> handshake \<Rightarrow> nat option \<Rightarrow> system \<Rightarrow> system" where
  "handleControl_replace c hello old w =
     (case old of
        None \<Rightarrow> spawn [Readying c hello] w
      | Some d \<Rightarrow> spawn [Replaced c hello d] (close_ip d w))"

definition handleControl_replaced :: "nat \<Rightarrow> handshake \<Rightarrow> nat \<Rightarrow> system \<Rightarrow> system" where
  "handleControl_replaced c hello d w = spawn [Readying c hello] (close_pair d w)"

definition handleControl_ready :: "nat \<Rightarrow> handshake \<Rightarrow> input \<Rightarrow> system \<Rightarrow> system" where
  "handleControl_ready c hello inp w =
     (if in_sent inp then spawn [Controlling c hello] w else spawn [Closing [c]] w)"

definition handleControl_read :: "nat \<Rightarrow> handshake \<Rightarrow> input \<Rightarrow> system \<Rightarrow> system" where
  "handleControl_read c hello inp w =
     (case in_message inp of None \<Rightarrow> spawn [Leaving c hello] w | Some _ \<Rightarrow> spawn [Controlling c hello] w)"

definition handleControl_leave :: "nat \<Rightarrow> handshake \<Rightarrow> system \<Rightarrow> system" where
  "handleControl_leave c hello w =
     spawn [Closing [c]]
       (on_relay (\<lambda>r. let roles = roles_of r (hs_PairID hello) in
          if map_of roles (hs_Role hello) \<noteq> Some c then r
          else let roles' = AList.delete (hs_Role hello) roles in
            if roles' = [] then r\<lparr>rl_controls := AList.delete (hs_PairID hello) (rl_controls r)\<rparr>
            else r\<lparr>rl_controls := AList.update (hs_PairID hello) roles' (rl_controls r)\<rparr>) w)"

section \<open>Streams\<close>

definition stream_key :: "handshake \<Rightarrow> string" where
  "stream_key hello = hs_PairID hello @ ''|'' @ hs_StreamID hello"

definition pendingForPair :: "Relay \<Rightarrow> string \<Rightarrow> int" where
  "pendingForPair r pairID = int (gomap_count (\<lambda>(key, _). take (length pairID + 1) key = pairID @ ''|'') (rl_streams r))"

text \<open>The pending stream the connection joins: the one under its key, or a new one.\<close>

definition pending_at :: "system \<Rightarrow> handshake \<Rightarrow> int \<Rightarrow> pendingStream" where
  "pending_at w hello now =
     (case map_of (rl_streams (sy_relay w)) (stream_key hello) of
        Some pending \<Rightarrow> pending
      | None \<Rightarrow> \<lparr>ps_ref = sy_refs w, ps_requester = None, ps_provider = None, ps_created = now, ps_target = hs_Target hello\<rparr>)"

definition slot_of :: "handshake \<Rightarrow> pendingStream \<Rightarrow> nat option" where
  "slot_of hello pending = (if hs_Role hello = ''requester'' then ps_requester pending else ps_provider pending)"

definition take_slot :: "nat \<Rightarrow> handshake \<Rightarrow> pendingStream \<Rightarrow> pendingStream" where
  "take_slot c hello pending =
     (if hs_Role hello = ''requester'' then pending\<lparr>ps_requester := Some c\<rparr> else pending\<lparr>ps_provider := Some c\<rparr>)"

definition handleStream :: "nat \<Rightarrow> handshake \<Rightarrow> input \<Rightarrow> system \<Rightarrow> system" where
  "handleStream c hello inp w =
     (if hs_StreamID hello = '''' \<or> \<not> known_target (hs_Target hello) then spawn [Closing [c]] w
      else
        let r = sy_relay w; key = stream_key hello
        in if rl_maxPendingPerPair r \<le> pendingForPair r (hs_PairID hello) then spawn [Closing [c]] w
           else
             let known = map_of (rl_streams r) key; pending = pending_at w hello (in_now inp)
             in if known \<noteq> None \<and> ps_target pending \<noteq> hs_Target hello then spawn [Closing [c]] w
                else if slot_of hello pending \<noteq> None then spawn [Closing [c]] w
                else
                  let pending' = take_slot c hello pending;
                      w1 = (if known = None then spawn [Expiring key (ps_ref pending)] (w\<lparr>sy_refs := sy_refs w + 1\<rparr>) else w);
                      peer = map_of (roles_of r (hs_PairID hello)) (peerRole (hs_Role hello))
                  in (case (ps_requester pending', ps_provider pending') of
                        (Some left, Some right) \<Rightarrow>
                          spawn [Pairing left right]
                            (on_relay (\<lambda>r. r\<lparr>rl_streams := AList.delete key (rl_streams r)\<rparr>) w1)
                      | _ \<Rightarrow>
                          spawn [Notifying c hello peer]
                            (on_relay (\<lambda>r. r\<lparr>rl_streams := AList.update key pending' (rl_streams r)\<rparr>) w1)))"

text \<open>A stream that waits for its other end: the peer is told through its control session.\<close>

definition handleStream_notify :: "nat \<Rightarrow> handshake \<Rightarrow> nat option \<Rightarrow> input \<Rightarrow> system \<Rightarrow> system" where
  "handleStream_notify c hello peer inp w =
     (case peer of
        None \<Rightarrow> spawn [Removing (stream_key hello) c] w
      | Some d \<Rightarrow> if in_sent inp then w else spawn [Removing (stream_key hello) c] w)"

definition handleStream_pair :: "nat \<Rightarrow> nat \<Rightarrow> input \<Rightarrow> system \<Rightarrow> system" where
  "handleStream_pair left right inp w =
     (if in_sent inp \<and> in_sent2 inp then spawn [Relaying left right] w
      else spawn [Closing [left, right]] w)"

definition removeStream :: "string \<Rightarrow> nat \<Rightarrow> Relay \<Rightarrow> Relay" where
  "removeStream key c r =
     (case map_of (rl_streams r) key of
        None \<Rightarrow> r
      | Some pending \<Rightarrow>
          if ps_requester pending = Some c \<or> ps_provider pending = Some c
          then r\<lparr>rl_streams := AList.delete key (rl_streams r)\<rparr> else r)"

text \<open>
  A relayed pair has two copiers, and each adds the bytes it copied when it ends (\<open>add_copied\<close>; the \<open>Add\<close> of a
  64-bit atomic wraps). When the first ends \<open>relayPair\<close> returns and its deferred calls close the connections,
  the right one first; the second copier, the task \<open>Draining\<close>, ends and adds its bytes at any time after that.
\<close>

definition add_copied :: "input \<Rightarrow> Relay \<Rightarrow> Relay" where
  "add_copied inp r = r\<lparr>rl_bytesRelayed := rl_bytesRelayed r + in_copied inp\<rparr>"

definition relayPair :: "nat \<Rightarrow> nat \<Rightarrow> input \<Rightarrow> system \<Rightarrow> system" where
  "relayPair left right inp w = spawn [Draining left right, Closing [right, left]] (on_relay (add_copied inp) w)"

text \<open>
  \<open>Close\<close> of a connection by a goroutine that holds \<open>r.mu\<close>: a wrapper whose \<open>closeOnce\<close> has not fired
  calls \<open>releaseConnection\<close> or \<open>releasePair\<close>, which lock \<open>r.mu\<close> again, and a Go mutex is not
  reentrant. \<open>None\<close> is this deadlock.
\<close>

definition close_under_lock :: "nat option \<Rightarrow> system \<Rightarrow> system option" where
  "close_under_lock c w =
     (case c of
        None \<Rightarrow> Some w
      | Some d \<Rightarrow>
          let k = sy_conns w ! d in
          if \<not> cn_ipReleased k \<or> (cn_hello k \<noteq> None \<and> \<not> cn_pairReleased k) then None else Some w)"

definition expireStream :: "string \<Rightarrow> nat \<Rightarrow> system \<Rightarrow> system" where
  "expireStream key expected w =
     (case map_of (rl_streams (sy_relay w)) key of
        None \<Rightarrow> w
      | Some pending \<Rightarrow>
          if ps_ref pending \<noteq> expected then w
          else
            let w1 = on_relay (\<lambda>r. r\<lparr>rl_streams := AList.delete key (rl_streams r)\<rparr>) w
            in (case close_under_lock (ps_requester pending) w1 of
                  None \<Rightarrow> spawn [Blocked] (w1\<lparr>sy_mu := True\<rparr>)
                | Some w2 \<Rightarrow>
                    (case close_under_lock (ps_provider pending) w2 of
                       None \<Rightarrow> spawn [Blocked] (w2\<lparr>sy_mu := True\<rparr>)
                     | Some w3 \<Rightarrow> w3)))"

definition Stats :: "Relay \<Rightarrow> string" where
  "Stats r = ''pairs='' @ itoa (int (length (rl_controls r))) @ '' active_connections='' @ itoa (rl_activeConnections r)
     @ '' pending_streams='' @ itoa (int (length (rl_streams r))) @ '' relayed_bytes='' @ itoa (uint (rl_bytesRelayed r))"

section \<open>Steps\<close>

text \<open>
  Whether the next section of a task locks the mutex. A \<open>Close\<close> whose \<open>closeOnce\<close> has fired does not, and
  a stream handshake that is refused at once does not.
\<close>

definition ip_open :: "system \<Rightarrow> nat \<Rightarrow> bool" where
  "ip_open w c \<longleftrightarrow> \<not> cn_ipReleased (sy_conns w ! c)"

definition pair_open :: "system \<Rightarrow> nat \<Rightarrow> bool" where
  "pair_open w c \<longleftrightarrow> cn_hello (sy_conns w ! c) \<noteq> None \<and> \<not> cn_pairReleased (sy_conns w ! c)"

fun needs_lock :: "system \<Rightarrow> task \<Rightarrow> bool" where
  "needs_lock w (Admitting c hello) = True"
| "needs_lock w (Enrolling c hello) = True"
| "needs_lock w (Replacing c hello old) = (case old of None \<Rightarrow> False | Some d \<Rightarrow> ip_open w d)"
| "needs_lock w (Replaced c hello d) = pair_open w d"
| "needs_lock w (Leaving c hello) = True"
| "needs_lock w (Joining c hello) = (hs_StreamID hello \<noteq> '''' \<and> known_target (hs_Target hello))"
| "needs_lock w (Removing key c) = True"
| "needs_lock w (Expiring key ref) = True"
| "needs_lock w (Closing cs) = (case cs of [] \<Rightarrow> False | c # rest \<Rightarrow> ip_open w c)"
| "needs_lock w (Releasing cs) = (case cs of [] \<Rightarrow> False | c # rest \<Rightarrow> pair_open w c)"
| "needs_lock w _ = False"

fun run_task :: "ed25519 \<Rightarrow> task \<Rightarrow> input \<Rightarrow> system \<Rightarrow> system" where
  "run_task ed (Greeting c) inp w = relay_handle_hello ed c inp w"
| "run_task ed (Admitting c hello) inp w = relay_handle_admit c hello w"
| "run_task ed (Enrolling c hello) inp w = handleControl_enroll c hello w"
| "run_task ed (Replacing c hello old) inp w = handleControl_replace c hello old w"
| "run_task ed (Replaced c hello d) inp w = handleControl_replaced c hello d w"
| "run_task ed (Readying c hello) inp w = handleControl_ready c hello inp w"
| "run_task ed (Controlling c hello) inp w = handleControl_read c hello inp w"
| "run_task ed (Leaving c hello) inp w = handleControl_leave c hello w"
| "run_task ed (Joining c hello) inp w = handleStream c hello inp w"
| "run_task ed (Notifying c hello peer) inp w = handleStream_notify c hello peer inp w"
| "run_task ed (Removing key c) inp w = spawn [Closing [c]] (on_relay (removeStream key c) w)"
| "run_task ed (Pairing left right) inp w = handleStream_pair left right inp w"
| "run_task ed (Relaying left right) inp w = relayPair left right inp w"
| "run_task ed (Draining left right) inp w = on_relay (add_copied inp) w"
| "run_task ed (Expiring key ref) inp w = expireStream key ref w"
| "run_task ed (Closing cs) inp w = countedConn_Close cs w"
| "run_task ed (Releasing cs) inp w = countedConn_Close_outer cs w"
| "run_task ed Blocked inp w = spawn [Blocked] w"

definition finish :: "task \<Rightarrow> system \<Rightarrow> system" where
  "finish t w = w\<lparr>sy_tasks := remove1 t (sy_tasks w)\<rparr>"

inductive relay_step :: "ed25519 \<Rightarrow> system \<Rightarrow> system \<Rightarrow> bool" for ed where
  accept: "\<not> sy_mu w \<Longrightarrow> relay_step ed w (Serve ip w)"
| run: "t \<in> set (sy_tasks w) \<Longrightarrow> needs_lock w t \<longrightarrow> \<not> sy_mu w \<Longrightarrow> relay_step ed w (run_task ed t inp (finish t w))"

inductive relay_reach :: "ed25519 \<Rightarrow> RelayConfig \<Rightarrow> system \<Rightarrow> bool" for ed config where
  start: "relay_reach ed config (initial_system config)"
| step: "relay_reach ed config w \<Longrightarrow> relay_step ed w w' \<Longrightarrow> relay_reach ed config w'"

end
