(* ===== verification/Relay_Correct.thy ===== *)
theory Relay_Correct
  imports Relay
begin

text \<open>
  Invariants of the relay over every interleaving of its goroutines: the connection counters are
  exact and within their limits; a connection waits in or is relayed by at most one stream, and only
  with the other end of the same stream of the same pair. And the deadlock of stream expiry.
\<close>

inductive_cases relay_stepE: "relay_step ed w w'"

section \<open>Counting\<close>

definition open_count :: "('c \<Rightarrow> string option) \<Rightarrow> 'c list \<Rightarrow> string \<Rightarrow> nat" where
  "open_count slot cs x = length (filter (\<lambda>k. slot k = Some x) cs)"

definition tally_counts :: "(string, int) gomap \<Rightarrow> ('c \<Rightarrow> string option) \<Rightarrow> 'c list \<Rightarrow> bool" where
  "tally_counts m slot cs \<longleftrightarrow> gomap_ok m \<and> (\<forall>x. map_of m x \<noteq> Some 0) \<and> (\<forall>x. tally m x = int (open_count slot cs x))"

definition ip_slot :: "countedConn \<Rightarrow> string option" where
  "ip_slot k = (if cn_ipReleased k then None else Some (cn_ip k))"

definition pair_slot :: "countedConn \<Rightarrow> string option" where
  "pair_slot k = (case cn_hello k of None \<Rightarrow> None | Some hello \<Rightarrow> if cn_pairReleased k then None else Some (hs_PairID hello))"

lemma open_count_update:
  "c < length cs \<Longrightarrow> int (open_count slot (cs[c := k]) x) =
     int (open_count slot cs x) + (if slot k = Some x then 1 else 0) - (if slot (cs ! c) = Some x then 1 else 0)"
  using length_filter_update [of c cs "\<lambda>k. slot k = Some x" k] unfolding open_count_def by (auto split: if_splits)

lemma open_count_snoc: "open_count slot (cs @ [k]) x = open_count slot cs x + (if slot k = Some x then 1 else 0)"
  by (simp add: open_count_def)

lemma tally_inc_at: "tally (tally_inc k m) x = tally m x + (if x = k then 1 else 0)"
  by (simp add: tally_inc_def tally_def update_conv')

lemma tally_dec_at: "tally (tally_dec k m) x = tally m x - (if x = k then 1 else 0)"
  by (auto simp: tally_dec_def tally_def Let_def update_conv' AList.delete_conv')

lemma gomap_ok_tally: "gomap_ok m \<Longrightarrow> gomap_ok (tally_inc k m)" "gomap_ok m \<Longrightarrow> gomap_ok (tally_dec k m)"
  by (simp_all add: tally_inc_def tally_dec_def Let_def)

lemma tally_dec_nonzero: "\<forall>x. map_of m x \<noteq> Some 0 \<Longrightarrow> map_of (tally_dec k m) x \<noteq> Some 0"
  by (auto simp: tally_dec_def tally_def Let_def update_conv' AList.delete_conv' split: if_splits option.splits)

lemma tally_inc_nonzero: "\<forall>x. map_of m x \<noteq> Some 0 \<Longrightarrow> 0 \<le> tally m k \<Longrightarrow> map_of (tally_inc k m) x \<noteq> Some 0"
  by (auto simp: tally_inc_def update_conv' split: if_splits)

text \<open>The three ways a counter follows the connections.\<close>

lemma tally_counts_take:
  assumes "tally_counts m slot cs" and "c < length cs" and "slot (cs ! c) = None" and "slot k = Some x"
  shows "tally_counts (tally_inc x m) slot (cs[c := k])"
  using assms tally_inc_nonzero [of m x]
  by (auto simp: tally_counts_def tally_inc_at open_count_update gomap_ok_tally)

lemma tally_counts_new:
  assumes "tally_counts m slot cs" and "slot k = Some x"
  shows "tally_counts (tally_inc x m) slot (cs @ [k])"
  using assms tally_inc_nonzero [of m x]
  by (auto simp: tally_counts_def tally_inc_at open_count_snoc gomap_ok_tally)

lemma tally_counts_release:
  assumes "tally_counts m slot cs" and "c < length cs" and "slot (cs ! c) = Some x" and "slot k = None"
  shows "tally_counts (tally_dec x m) slot (cs[c := k])"
  using assms tally_dec_nonzero [of m x]
  by (auto simp: tally_counts_def tally_dec_at open_count_update gomap_ok_tally)

lemma tally_counts_same:
  assumes "tally_counts m slot cs" and "c < length cs" and "slot k = slot (cs ! c)"
  shows "tally_counts m slot (cs[c := k])"
  using assms by (auto simp: tally_counts_def open_count_update)

lemma tally_counts_skip: "slot k = None \<Longrightarrow> tally_counts m slot (cs @ [k]) = tally_counts m slot cs"
  by (simp add: tally_counts_def open_count_snoc)

lemma tally_counts_empty: "tally_counts m slot cs \<Longrightarrow> \<forall>k\<in>set cs. slot k = None \<Longrightarrow> m = []"
proof (rule ccontr)
  assume h: "tally_counts m slot cs" "\<forall>k\<in>set cs. slot k = None" "m \<noteq> []"
  then obtain k v m' where m: "m = (k, v) # m'" by (metis list.exhaust surj_pair)
  have "open_count slot cs k = 0" using h(2) by (auto simp: open_count_def filter_empty_conv)
  then have "tally m k = 0" using h(1) by (simp add: tally_counts_def)
  then have "map_of m k = Some 0" using m by (simp add: tally_def)
  with h(1) show False by (simp add: tally_counts_def)
qed

definition limits_ok :: "Relay \<Rightarrow> bool" where
  "limits_ok r \<longleftrightarrow> rl_activeConnections r \<le> rc_MaxConnections (rl_config r) \<and>
     (\<forall>ip. tally (rl_connectionsByIP r) ip \<le> rc_MaxConnectionsPerIP (rl_config r)) \<and>
     (\<forall>p. tally (rl_connectionsByPair r) p \<le> rc_MaxConnectionsPerPair (rl_config r))"

definition counters_ok :: "system \<Rightarrow> bool" where
  "counters_ok w \<longleftrightarrow>
     tally_counts (rl_connectionsByIP (sy_relay w)) ip_slot (sy_conns w) \<and>
     tally_counts (rl_connectionsByPair (sy_relay w)) pair_slot (sy_conns w) \<and>
     rl_activeConnections (sy_relay w) = int (length (filter (\<lambda>k. \<not> cn_ipReleased k) (sy_conns w))) \<and>
     limits_ok (sy_relay w)"

section \<open>Counters under the operations\<close>

lemma le_release: "\<forall>y. f y \<le> (m :: int) \<Longrightarrow> f x - (if P then 1 else 0) \<le> m"
  using order.trans [of "f x - 1" "f x" m] by simp

lemma limits_release: "limits_ok r \<Longrightarrow> limits_ok (releaseConnection ip r)" "limits_ok r \<Longrightarrow> limits_ok (releasePair p r)"
  by (simp_all add: limits_ok_def releaseConnection_def releasePair_def tally_dec_at le_release)

lemma counters_spawn [simp]: "counters_ok (spawn ts w) = counters_ok w"
  by (simp add: counters_ok_def spawn_def)

lemma slot_new:
  "ip_slot \<lparr>cn_ip = ip, cn_hello = None, cn_ipReleased = False, cn_pairReleased = b\<rparr> = Some ip"
  "pair_slot \<lparr>cn_ip = ip, cn_hello = None, cn_ipReleased = a, cn_pairReleased = b\<rparr> = None"
  by (simp_all add: ip_slot_def pair_slot_def)

lemma counters_Serve: "counters_ok w \<Longrightarrow> counters_ok (Serve ip w)"
  by (auto simp: Serve_def acquireConnection_def counters_ok_def limits_ok_def tally_inc_at spawn_def slot_new
      tally_counts_new tally_counts_skip split: if_splits)

lemma counters_close_ip:
  assumes "counters_ok w" and "c < length (sy_conns w)"
  shows "counters_ok (close_ip c w)"
proof (cases "cn_ipReleased (sy_conns w ! c)")
  case True
  with assms show ?thesis by (simp add: close_ip_def)
next
  case False
  let ?k = "sy_conns w ! c"
  have "tally_counts (tally_dec (cn_ip ?k) (rl_connectionsByIP (sy_relay w))) ip_slot ((sy_conns w)[c := ?k\<lparr>cn_ipReleased := True\<rparr>])"
    using assms False by (intro tally_counts_release) (auto simp: counters_ok_def ip_slot_def)
  moreover have "tally_counts (rl_connectionsByPair (sy_relay w)) pair_slot ((sy_conns w)[c := ?k\<lparr>cn_ipReleased := True\<rparr>])"
    using assms by (intro tally_counts_same) (auto simp: counters_ok_def pair_slot_def split: option.splits)
  moreover have "int (length (filter (\<lambda>k. \<not> cn_ipReleased k) ((sy_conns w)[c := ?k\<lparr>cn_ipReleased := True\<rparr>]))) =
      rl_activeConnections (sy_relay w) - 1"
    using assms False length_filter_update [of c "sy_conns w" "\<lambda>k. \<not> cn_ipReleased k" "?k\<lparr>cn_ipReleased := True\<rparr>"]
    by (auto simp: counters_ok_def)
  ultimately show ?thesis
    using assms False limits_release(1) by (simp add: counters_ok_def close_ip_def Let_def) (simp add: releaseConnection_def)
qed

lemma counters_close_pair:
  assumes "counters_ok w" and "c < length (sy_conns w)"
  shows "counters_ok (close_pair c w)"
proof (cases "pair_slot (sy_conns w ! c)")
  case None
  with assms show ?thesis by (auto simp: close_pair_def pair_slot_def Let_def split: option.splits if_splits)
next
  case (Some p)
  let ?k = "sy_conns w ! c"
  obtain hello where hello: "cn_hello ?k = Some hello" "\<not> cn_pairReleased ?k" "hs_PairID hello = p"
    using Some by (auto simp: pair_slot_def split: option.splits if_splits)
  have "tally_counts (tally_dec p (rl_connectionsByPair (sy_relay w))) pair_slot ((sy_conns w)[c := ?k\<lparr>cn_pairReleased := True\<rparr>])"
    using assms Some hello by (intro tally_counts_release) (auto simp: counters_ok_def pair_slot_def)
  moreover have "tally_counts (rl_connectionsByIP (sy_relay w)) ip_slot ((sy_conns w)[c := ?k\<lparr>cn_pairReleased := True\<rparr>])"
    using assms by (intro tally_counts_same) (auto simp: counters_ok_def ip_slot_def)
  moreover have "length (filter (\<lambda>k. \<not> cn_ipReleased k) ((sy_conns w)[c := ?k\<lparr>cn_pairReleased := True\<rparr>])) =
      length (filter (\<lambda>k. \<not> cn_ipReleased k) (sy_conns w))"
    using assms length_filter_update [of c "sy_conns w" "\<lambda>k. \<not> cn_ipReleased k" "?k\<lparr>cn_pairReleased := True\<rparr>"] by auto
  ultimately show ?thesis
    using assms hello limits_release(2) by (simp add: counters_ok_def close_pair_def Let_def) (simp add: releasePair_def)
qed

lemma length_close_ip [simp]: "length (sy_conns (close_ip c w)) = length (sy_conns w)"
  by (simp add: close_ip_def Let_def)

lemma counters_admit:
  assumes "counters_ok w" and "c < length (sy_conns w)" and "cn_hello (sy_conns w ! c) = None"
    and "\<not> cn_pairReleased (sy_conns w ! c)"
  shows "counters_ok (relay_handle_admit c hello w)"
proof (cases "rc_MaxConnectionsPerPair (rl_config (sy_relay w)) \<le> tally (rl_connectionsByPair (sy_relay w)) (hs_PairID hello)")
  case True
  with assms show ?thesis by (simp add: relay_handle_admit_def acquirePair_def)
next
  case False
  let ?k = "(sy_conns w ! c)\<lparr>cn_hello := Some hello\<rparr>"
  have "tally_counts (tally_inc (hs_PairID hello) (rl_connectionsByPair (sy_relay w))) pair_slot ((sy_conns w)[c := ?k])"
    using assms by (intro tally_counts_take) (auto simp: counters_ok_def pair_slot_def)
  moreover have "tally_counts (rl_connectionsByIP (sy_relay w)) ip_slot ((sy_conns w)[c := ?k])"
    using assms by (intro tally_counts_same) (auto simp: counters_ok_def ip_slot_def)
  moreover have "length (filter (\<lambda>k. \<not> cn_ipReleased k) ((sy_conns w)[c := ?k])) =
      length (filter (\<lambda>k. \<not> cn_ipReleased k) (sy_conns w))"
    using assms length_filter_update [of c "sy_conns w" "\<lambda>k. \<not> cn_ipReleased k" ?k] by auto
  ultimately show ?thesis
    using assms False by (auto simp: counters_ok_def limits_ok_def relay_handle_admit_def acquirePair_def tally_inc_at spawn_def)
qed

section \<open>Who holds a connection\<close>

definition authentic :: "handshake \<Rightarrow> bool" where
  "authentic h \<longleftrightarrow> hex_decode (hs_PairID h) \<noteq> None \<and> peerRole (hs_Role h) \<noteq> ''''"

definition conn_ok :: "countedConn \<Rightarrow> bool" where
  "conn_ok k \<longleftrightarrow> (case cn_hello k of None \<Rightarrow> \<not> cn_pairReleased k | Some h \<Rightarrow> authentic h)"

definition admitted :: "countedConn list \<Rightarrow> nat \<Rightarrow> handshake \<Rightarrow> bool" where
  "admitted cs c h \<longleftrightarrow> c < length cs \<and> cn_hello (cs ! c) = Some h"

definition greeted :: "countedConn list \<Rightarrow> nat \<Rightarrow> bool" where
  "greeted cs c \<longleftrightarrow> c < length cs \<and> cn_hello (cs ! c) = None"

text \<open>The two ends of one stream.\<close>

definition matched :: "countedConn list \<Rightarrow> nat \<Rightarrow> nat \<Rightarrow> bool" where
  "matched cs l r \<longleftrightarrow> (\<exists>h h'. admitted cs l h \<and> admitted cs r h' \<and> hs_Role h = ''requester'' \<and> hs_Role h' = ''provider'' \<and>
     hs_PairID h = hs_PairID h' \<and> hs_StreamID h = hs_StreamID h' \<and> hs_Target h = hs_Target h')"

fun task_ok :: "countedConn list \<Rightarrow> task \<Rightarrow> bool" where
  "task_ok cs (Greeting c) = greeted cs c"
| "task_ok cs (Admitting c h) = (greeted cs c \<and> authentic h)"
| "task_ok cs (Enrolling c h) = admitted cs c h"
| "task_ok cs (Replacing c h old) = (admitted cs c h \<and> (\<forall>d. old = Some d \<longrightarrow> d < length cs))"
| "task_ok cs (Replaced c h d) = (admitted cs c h \<and> d < length cs)"
| "task_ok cs (Readying c h) = admitted cs c h"
| "task_ok cs (Controlling c h) = admitted cs c h"
| "task_ok cs (Leaving c h) = admitted cs c h"
| "task_ok cs (Joining c h) = admitted cs c h"
| "task_ok cs (Notifying c h peer) = admitted cs c h"
| "task_ok cs (Removing key c) = (c < length cs)"
| "task_ok cs (Pairing l r) = matched cs l r"
| "task_ok cs (Relaying l r) = matched cs l r"
| "task_ok cs (Draining l r) = matched cs l r"
| "task_ok cs (Expiring key ref) = True"
| "task_ok cs (Closing ds) = (\<forall>d\<in>set ds. d < length cs)"
| "task_ok cs (Releasing ds) = (\<forall>d\<in>set ds. d < length cs)"
| "task_ok cs Blocked = True"

text \<open>The connections a task owns as the end of a stream, or has not admitted yet.\<close>

fun task_conns :: "task \<Rightarrow> nat list" where
  "task_conns (Greeting c) = [c]"
| "task_conns (Admitting c h) = [c]"
| "task_conns (Joining c h) = [c]"
| "task_conns (Pairing l r) = [l, r]"
| "task_conns (Relaying l r) = [l, r]"
| "task_conns (Draining l r) = [l, r]"
| "task_conns _ = []"

definition opt_list :: "'a option \<Rightarrow> 'a list" where
  "opt_list x = (case x of None \<Rightarrow> [] | Some v \<Rightarrow> [v])"

definition stream_conns :: "string \<times> pendingStream \<Rightarrow> nat list" where
  "stream_conns p = opt_list (ps_requester (snd p)) @ opt_list (ps_provider (snd p))"

definition stream_ok :: "countedConn list \<Rightarrow> string \<times> pendingStream \<Rightarrow> bool" where
  "stream_ok cs p \<longleftrightarrow>
     (ps_requester (snd p) = None \<or> ps_provider (snd p) = None) \<and>
     (\<forall>c. ps_requester (snd p) = Some c \<longrightarrow>
        (\<exists>h. admitted cs c h \<and> stream_key h = fst p \<and> hs_Role h = ''requester'' \<and> hs_Target h = ps_target (snd p))) \<and>
     (\<forall>c. ps_provider (snd p) = Some c \<longrightarrow>
        (\<exists>h. admitted cs c h \<and> stream_key h = fst p \<and> hs_Role h = ''provider'' \<and> hs_Target h = ps_target (snd p)))"

definition control_ok :: "countedConn list \<Rightarrow> string \<times> (string, nat) gomap \<Rightarrow> bool" where
  "control_ok cs p \<longleftrightarrow> (\<forall>(role, c)\<in>set (snd p). \<exists>h. admitted cs c h \<and> hs_PairID h = fst p \<and> hs_Role h = role)"

definition stream_holders :: "system \<Rightarrow> nat list" where
  "stream_holders w = concat (map stream_conns (rl_streams (sy_relay w)))"

definition holders :: "system \<Rightarrow> nat list" where
  "holders w = concat (map task_conns (sy_tasks w)) @ stream_holders w"

definition places_ok :: "system \<Rightarrow> bool" where
  "places_ok w \<longleftrightarrow>
     list_all conn_ok (sy_conns w) \<and> list_all (task_ok (sy_conns w)) (sy_tasks w) \<and>
     gomap_ok (rl_streams (sy_relay w)) \<and> list_all (stream_ok (sy_conns w)) (rl_streams (sy_relay w)) \<and>
     list_all (control_ok (sy_conns w)) (rl_controls (sy_relay w)) \<and> distinct (holders w)"

lemma distinct_mset_mono:
  assumes "mset xs \<subseteq># mset ys" and "distinct ys"
  shows "distinct xs"
  unfolding distinct_count_atmost_1
proof
  fix a
  have "count (mset xs) a \<le> count (mset ys) a" using assms(1) by (rule mset_subset_eq_count)
  also have "\<dots> \<le> 1" using assms(2) by (simp add: distinct_count_atmost_1)
  finally show "count (mset xs) a = (if a \<in> set xs then 1 else 0)"
    using count_greater_zero_iff [of "mset xs" a] by (auto simp: le_Suc_eq)
qed

lemma mset_concat_remove1:
  "t \<in> set ts \<Longrightarrow> mset (concat (map f ts)) = mset (f t) + mset (concat (map f (remove1 t ts)))"
  by (induction ts) auto

text \<open>What later states keep of the connections.\<close>

definition grows :: "countedConn list \<Rightarrow> countedConn list \<Rightarrow> bool" where
  "grows cs cs' \<longleftrightarrow> length cs \<le> length cs' \<and> (\<forall>i<length cs. \<forall>h. cn_hello (cs ! i) = Some h \<longrightarrow> cn_hello (cs' ! i) = Some h)"

lemma grows_refl [simp]: "grows cs cs"
  by (simp add: grows_def)

lemma admitted_mono: "grows cs cs' \<Longrightarrow> admitted cs c h \<Longrightarrow> admitted cs' c h"
  by (auto simp: grows_def admitted_def)

lemma matched_mono: "grows cs cs' \<Longrightarrow> matched cs l r \<Longrightarrow> matched cs' l r"
  unfolding matched_def using admitted_mono by blast

lemma stream_ok_mono: "grows cs cs' \<Longrightarrow> stream_ok cs p \<Longrightarrow> stream_ok cs' p"
  unfolding stream_ok_def by (meson admitted_mono)

lemma control_ok_mono: "grows cs cs' \<Longrightarrow> control_ok cs p \<Longrightarrow> control_ok cs' p"
  unfolding control_ok_def using admitted_mono by blast

lemma task_ok_mono:
  assumes "grows cs cs'" and "task_ok cs t"
    and "\<And>c. c \<in> set (task_conns t) \<Longrightarrow> greeted cs c \<Longrightarrow> greeted cs' c"
  shows "task_ok cs' t"
  using assms admitted_mono [OF assms(1)] matched_mono [OF assms(1)]
  by (cases t) (auto simp: grows_def)

section \<open>One step of one task\<close>

lemma places_step:
  assumes ok: "places_ok w" and t: "t \<in> set (sy_tasks w)"
    and grow: "grows (sy_conns w) (sy_conns w')"
    and same: "\<And>i. i \<notin> set (task_conns t) \<Longrightarrow> greeted (sy_conns w) i \<Longrightarrow> greeted (sy_conns w') i"
    and conns: "list_all conn_ok (sy_conns w')"
    and tasks: "sy_tasks w' = remove1 t (sy_tasks w) @ new" "list_all (task_ok (sy_conns w')) new"
    and streams: "gomap_ok (rl_streams (sy_relay w'))" "list_all (stream_ok (sy_conns w')) (rl_streams (sy_relay w'))"
    and controls: "list_all (control_ok (sy_conns w')) (rl_controls (sy_relay w'))"
    and sub: "mset (concat (map task_conns new) @ stream_holders w') \<subseteq># mset (task_conns t @ stream_holders w)"
  shows "places_ok w'"
proof -
  let ?rest = "concat (map task_conns (remove1 t (sy_tasks w)))"
  have hold: "mset (holders w) = mset (task_conns t @ stream_holders w) + mset ?rest"
    using mset_concat_remove1 [OF t, of task_conns] by (simp add: holders_def)
  have "mset (holders w') = mset (concat (map task_conns new) @ stream_holders w') + mset ?rest"
    by (simp add: holders_def tasks(1))
  then have "mset (holders w') \<subseteq># mset (holders w)" using sub hold by simp
  then have "distinct (holders w')" using ok distinct_mset_mono by (auto simp: places_ok_def)
  moreover have "task_ok (sy_conns w') u" if u: "u \<in> set (remove1 t (sy_tasks w))" for u
  proof (rule task_ok_mono [OF grow])
    show "task_ok (sy_conns w) u" using ok notin_set_remove1 u by (auto simp: places_ok_def list_all_iff)
    fix c assume c: "c \<in> set (task_conns u)" "greeted (sy_conns w) c"
    have "distinct (task_conns t @ stream_holders w @ ?rest)"
      using ok hold by (metis places_ok_def append.assoc mset_append mset_eq_imp_distinct_iff)
    then have "c \<notin> set (task_conns t)" using c(1) u by auto
    with same c(2) show "greeted (sy_conns w') c" by blast
  qed
  ultimately show ?thesis
    using conns tasks streams controls by (auto simp: places_ok_def list_all_iff)
qed

text \<open>Steps that keep the handshakes, the streams and the control sessions.\<close>

definition same_places :: "system \<Rightarrow> system \<Rightarrow> bool" where
  "same_places w w' \<longleftrightarrow> map cn_hello (sy_conns w') = map cn_hello (sy_conns w) \<and>
     (list_all conn_ok (sy_conns w) \<longrightarrow> list_all conn_ok (sy_conns w')) \<and>
     rl_streams (sy_relay w') = rl_streams (sy_relay w) \<and> rl_controls (sy_relay w') = rl_controls (sy_relay w)"

lemma same_hellos:
  assumes "map cn_hello cs' = map cn_hello cs"
  shows "grows cs cs'" and "greeted cs' = greeted cs" and "admitted cs' = admitted cs" and "length cs' = length cs"
proof -
  show len: "length cs' = length cs" using assms by (metis length_map)
  have "cn_hello (cs' ! i) = cn_hello (cs ! i)" if "i < length cs" for i
    using assms that len by (metis nth_map)
  with len show "grows cs cs'" "greeted cs' = greeted cs" "admitted cs' = admitted cs"
    by (auto simp: grows_def greeted_def admitted_def fun_eq_iff)
qed

lemma places_same:
  assumes ok: "places_ok w" and t: "t \<in> set (sy_tasks w)" and same: "same_places w w'"
    and tasks: "sy_tasks w' = remove1 t (sy_tasks w) @ new" "list_all (task_ok (sy_conns w)) new"
    and sub: "mset (concat (map task_conns new)) \<subseteq># mset (task_conns t)"
  shows "places_ok w'"
proof (rule places_step [OF ok t])
  have hellos: "map cn_hello (sy_conns w') = map cn_hello (sy_conns w)" using same by (simp add: same_places_def)
  note h = same_hellos [OF hellos]
  show "grows (sy_conns w) (sy_conns w')" by (rule h)
  show "greeted (sy_conns w') i" if "greeted (sy_conns w) i" for i using that h by simp
  show "list_all conn_ok (sy_conns w')" using ok same by (simp add: places_ok_def same_places_def)
  show "sy_tasks w' = remove1 t (sy_tasks w) @ new" by (rule tasks)
  have "task_ok (sy_conns w') u" if "task_ok (sy_conns w) u" for u
    using task_ok_mono [OF h(1) that] h by simp
  then show "list_all (task_ok (sy_conns w')) new" using tasks(2) by (simp add: list_all_iff)
  show "gomap_ok (rl_streams (sy_relay w'))" using ok same by (simp add: places_ok_def same_places_def)
  show "list_all (stream_ok (sy_conns w')) (rl_streams (sy_relay w'))"
    using ok same stream_ok_mono [OF h(1)] by (auto simp: places_ok_def same_places_def list_all_iff)
  show "list_all (control_ok (sy_conns w')) (rl_controls (sy_relay w'))"
    using ok same control_ok_mono [OF h(1)] by (auto simp: places_ok_def same_places_def list_all_iff)
  show "mset (concat (map task_conns new) @ stream_holders w') \<subseteq># mset (task_conns t @ stream_holders w)"
    using sub same by (simp add: same_places_def stream_holders_def)
qed

lemma task_okD: "places_ok w \<Longrightarrow> t \<in> set (sy_tasks w) \<Longrightarrow> task_ok (sy_conns w) t"
  by (simp add: places_ok_def list_all_iff)

lemma map_hello_update: "c < length cs \<Longrightarrow> cn_hello k = cn_hello (cs ! c) \<Longrightarrow> map cn_hello (cs[c := k]) = map cn_hello cs"
  by (simp add: map_update) (metis list_update_id nth_map)

lemma close_ip_places: "c < length (sy_conns w) \<Longrightarrow> same_places w (close_ip c w) \<and> sy_tasks (close_ip c w) = sy_tasks w"
  by (auto simp: close_ip_def Let_def same_places_def map_hello_update releaseConnection_def conn_ok_def list_all_length
      nth_list_update split: option.splits)

lemma close_pair_places: "c < length (sy_conns w) \<Longrightarrow> same_places w (close_pair c w) \<and> sy_tasks (close_pair c w) = sy_tasks w"
  by (auto simp: close_pair_def Let_def same_places_def map_hello_update releasePair_def conn_ok_def list_all_length
      nth_list_update split: option.splits)

lemma same_places_finish [simp]: "same_places w (finish t w)" "sy_conns (finish t w) = sy_conns w" "sy_relay (finish t w) = sy_relay w"
    "sy_tasks (finish t w) = remove1 t (sy_tasks w)" "sy_mu (finish t w) = sy_mu w" "sy_refs (finish t w) = sy_refs w"
  by (simp_all add: finish_def same_places_def)

lemma spawn_fields [simp]: "sy_conns (spawn ts w) = sy_conns w" "sy_relay (spawn ts w) = sy_relay w"
    "sy_tasks (spawn ts w) = sy_tasks w @ ts" "sy_mu (spawn ts w) = sy_mu w"
  by (simp_all add: spawn_def)

lemma on_relay_fields [simp]: "sy_conns (on_relay f w) = sy_conns w" "sy_relay (on_relay f w) = f (sy_relay w)"
    "sy_tasks (on_relay f w) = sy_tasks w" "sy_mu (on_relay f w) = sy_mu w"
  by (simp_all add: on_relay_def)

text \<open>Steps that keep the connections.\<close>

lemma places_relay:
  assumes "places_ok w" and "t \<in> set (sy_tasks w)" and conns: "sy_conns w' = sy_conns w"
    and "sy_tasks w' = remove1 t (sy_tasks w) @ new" "list_all (task_ok (sy_conns w)) new"
    and "gomap_ok (rl_streams (sy_relay w'))" "list_all (stream_ok (sy_conns w)) (rl_streams (sy_relay w'))"
    and "list_all (control_ok (sy_conns w)) (rl_controls (sy_relay w'))"
    and "mset (concat (map task_conns new) @ stream_holders w') \<subseteq># mset (task_conns t @ stream_holders w)"
  shows "places_ok w'"
  by (rule places_step [OF assms(1,2)]) (use assms in \<open>simp_all add: places_ok_def\<close>)

lemma mset_concat_filter: "mset (concat (map f (filter P xs))) \<subseteq># mset (concat (map f xs))"
  by (induction xs) (auto intro: subset_mset.add_increasing)

lemma places_shrink:
  assumes "places_ok w" and "t \<in> set (sy_tasks w)" and "sy_conns w' = sy_conns w"
    and "sy_tasks w' = remove1 t (sy_tasks w) @ new" "list_all (task_ok (sy_conns w)) new"
    and "rl_streams (sy_relay w') = rl_streams (sy_relay w) \<or>
      rl_streams (sy_relay w') = AList.delete key (rl_streams (sy_relay w))"
    and "rl_controls (sy_relay w') = rl_controls (sy_relay w)"
    and "mset (concat (map task_conns new)) \<subseteq># mset (task_conns t)"
  shows "places_ok w'"
proof -
  obtain P where P: "rl_streams (sy_relay w') = filter P (rl_streams (sy_relay w))"
    using assms(6) filter_True [of "rl_streams (sy_relay w)" "\<lambda>_. True"] by (metis gomap_delete_filter)
  have "mset (concat (map task_conns new) @ stream_holders w') \<subseteq># mset (task_conns t @ stream_holders w)"
    using assms(8) mset_concat_filter [of stream_conns P] by (simp add: stream_holders_def P subset_mset.add_mono)
  with assms P show ?thesis by (intro places_relay [OF assms(1-5)]) (auto simp: places_ok_def list_all_iff)
qed

lemma authenticate_authentic:
  "relay_authenticate ed hello rnd sent resp \<Longrightarrow> peerRole (hs_Role hello) \<noteq> '''' \<Longrightarrow> authentic hello"
  by (auto simp: relay_authenticate_def verifyChallenge_def authentic_def split: option.splits)

lemma places_hello:
  assumes "places_ok w" and "Greeting c \<in> set (sy_tasks w)"
  shows "places_ok (relay_handle_hello ed c inp (finish (Greeting c) w))"
proof -
  have g: "greeted (sy_conns w) c" using task_okD [OF assms] by simp
  show ?thesis
  proof (cases "relay_handle_hello ed c inp (finish (Greeting c) w) = spawn [Closing [c]] (finish (Greeting c) w)")
    case True
    with g show ?thesis
      by (intro places_same [OF assms, where new = "[Closing [c]]"]) (simp_all add: greeted_def same_places_def)
  next
    case False
    then obtain hello where h: "authentic hello"
      "relay_handle_hello ed c inp (finish (Greeting c) w) = spawn [Admitting c hello] (finish (Greeting c) w)"
      using authenticate_authentic by (fastforce simp: relay_handle_hello_def split: option.splits if_splits)
    with g show ?thesis
      by (intro places_same [OF assms, where new = "[Admitting c hello]"]) (simp_all add: same_places_def)
  qed
qed

lemma places_admit:
  assumes "places_ok w" and "Admitting c hello \<in> set (sy_tasks w)"
  shows "places_ok (relay_handle_admit c hello (finish (Admitting c hello) w))"
proof (cases "fst (acquirePair (sy_relay w) (hs_PairID hello))")
  case False
  then show ?thesis
    using task_okD [OF assms]
    by (intro places_same [OF assms, where new = "[Closing [c]]"])
       (auto simp: relay_handle_admit_def acquirePair_def greeted_def same_places_def split: if_splits)
next
  case True
  let ?new = "if hs_Type hello = ''control'' then Enrolling c hello
    else if hs_Type hello = ''stream'' then Joining c hello else Closing [c]"
  let ?cs = "(sy_conns w)[c := (sy_conns w ! c)\<lparr>cn_hello := Some hello\<rparr>]"
  have g: "greeted (sy_conns w) c" "authentic hello" using task_okD [OF assms] by simp_all
  have w': "sy_conns (relay_handle_admit c hello (finish (Admitting c hello) w)) = ?cs"
    "sy_tasks (relay_handle_admit c hello (finish (Admitting c hello) w)) = remove1 (Admitting c hello) (sy_tasks w) @ [?new]"
    "rl_streams (sy_relay (relay_handle_admit c hello (finish (Admitting c hello) w))) = rl_streams (sy_relay w)"
    "rl_controls (sy_relay (relay_handle_admit c hello (finish (Admitting c hello) w))) = rl_controls (sy_relay w)"
    using True by (auto simp: relay_handle_admit_def acquirePair_def split: if_splits)
  have grow: "grows (sy_conns w) ?cs" using g by (auto simp: grows_def greeted_def nth_list_update)
  show ?thesis
  proof (rule places_step [OF assms, where new = "[?new]"], unfold w')
    show "greeted ?cs i" if "i \<notin> set (task_conns (Admitting c hello))" "greeted (sy_conns w) i" for i
      using that by (auto simp: greeted_def)
    show "list_all conn_ok ?cs"
      using assms(1) g by (auto simp: places_ok_def conn_ok_def intro!: list_all_update)
    show "list_all (task_ok ?cs) [?new]" using g by (simp add: admitted_def greeted_def)
    show "gomap_ok (rl_streams (sy_relay w))" using assms(1) by (simp add: places_ok_def)
    show "list_all (stream_ok ?cs) (rl_streams (sy_relay w))"
      using assms(1) stream_ok_mono [OF grow] by (auto simp: places_ok_def list_all_iff)
    show "list_all (control_ok ?cs) (rl_controls (sy_relay w))"
      using assms(1) control_ok_mono [OF grow] by (auto simp: places_ok_def list_all_iff)
    show "mset (concat (map task_conns [?new]) @ stream_holders (relay_handle_admit c hello (finish (Admitting c hello) w)))
        \<subseteq># mset (task_conns (Admitting c hello) @ stream_holders w)"
      by (simp add: stream_holders_def w')
  qed (simp_all add: grow)
qed

lemma list_all_AList_update: "list_all P m \<Longrightarrow> P (k, v) \<Longrightarrow> list_all P (AList.update k v m)"
  by (auto simp: list_all_iff dest: gomap_set_update)

lemma list_all_AList_delete: "list_all P m \<Longrightarrow> list_all P (AList.delete k m)"
  by (auto simp: list_all_iff gomap_delete_filter)

lemma roles_ok:
  assumes "places_ok w"
  shows "control_ok (sy_conns w) (p, roles_of (sy_relay w) p)"
proof (cases "map_of (rl_controls (sy_relay w)) p")
  case None
  then show ?thesis by (simp add: roles_of_def control_ok_def)
next
  case (Some roles)
  with assms show ?thesis using map_of_SomeD [OF Some] by (auto simp: places_ok_def roles_of_def list_all_iff)
qed

lemma places_enroll:
  assumes "places_ok w" and "Enrolling c hello \<in> set (sy_tasks w)"
  shows "places_ok (handleControl_enroll c hello (finish (Enrolling c hello) w))"
proof -
  let ?roles = "roles_of (sy_relay w) (hs_PairID hello)"
  have a: "admitted (sy_conns w) c hello" using task_okD [OF assms] by simp
  have old: "d < length (sy_conns w)" if "map_of ?roles (hs_Role hello) = Some d" for d
    using roles_ok [OF assms(1), of "hs_PairID hello"] map_of_SomeD [OF that] by (auto simp: control_ok_def admitted_def)
  have "control_ok (sy_conns w) (hs_PairID hello, AList.update (hs_Role hello) c ?roles)"
    using roles_ok [OF assms(1), of "hs_PairID hello"] a by (auto simp: control_ok_def dest!: gomap_set_update)
  then show ?thesis
    using assms a old
    by (intro places_relay [OF assms, where new = "[Replacing c hello (map_of ?roles (hs_Role hello))]"])
       (auto simp: handleControl_enroll_def Let_def places_ok_def stream_holders_def list_all_AList_update)
qed

lemma places_leave:
  assumes "places_ok w" and "Leaving c hello \<in> set (sy_tasks w)"
  shows "places_ok (handleControl_leave c hello (finish (Leaving c hello) w))"
proof -
  let ?roles = "roles_of (sy_relay w) (hs_PairID hello)"
  have "control_ok (sy_conns w) (hs_PairID hello, AList.delete (hs_Role hello) ?roles)"
    using roles_ok [OF assms(1), of "hs_PairID hello"] by (auto simp: control_ok_def gomap_delete_filter)
  then show ?thesis
    using assms task_okD [OF assms]
    by (intro places_relay [OF assms, where new = "[Closing [c]]"])
       (auto simp: handleControl_leave_def Let_def places_ok_def stream_holders_def admitted_def
         list_all_AList_update list_all_AList_delete)
qed

section \<open>Joining a stream\<close>

lemma stream_key_inj:
  assumes "authentic h" and "authentic h'" and "stream_key h = stream_key h'"
  shows "hs_PairID h = hs_PairID h' \<and> hs_StreamID h = hs_StreamID h'"
  using assms hex_no_bar [of "hs_PairID h"] hex_no_bar [of "hs_PairID h'"] by (auto simp: stream_key_def authentic_def sep_left)

lemma admitted_authentic: "places_ok w \<Longrightarrow> admitted (sy_conns w) c h \<Longrightarrow> authentic h"
  by (auto simp: places_ok_def admitted_def conn_ok_def list_all_length split: option.splits)

lemma mset_update_known:
  "map_of m k = Some u \<Longrightarrow>
     mset (concat (map f (AList.update k v m))) + mset (f (k, u)) = mset (concat (map f m)) + mset (f (k, v))"
  by (induction m) (auto split: if_splits)

lemma mset_delete_known:
  assumes "gomap_ok m" and "map_of m k = Some u"
  shows "mset (concat (map f m)) = mset (f (k, u)) + mset (concat (map f (AList.delete k m)))"
  using assms
proof (induction m)
  case (Cons p m)
  show ?case
  proof (cases "fst p = k")
    case True
    then have "map_of m k = None" using Cons.prems by (auto simp: gomap_ok_def map_of_eq_None_iff)
    with True Cons.prems show ?thesis by (cases p) (simp add: gomap_delete_absent)
  next
    case False
    with Cons show ?thesis by (cases p) (simp add: gomap_ok_def)
  qed
qed simp

text \<open>How a stream connection is received.\<close>

lemma handleStream_cases:
  obtains (refused) "handleStream c hello inp w = spawn [Closing [c]] w"
  | (waiting) ts where "slot_of hello (pending_at w hello (in_now inp)) = None"
      "ps_target (pending_at w hello (in_now inp)) = hs_Target hello"
      "pendingForPair (sy_relay w) (hs_PairID hello) < rl_maxPendingPerPair (sy_relay w)"
      "ps_requester (take_slot c hello (pending_at w hello (in_now inp))) = None \<or>
       ps_provider (take_slot c hello (pending_at w hello (in_now inp))) = None"
      "sy_conns (handleStream c hello inp w) = sy_conns w"
      "sy_relay (handleStream c hello inp w) = (sy_relay w)\<lparr>rl_streams :=
         AList.update (stream_key hello) (take_slot c hello (pending_at w hello (in_now inp))) (rl_streams (sy_relay w))\<rparr>"
      "sy_tasks (handleStream c hello inp w) = sy_tasks w @ ts @
         [Notifying c hello (map_of (roles_of (sy_relay w) (hs_PairID hello)) (peerRole (hs_Role hello)))]"
      "ts = [] \<or> (\<exists>ref. ts = [Expiring (stream_key hello) ref])" "sy_mu (handleStream c hello inp w) = sy_mu w"
  | (paired) pending l r where "map_of (rl_streams (sy_relay w)) (stream_key hello) = Some pending"
      "slot_of hello pending = None" "ps_target pending = hs_Target hello"
      "ps_requester (take_slot c hello pending) = Some l" "ps_provider (take_slot c hello pending) = Some r"
      "sy_conns (handleStream c hello inp w) = sy_conns w"
      "sy_relay (handleStream c hello inp w) = (sy_relay w)\<lparr>rl_streams := AList.delete (stream_key hello) (rl_streams (sy_relay w))\<rparr>"
      "sy_tasks (handleStream c hello inp w) = sy_tasks w @ [Pairing l r]" "sy_mu (handleStream c hello inp w) = sy_mu w"
proof (cases "map_of (rl_streams (sy_relay w)) (stream_key hello)")
  case None
  then have p: "pending_at w hello (in_now inp) =
      \<lparr>ps_ref = sy_refs w, ps_requester = None, ps_provider = None, ps_created = in_now inp, ps_target = hs_Target hello\<rparr>"
    by (simp add: pending_at_def)
  then have "handleStream c hello inp w = spawn [Closing [c]] w \<or>
      pendingForPair (sy_relay w) (hs_PairID hello) < rl_maxPendingPerPair (sy_relay w) \<and>
      handleStream c hello inp w =
        spawn [Notifying c hello (map_of (roles_of (sy_relay w) (hs_PairID hello)) (peerRole (hs_Role hello)))]
          (on_relay (\<lambda>r. r\<lparr>rl_streams := AList.update (stream_key hello) (take_slot c hello (pending_at w hello (in_now inp))) (rl_streams r)\<rparr>)
             (spawn [Expiring (stream_key hello) (sy_refs w)] (w\<lparr>sy_refs := sy_refs w + 1\<rparr>)))"
    using None by (auto simp: handleStream_def Let_def slot_of_def take_slot_def)
  then show ?thesis
  proof (elim disjE conjE)
    assume "handleStream c hello inp w = spawn [Closing [c]] w"
    then show ?thesis by (rule refused)
  next
    assume lt: "pendingForPair (sy_relay w) (hs_PairID hello) < rl_maxPendingPerPair (sy_relay w)"
      and h: "handleStream c hello inp w =
        spawn [Notifying c hello (map_of (roles_of (sy_relay w) (hs_PairID hello)) (peerRole (hs_Role hello)))]
          (on_relay (\<lambda>r. r\<lparr>rl_streams := AList.update (stream_key hello) (take_slot c hello (pending_at w hello (in_now inp))) (rl_streams r)\<rparr>)
             (spawn [Expiring (stream_key hello) (sy_refs w)] (w\<lparr>sy_refs := sy_refs w + 1\<rparr>)))"
    show ?thesis
      by (rule waiting [of "[Expiring (stream_key hello) (sy_refs w)]"])
         (use lt p in \<open>simp_all add: h slot_of_def take_slot_def\<close>)
  qed
next
  case (Some pending)
  then have p: "pending_at w hello (in_now inp) = pending" by (simp add: pending_at_def)
  show ?thesis
  proof (cases "handleStream c hello inp w = spawn [Closing [c]] w")
    case True
    then show ?thesis by (rule refused)
  next
    case False
    then have ok: "pendingForPair (sy_relay w) (hs_PairID hello) < rl_maxPendingPerPair (sy_relay w)"
      "ps_target pending = hs_Target hello" "slot_of hello pending = None"
      using Some p by (auto simp: handleStream_def Let_def split: if_splits)
    let ?p = "take_slot c hello pending"
    have h: "handleStream c hello inp w = (case (ps_requester ?p, ps_provider ?p) of
        (Some left, Some right) \<Rightarrow> spawn [Pairing left right]
           (on_relay (\<lambda>r. r\<lparr>rl_streams := AList.delete (stream_key hello) (rl_streams r)\<rparr>) w)
      | _ \<Rightarrow> spawn [Notifying c hello (map_of (roles_of (sy_relay w) (hs_PairID hello)) (peerRole (hs_Role hello)))]
           (on_relay (\<lambda>r. r\<lparr>rl_streams := AList.update (stream_key hello) ?p (rl_streams r)\<rparr>) w))"
      using False Some p ok by (auto simp: handleStream_def Let_def split: if_splits)
    show ?thesis
    proof (cases "\<exists>l r. ps_requester ?p = Some l \<and> ps_provider ?p = Some r")
      case True
      then obtain l r where "ps_requester ?p = Some l" "ps_provider ?p = Some r" by blast
      then show ?thesis by (intro paired [OF Some]) (use ok in \<open>simp_all add: h\<close>)
    next
      case False
      then have "ps_requester ?p = None \<or> ps_provider ?p = None" by auto
      then show ?thesis by (intro waiting [of "[]"]) (use ok p in \<open>auto simp: h split: option.splits\<close>)
    qed
  qed
qed

lemma take_slot_conns:
  assumes "slot_of hello pending = None"
  shows "mset (stream_conns (key, take_slot c hello pending)) = add_mset c (mset (stream_conns (key, pending)))"
  using assms by (auto simp: slot_of_def take_slot_def stream_conns_def opt_list_def split: if_splits option.splits)

lemma pending_at_holders:
  assumes "gomap_ok (rl_streams (sy_relay w))" and "slot_of hello (pending_at w hello now) = None"
  shows "mset (concat (map stream_conns (AList.update (stream_key hello) (take_slot c hello (pending_at w hello now))
      (rl_streams (sy_relay w))))) = add_mset c (mset (stream_holders w))"
proof (cases "map_of (rl_streams (sy_relay w)) (stream_key hello)")
  case None
  then have "stream_conns (stream_key hello, pending_at w hello now) = []"
    by (simp add: pending_at_def stream_conns_def opt_list_def)
  with None take_slot_conns [OF assms(2)] show ?thesis
    by (simp add: gomap_update_new stream_holders_def)
next
  case (Some pending)
  then have p: "pending_at w hello now = pending" by (simp add: pending_at_def)
  show ?thesis
    using mset_update_known [OF Some, of stream_conns "take_slot c hello pending"] take_slot_conns [OF assms(2), of "stream_key hello" c]
    unfolding p by (simp add: stream_holders_def)
qed

lemma pending_at_ok:
  assumes "places_ok w"
  shows "stream_ok (sy_conns w) (stream_key hello, pending_at w hello now)"
proof (cases "map_of (rl_streams (sy_relay w)) (stream_key hello)")
  case None
  then show ?thesis by (simp add: pending_at_def stream_ok_def)
next
  case (Some pending)
  then show ?thesis using assms map_of_SomeD [OF Some] by (auto simp: places_ok_def pending_at_def list_all_iff)
qed

lemma take_slot_ok:
  assumes "stream_ok cs (stream_key hello, pending)" and "admitted cs c hello" and "authentic hello"
    and "ps_target pending = hs_Target hello"
    and "ps_requester (take_slot c hello pending) = None \<or> ps_provider (take_slot c hello pending) = None"
  shows "stream_ok cs (stream_key hello, take_slot c hello pending)"
proof -
  have "hs_Role hello = ''requester'' \<or> hs_Role hello = ''provider''"
    using assms(3) by (auto simp: authentic_def peerRole_def split: if_splits)
  with assms show ?thesis by (auto simp: stream_ok_def take_slot_def split: if_splits)
qed

lemma places_join:
  assumes "places_ok w" and "Joining c hello \<in> set (sy_tasks w)"
  shows "places_ok (handleStream c hello inp (finish (Joining c hello) w))"
proof -
  let ?w = "finish (Joining c hello) w"
  have a: "admitted (sy_conns w) c hello" using task_okD [OF assms] by simp
  have auth: "authentic hello" by (rule admitted_authentic [OF assms(1) a])
  have same: "pending_at ?w hello now = pending_at w hello now" for now
    by (simp add: pending_at_def split: option.splits)
  have gok: "gomap_ok (rl_streams (sy_relay w))" using assms(1) by (simp add: places_ok_def)
  show ?thesis
  proof (cases rule: handleStream_cases [of c hello inp ?w])
    case refused
    with a show ?thesis
      by (intro places_same [OF assms, where new = "[Closing [c]]"]) (simp_all add: same_places_def admitted_def)
  next
    case (waiting ts)
    note w' = waiting(1,2,4-8) [unfolded same same_places_finish]
    have "stream_ok (sy_conns w) (stream_key hello, take_slot c hello (pending_at w hello (in_now inp)))"
      by (rule take_slot_ok [OF pending_at_ok [OF assms(1)] a auth w'(2,3)])
    moreover have "concat (map task_conns ts) = []" "list_all (task_ok (sy_conns w)) ts" using w'(7) by auto
    ultimately show ?thesis
      using assms a w' pending_at_holders [OF gok w'(1), of c]
      by (intro places_relay [OF assms, where new = "ts @ [Notifying c hello
            (map_of (roles_of (sy_relay w) (hs_PairID hello)) (peerRole (hs_Role hello)))]"])
         (auto simp: places_ok_def stream_holders_def list_all_AList_update)
  next
    case (paired pending l r)
    note w' = paired [unfolded same_places_finish]
    have st: "stream_ok (sy_conns w) (stream_key hello, pending)"
      using assms(1) map_of_SomeD [OF w'(1)] by (auto simp: places_ok_def list_all_iff)
    have keys: "hs_PairID h = hs_PairID hello \<and> hs_StreamID h = hs_StreamID hello"
      if "admitted (sy_conns w) d h" "stream_key h = stream_key hello" for d h
      using stream_key_inj [OF admitted_authentic [OF assms(1) that(1)] auth that(2)] .
    have "hs_Role hello = ''requester'' \<or> hs_Role hello = ''provider''"
      using auth by (auto simp: authentic_def peerRole_def split: if_splits)
    then have "matched (sy_conns w) l r"
      using w'(2-5) st a keys by (fastforce simp: matched_def stream_ok_def take_slot_def slot_of_def split: if_splits)
    moreover have "mset [l, r] + mset (concat (map stream_conns (AList.delete (stream_key hello) (rl_streams (sy_relay w))))) =
        add_mset c (mset (stream_holders w))"
      using mset_delete_known [OF gok w'(1), of stream_conns] take_slot_conns [OF w'(2), of "stream_key hello" c] w'(4,5)
      by (simp add: stream_holders_def stream_conns_def opt_list_def)
    ultimately show ?thesis
      using assms w' gok
      by (intro places_relay [OF assms, where new = "[Pairing l r]"])
         (auto simp: places_ok_def stream_holders_def list_all_AList_delete)
  qed
qed

section \<open>Every step keeps the invariants\<close>

lemma places_replace:
  assumes "places_ok w" and "Replacing c hello old \<in> set (sy_tasks w)"
  shows "places_ok (handleControl_replace c hello old (finish (Replacing c hello old) w))"
proof (cases old)
  case None
  with task_okD [OF assms] show ?thesis
    by (intro places_same [OF assms, where new = "[Readying c hello]"]) (auto simp: handleControl_replace_def same_places_def)
next
  case (Some d)
  with task_okD [OF assms] close_ip_places [of d "finish (Replacing c hello old) w"] show ?thesis
    by (intro places_same [OF assms, where new = "[Replaced c hello d]"]) (auto simp: handleControl_replace_def same_places_def)
qed

lemma places_replaced:
  assumes "places_ok w" and "Replaced c hello d \<in> set (sy_tasks w)"
  shows "places_ok (handleControl_replaced c hello d (finish (Replaced c hello d) w))"
  using task_okD [OF assms] close_pair_places [of d "finish (Replaced c hello d) w"]
  by (intro places_same [OF assms, where new = "[Readying c hello]"]) (auto simp: handleControl_replaced_def same_places_def)

lemma places_expire:
  assumes "places_ok w" and "Expiring key ref \<in> set (sy_tasks w)"
  shows "places_ok (expireStream key ref (finish (Expiring key ref) w))"
proof -
  let ?w' = "expireStream key ref (finish (Expiring key ref) w)"
  have "sy_conns ?w' = sy_conns w \<and> rl_controls (sy_relay ?w') = rl_controls (sy_relay w) \<and>
      (rl_streams (sy_relay ?w') = rl_streams (sy_relay w) \<or>
       rl_streams (sy_relay ?w') = AList.delete key (rl_streams (sy_relay w))) \<and>
      (sy_tasks ?w' = remove1 (Expiring key ref) (sy_tasks w) \<or>
       sy_tasks ?w' = remove1 (Expiring key ref) (sy_tasks w) @ [Blocked])"
    by (auto simp: expireStream_def close_under_lock_def Let_def split: option.splits)
  then obtain new where new: "sy_tasks ?w' = remove1 (Expiring key ref) (sy_tasks w) @ new" "new = [] \<or> new = [Blocked]"
    and "sy_conns ?w' = sy_conns w" "rl_controls (sy_relay ?w') = rl_controls (sy_relay w)"
    and "rl_streams (sy_relay ?w') = rl_streams (sy_relay w) \<or>
       rl_streams (sy_relay ?w') = AList.delete key (rl_streams (sy_relay w))"
    by auto
  then show ?thesis by (intro places_shrink [OF assms, where new = new and key = key]) auto
qed

lemma places_remove:
  assumes "places_ok w" and "Removing key c \<in> set (sy_tasks w)"
  shows "places_ok (spawn [Closing [c]] (on_relay (removeStream key c) (finish (Removing key c) w)))"
proof -
  have "rl_streams (removeStream key c (sy_relay w)) = rl_streams (sy_relay w) \<or>
      rl_streams (removeStream key c (sy_relay w)) = AList.delete key (rl_streams (sy_relay w))"
    by (auto simp: removeStream_def split: option.splits)
  moreover have "rl_controls (removeStream key c (sy_relay w)) = rl_controls (sy_relay w)"
    by (auto simp: removeStream_def split: option.splits)
  ultimately show ?thesis
    using task_okD [OF assms] by (intro places_shrink [OF assms, where new = "[Closing [c]]" and key = key]) auto
qed

lemma places_close:
  assumes "places_ok w" and "Closing cs \<in> set (sy_tasks w)"
  shows "places_ok (countedConn_Close cs (finish (Closing cs) w))"
  using task_okD [OF assms] close_ip_places [of "hd cs" "finish (Closing cs) w"]
  by (intro places_same [OF assms, where new = "if cs = [] then [] else [Releasing cs]"])
     (auto simp: countedConn_Close_def same_places_def split: list.splits)

lemma places_release:
  assumes "places_ok w" and "Releasing cs \<in> set (sy_tasks w)"
  shows "places_ok (countedConn_Close_outer cs (finish (Releasing cs) w))"
  using task_okD [OF assms] close_pair_places [of "hd cs" "finish (Releasing cs) w"]
  by (intro places_same [OF assms, where new = "if cs = [] then [] else [Closing (tl cs)]"])
     (auto simp: countedConn_Close_outer_def same_places_def dest: list.set_sel(2) split: list.splits)

lemma places_run:
  assumes "places_ok w" and "t \<in> set (sy_tasks w)"
  shows "places_ok (run_task ed t inp (finish t w))"
proof (cases t)
  case (Readying c hello)
  with assms task_okD [OF assms] show ?thesis
    by (intro places_same [OF assms, where new = "[if in_sent inp then Controlling c hello else Closing [c]]"])
       (auto simp: handleControl_ready_def same_places_def admitted_def)
next
  case (Controlling c hello)
  with assms task_okD [OF assms] show ?thesis
    by (intro places_same [OF assms, where new = "[if in_message inp = None then Leaving c hello else Controlling c hello]"])
       (auto simp: handleControl_read_def same_places_def split: option.splits)
next
  case (Notifying c hello peer)
  with assms task_okD [OF assms] show ?thesis
    by (intro places_same [OF assms, where new = "if peer \<noteq> None \<and> in_sent inp then [] else [Removing (stream_key hello) c]"])
       (auto simp: handleStream_notify_def same_places_def admitted_def split: option.splits)
next
  case (Pairing l r)
  with assms task_okD [OF assms] show ?thesis
    by (intro places_same [OF assms, where new = "if in_sent inp \<and> in_sent2 inp then [Relaying l r] else [Closing [l, r]]"])
       (auto simp: handleStream_pair_def same_places_def matched_def admitted_def)
next
  case (Relaying l r)
  with assms task_okD [OF assms] show ?thesis
    by (intro places_same [OF assms, where new = "[Draining l r, Closing [r, l]]"])
       (auto simp: relayPair_def add_copied_def same_places_def matched_def admitted_def)
next
  case (Draining l r)
  with assms show ?thesis by (intro places_same [OF assms, where new = "[]"]) (auto simp: add_copied_def same_places_def)
next
  case Blocked
  with assms show ?thesis by (intro places_same [OF assms, where new = "[Blocked]"]) (auto simp: same_places_def)
qed (use assms in \<open>simp_all add: places_hello places_admit places_enroll places_replace places_leave places_join
  places_remove places_expire places_close
  places_replaced places_release\<close>)

lemma holders_bound: "places_ok w \<Longrightarrow> i \<in> set (holders w) \<Longrightarrow> i < length (sy_conns w)"
proof -
  assume ok: "places_ok w" and i: "i \<in> set (holders w)"
  have "i < length cs" if "task_ok cs t" "i \<in> set (task_conns t)" for cs t
    using that by (cases t) (auto simp: greeted_def admitted_def matched_def)
  moreover have "i < length cs" if "stream_ok cs p" "i \<in> set (stream_conns p)" for cs p
    using that by (auto simp: stream_ok_def stream_conns_def opt_list_def admitted_def split: option.splits)
  ultimately show "i < length (sy_conns w)"
    using ok i by (auto simp: places_ok_def holders_def stream_holders_def list_all_iff)
qed

lemma places_accept:
  assumes "places_ok w"
  shows "places_ok (Serve ip w)"
proof (cases "fst (acquireConnection (sy_relay w) ip)")
  case False
  then have "Serve ip w = w" by (auto simp: Serve_def acquireConnection_def split: if_splits)
  with assms show ?thesis by simp
next
  case True
  let ?n = "length (sy_conns w)"
  let ?k = "\<lparr>cn_ip = ip, cn_hello = None, cn_ipReleased = False, cn_pairReleased = False\<rparr>"
  have w': "sy_conns (Serve ip w) = sy_conns w @ [?k]" "sy_tasks (Serve ip w) = sy_tasks w @ [Greeting ?n]"
    "rl_streams (sy_relay (Serve ip w)) = rl_streams (sy_relay w)" "rl_controls (sy_relay (Serve ip w)) = rl_controls (sy_relay w)"
    using True by (auto simp: Serve_def acquireConnection_def split: if_splits)
  have grow: "grows (sy_conns w) (sy_conns w @ [?k])" by (simp add: grows_def nth_append)
  have "task_ok (sy_conns w @ [?k]) t" if "t \<in> set (sy_tasks w)" for t
    by (rule task_ok_mono [OF grow task_okD [OF assms that]]) (auto simp: greeted_def nth_append)
  moreover have "?n \<notin> set (holders w)" using holders_bound [OF assms] by blast
  moreover have "mset (holders (Serve ip w)) = mset (?n # holders w)"
    by (simp add: holders_def stream_holders_def w')
  then have "distinct (holders (Serve ip w)) = distinct (?n # holders w)" by (rule mset_eq_imp_distinct_iff)
  ultimately show ?thesis
    using assms stream_ok_mono [OF grow] control_ok_mono [OF grow]
    by (auto simp: places_ok_def w' conn_ok_def greeted_def list_all_iff)
qed

lemma counters_finish [simp]: "counters_ok (finish t w) = counters_ok w"
  by (simp add: counters_ok_def)

lemma counters_relay:
  assumes "counters_ok w" and "sy_conns w' = sy_conns w" and "rl_connectionsByIP (sy_relay w') = rl_connectionsByIP (sy_relay w)"
    and "rl_connectionsByPair (sy_relay w') = rl_connectionsByPair (sy_relay w)"
    and "rl_activeConnections (sy_relay w') = rl_activeConnections (sy_relay w)" and "rl_config (sy_relay w') = rl_config (sy_relay w)"
  shows "counters_ok w'"
  using assms by (simp add: counters_ok_def limits_ok_def)

lemma counters_run:
  assumes "places_ok w" and "t \<in> set (sy_tasks w)" and "counters_ok w"
  shows "counters_ok (run_task ed t inp (finish t w))"
proof (cases t)
  case (Admitting c hello)
  have "greeted (sy_conns w) c" using task_okD [OF assms(1,2)] Admitting by simp
  moreover then have "conn_ok (sy_conns w ! c)" using assms(1) by (simp add: greeted_def places_ok_def list_all_length)
  ultimately show ?thesis using assms(3) Admitting by (simp add: counters_admit greeted_def conn_ok_def)
next
  case (Replacing c hello old)
  with task_okD [OF assms(1,2)] assms(3) show ?thesis
    by (cases old) (simp_all add: handleControl_replace_def counters_close_ip)
next
  case (Replaced c hello d)
  with task_okD [OF assms(1,2)] assms(3) show ?thesis by (simp add: handleControl_replaced_def counters_close_pair)
next
  case (Closing cs)
  with task_okD [OF assms(1,2)] assms(3) show ?thesis
    by (cases cs) (simp_all add: countedConn_Close_def counters_close_ip)
next
  case (Releasing cs)
  with task_okD [OF assms(1,2)] assms(3) show ?thesis
    by (cases cs) (simp_all add: countedConn_Close_outer_def counters_close_pair)
next
  case (Joining c hello)
  show ?thesis
    using assms(3) unfolding Joining
    by (cases rule: handleStream_cases [of c hello inp "finish t w"]) (auto simp: Joining intro: counters_relay)
qed (use assms(3) in \<open>auto simp: relay_handle_hello_def handleControl_enroll_def Let_def handleControl_ready_def
    handleControl_read_def handleControl_leave_def handleStream_notify_def removeStream_def handleStream_pair_def
    relayPair_def add_copied_def expireStream_def close_under_lock_def intro!: counters_relay [of w] split: option.splits\<close>)

section \<open>The limit of pending streams\<close>

definition pending_ok :: "Relay \<Rightarrow> bool" where
  "pending_ok r \<longleftrightarrow> (\<forall>p. CHR ''|'' \<notin> set p \<longrightarrow> pendingForPair r p \<le> rl_maxPendingPerPair r)"

lemma pending_update:
  assumes "pending_ok r" and "authentic hello" and "pendingForPair r (hs_PairID hello) < rl_maxPendingPerPair r"
  shows "pending_ok (r\<lparr>rl_streams := AList.update (stream_key hello) v (rl_streams r)\<rparr>)"
  unfolding pending_ok_def
proof (intro allI impI)
  fix p assume p: "CHR ''|'' \<notin> set p"
  let ?P = "\<lambda>(key, _). take (length p + 1) key = p @ ''|''"
  have le: "pendingForPair (r\<lparr>rl_streams := AList.update (stream_key hello) v (rl_streams r)\<rparr>) p
      \<le> pendingForPair r p + (if take (length p + 1) (stream_key hello) = p @ ''|'' then 1 else 0)"
    using gomap_count_update_le [of ?P "stream_key hello" v "rl_streams r"] by (auto simp: pendingForPair_def)
  have "p = hs_PairID hello" if "take (length p + 1) (stream_key hello) = p @ ''|''"
  proof -
    have "p @ CHR ''|'' # drop (length p + 1) (stream_key hello) = hs_PairID hello @ CHR ''|'' # hs_StreamID hello"
      using append_take_drop_id [of "length p + 1" "stream_key hello"] unfolding that by (simp add: stream_key_def)
    then show ?thesis using p assms(2) hex_no_bar [of "hs_PairID hello"] by (auto simp: sep_left authentic_def)
  qed
  with le assms p show "pendingForPair (r\<lparr>rl_streams := AList.update (stream_key hello) v (rl_streams r)\<rparr>) p
      \<le> rl_maxPendingPerPair (r\<lparr>rl_streams := AList.update (stream_key hello) v (rl_streams r)\<rparr>)"
    by (auto simp: pending_ok_def split: if_splits)
qed

lemma pending_shrink:
  assumes "pending_ok r" and "rl_streams r' = rl_streams r \<or> rl_streams r' = AList.delete key (rl_streams r)"
    and "rl_maxPendingPerPair r' = rl_maxPendingPerPair r"
  shows "pending_ok r'"
proof -
  have "pendingForPair r' p \<le> pendingForPair r p" for p
    using assms(2) gomap_count_delete_le [of _ key "rl_streams r"] by (auto simp: pendingForPair_def)
  then show ?thesis using assms(1,3) order.trans by (fastforce simp: pending_ok_def)
qed

lemma pending_run:
  assumes "places_ok w" and "t \<in> set (sy_tasks w)" and "pending_ok (sy_relay w)"
  shows "pending_ok (sy_relay (run_task ed t inp (finish t w)))"
proof (cases t)
  case (Joining c hello)
  have a: "authentic hello" using task_okD [OF assms(1,2)] admitted_authentic [OF assms(1)] Joining by simp
  show ?thesis
    using assms(3) a unfolding Joining
    by (cases rule: handleStream_cases [of c hello inp "finish t w"])
       (auto simp: Joining pending_update intro: pending_shrink [where key = "stream_key hello"])
next
  case (Expiring key ref)
  then show ?thesis using assms(3)
    by (intro pending_shrink [OF assms(3), where key = key])
       (auto simp: expireStream_def close_under_lock_def Let_def split: option.splits)
next
  case (Removing key c)
  then show ?thesis using assms(3)
    by (intro pending_shrink [OF assms(3), where key = key]) (auto simp: removeStream_def split: option.splits)
next
  case (Admitting c hello)
  then show ?thesis using assms(3)
    by (intro pending_shrink [OF assms(3)]) (auto simp: relay_handle_admit_def acquirePair_def)
qed (use assms(3) in \<open>auto simp: relay_handle_hello_def handleControl_enroll_def Let_def handleControl_ready_def
    handleControl_read_def handleControl_leave_def handleStream_notify_def handleStream_pair_def handleControl_replace_def
    handleControl_replaced_def relayPair_def add_copied_def countedConn_Close_def countedConn_Close_outer_def close_ip_def
    close_pair_def releaseConnection_def releasePair_def intro!: pending_shrink [of "sy_relay w"] split: option.splits list.splits\<close>)

section \<open>Reachable states\<close>

definition relay_inv :: "system \<Rightarrow> bool" where
  "relay_inv w \<longleftrightarrow> places_ok w \<and> counters_ok w \<and> pending_ok (sy_relay w)"

lemma pending_accept: "pending_ok (sy_relay w) \<Longrightarrow> pending_ok (sy_relay (Serve ip w))"
  by (rule pending_shrink [of "sy_relay w"]) (auto simp: Serve_def acquireConnection_def)

lemma relay_inv_step: "relay_inv w \<Longrightarrow> relay_step ed w w' \<Longrightarrow> relay_inv w'"
  by (erule relay_stepE)
     (auto simp: relay_inv_def places_run counters_run pending_run places_accept counters_Serve pending_accept)

lemma relay_inv_initial: "relay_inv (initial_system config)"
  by (simp add: relay_inv_def initial_system_def NewRelayWithConfig_def Let_def places_ok_def holders_def stream_holders_def
      counters_ok_def tally_counts_def tally_def open_count_def limits_ok_def pending_ok_def pendingForPair_def
      gomap_count_def positive_or_def)

lemma relay_reach_inv: "relay_reach ed config w \<Longrightarrow> relay_inv w"
  by (induction rule: relay_reach.induct) (auto simp: relay_inv_initial relay_inv_step)

text \<open>Schedules: a way to run the system step by step.\<close>

datatype event = AcceptFrom string | RunTask task input

definition relay_exec :: "ed25519 \<Rightarrow> system option \<Rightarrow> event \<Rightarrow> system option" where
  "relay_exec ed s ev =
     (case s of
        None \<Rightarrow> None
      | Some w \<Rightarrow>
          (case ev of
             AcceptFrom ip \<Rightarrow> if sy_mu w then None else Some (Serve ip w)
           | RunTask t inp \<Rightarrow>
               if t \<in> set (sy_tasks w) \<and> (needs_lock w t \<longrightarrow> \<not> sy_mu w) then Some (run_task ed t inp (finish t w)) else None))"

lemma relay_exec_reach:
  "foldl (relay_exec ed) s evs = Some w \<Longrightarrow> (\<And>v. s = Some v \<Longrightarrow> relay_reach ed config v) \<Longrightarrow> relay_reach ed config w"
proof (induction evs arbitrary: s)
  case (Cons ev evs)
  have "relay_reach ed config v" if "relay_exec ed s ev = Some v" for v
    using that Cons.prems(2)
    by (auto simp: relay_exec_def split: option.splits event.splits if_splits
        intro: relay_reach.step relay_step.accept relay_step.run)
  with Cons.IH [of "relay_exec ed s ev"] Cons.prems(1) show ?case by simp
qed simp

section \<open>Properties\<close>

text \<open>A signature scheme and inputs with which the system can be run.\<close>

definition sample_ed :: ed25519 where
  "sample_ed = \<lparr>NewKeyFromSeed = (\<lambda>s. s), Public = (\<lambda>k. replicate 32 0), ed_Sign = (\<lambda>k m. k), ed_Verify = (\<lambda>k m s. True)\<rparr>"

definition sample_pair :: string where
  "sample_pair = replicate 64 CHR ''0''"

definition sample_hello :: "string \<Rightarrow> string \<Rightarrow> handshake" where
  "sample_hello t role = \<lparr>hs_Type = t, hs_Role = role, hs_PairID = sample_pair, hs_StreamID = ''s1'', hs_Target = ''provider-host''\<rparr>"

definition sample_input :: "handshake \<Rightarrow> input" where
  "sample_input hello = \<lparr>in_hello = Some hello, in_random = Some [1],
     in_response = Some \<lparr>ar_Type = ''auth_response'', ar_Signature = ''''\<rparr>, in_message = None, in_sent = True,
     in_sent2 = True, in_copied = 10, in_now = 0\<rparr>"

definition sample_config :: RelayConfig where
  "sample_config = \<lparr>rc_MaxConnections = 0, rc_MaxConnectionsPerIP = 0, rc_MaxConnectionsPerPair = 0,
     rc_MaxPendingPerPair = 0, rc_HandshakeTimeout = 0, rc_StreamTimeout = 0\<rparr>"

text \<open>Both ends of a stream arrive and are paired.\<close>

definition pairing_schedule :: "event list" where
  "pairing_schedule =
     (let a = sample_hello ''stream'' ''requester''; b = sample_hello ''stream'' ''provider''
      in [AcceptFrom ''10.0.0.1'', AcceptFrom ''10.0.0.2'', RunTask (Greeting 0) (sample_input a),
          RunTask (Greeting 1) (sample_input b), RunTask (Admitting 0 a) (sample_input a),
          RunTask (Admitting 1 b) (sample_input b), RunTask (Joining 0 a) (sample_input a),
          RunTask (Joining 1 b) (sample_input b), RunTask (Pairing 0 1) (sample_input b)])"

definition paired_system :: system where
  "paired_system = the (foldl (relay_exec sample_ed) (Some (initial_system sample_config)) pairing_schedule)"

text \<open>The provider keeps a control session, and a stream of the requester waits.\<close>

definition waiting_schedule :: "event list" where
  "waiting_schedule =
     (let a = sample_hello ''control'' ''provider''; b = sample_hello ''stream'' ''requester''
      in [AcceptFrom ''10.0.0.2'', RunTask (Greeting 0) (sample_input a), RunTask (Admitting 0 a) (sample_input a),
          RunTask (Enrolling 0 a) (sample_input a), RunTask (Replacing 0 a None) (sample_input a),
          RunTask (Readying 0 a) (sample_input a), AcceptFrom ''10.0.0.1'', RunTask (Greeting 1) (sample_input b),
          RunTask (Admitting 1 b) (sample_input b), RunTask (Joining 1 b) (sample_input b),
          RunTask (Notifying 1 b (Some 0)) (sample_input b)])"

definition waiting_system :: system where
  "waiting_system = the (foldl (relay_exec sample_ed) (Some (initial_system sample_config)) waiting_schedule)"

lemma sample_schedules_run:
  "foldl (relay_exec sample_ed) (Some (initial_system sample_config)) pairing_schedule = Some paired_system"
  "foldl (relay_exec sample_ed) (Some (initial_system sample_config)) waiting_schedule = Some waiting_system"
proof -
  have "foldl (relay_exec sample_ed) (Some (initial_system sample_config)) pairing_schedule \<noteq> None" by code_simp
  then show "foldl (relay_exec sample_ed) (Some (initial_system sample_config)) pairing_schedule = Some paired_system"
    by (simp add: paired_system_def)
  have "foldl (relay_exec sample_ed) (Some (initial_system sample_config)) waiting_schedule \<noteq> None" by code_simp
  then show "foldl (relay_exec sample_ed) (Some (initial_system sample_config)) waiting_schedule = Some waiting_system"
    by (simp add: waiting_system_def)
qed

lemma sample_reach: "relay_reach sample_ed sample_config paired_system" "relay_reach sample_ed sample_config waiting_system"
  by (rule relay_exec_reach [OF sample_schedules_run(1)], simp add: relay_reach.start)
     (rule relay_exec_reach [OF sample_schedules_run(2)], simp add: relay_reach.start)

text \<open>
  C25. The relay's counters are exact and bounded in every reachable state, however its goroutines
  interleave: the active connections, the connections per address and per pair are the numbers of
  connections that still hold a slot; none exceeds its configured limit, nor do the pending streams of
  a pair; and when every connection has given back its slots nothing is left in the counters.
\<close>

theorem relay_counters_exact:
  assumes "relay_reach ed config w"
  shows "rl_activeConnections (sy_relay w) = int (length (filter (\<lambda>k. \<not> cn_ipReleased k) (sy_conns w))) \<and>
    (\<forall>ip. tally (rl_connectionsByIP (sy_relay w)) ip = int (open_count ip_slot (sy_conns w) ip)) \<and>
    (\<forall>p. tally (rl_connectionsByPair (sy_relay w)) p = int (open_count pair_slot (sy_conns w) p)) \<and>
    rl_activeConnections (sy_relay w) \<le> rc_MaxConnections (rl_config (sy_relay w)) \<and>
    (\<forall>ip. tally (rl_connectionsByIP (sy_relay w)) ip \<le> rc_MaxConnectionsPerIP (rl_config (sy_relay w))) \<and>
    (\<forall>p. tally (rl_connectionsByPair (sy_relay w)) p \<le> rc_MaxConnectionsPerPair (rl_config (sy_relay w))) \<and>
    (\<forall>p. CHR ''|'' \<notin> set p \<longrightarrow> pendingForPair (sy_relay w) p \<le> rl_maxPendingPerPair (sy_relay w)) \<and>
    ((\<forall>k\<in>set (sy_conns w). ip_slot k = None \<and> pair_slot k = None) \<longrightarrow>
       rl_activeConnections (sy_relay w) = 0 \<and> rl_connectionsByIP (sy_relay w) = [] \<and> rl_connectionsByPair (sy_relay w) = [])"
proof -
  have inv: "counters_ok w" "pending_ok (sy_relay w)" using relay_reach_inv [OF assms] by (simp_all add: relay_inv_def)
  have "rl_activeConnections (sy_relay w) = 0 \<and> rl_connectionsByIP (sy_relay w) = [] \<and> rl_connectionsByPair (sy_relay w) = []"
    if closed: "\<forall>k\<in>set (sy_conns w). ip_slot k = None \<and> pair_slot k = None"
  proof -
    have "filter (\<lambda>k. \<not> cn_ipReleased k) (sy_conns w) = []"
      using closed by (auto simp: filter_empty_conv ip_slot_def split: if_splits)
    with inv closed show ?thesis
      using tally_counts_empty [of _ ip_slot "sy_conns w"] tally_counts_empty [of _ pair_slot "sy_conns w"]
      by (simp add: counters_ok_def)
  qed
  then show ?thesis using inv unfolding counters_ok_def tally_counts_def limits_ok_def pending_ok_def by blast
qed

theorem relay_counters_exact_witness:
  "tally (rl_connectionsByPair (sy_relay paired_system)) sample_pair = 2 \<and> rl_activeConnections (sy_relay paired_system) = 2"
proof -
  have "int (open_count pair_slot (sy_conns paired_system) sample_pair) = 2"
    "int (length (filter (\<lambda>k. \<not> cn_ipReleased k) (sy_conns paired_system))) = 2" by code_simp+
  with relay_counters_exact [OF sample_reach(1)] show ?thesis by simp
qed

text \<open>
  C26. The relay only ever connects the two ends of one stream: in every reachable state, two
  connections that are paired or relayed, by both copiers or the one that is left, are a requester and
  a provider with the same pair, stream and target, whose pair identity was authenticated; and no
  connection is part of two streams, waiting or relayed.
\<close>

theorem relay_pairs_matching:
  assumes "relay_reach ed config w"
    and "Pairing l r \<in> set (sy_tasks w) \<or> Relaying l r \<in> set (sy_tasks w) \<or> Draining l r \<in> set (sy_tasks w)"
  shows "(\<exists>h h'. cn_hello (sy_conns w ! l) = Some h \<and> cn_hello (sy_conns w ! r) = Some h' \<and>
      hs_Role h = ''requester'' \<and> hs_Role h' = ''provider'' \<and> hs_PairID h = hs_PairID h' \<and>
      hs_StreamID h = hs_StreamID h' \<and> hs_Target h = hs_Target h' \<and> authentic h \<and> authentic h') \<and>
    distinct (concat (map task_conns (sy_tasks w)) @ concat (map stream_conns (rl_streams (sy_relay w))))"
proof -
  have ok: "places_ok w" using relay_reach_inv [OF assms(1)] by (simp add: relay_inv_def)
  have "matched (sy_conns w) l r" using assms(2) task_okD [OF ok] by fastforce
  then obtain h h' where m: "admitted (sy_conns w) l h" "admitted (sy_conns w) r h'"
    "hs_Role h = ''requester''" "hs_Role h' = ''provider''" "hs_PairID h = hs_PairID h'"
    "hs_StreamID h = hs_StreamID h'" "hs_Target h = hs_Target h'" by (auto simp: matched_def)
  then show ?thesis
    using ok admitted_authentic [OF ok m(1)] admitted_authentic [OF ok m(2)]
    by (auto simp: admitted_def places_ok_def holders_def stream_holders_def)
qed

theorem relay_pairs_matching_witness:
  "\<exists>h h'. cn_hello (sy_conns paired_system ! 0) = Some h \<and> cn_hello (sy_conns paired_system ! 1) = Some h' \<and>
     hs_StreamID h = hs_StreamID h'"
proof -
  have "Relaying 0 1 \<in> set (sy_tasks paired_system)" by code_simp
  with relay_pairs_matching [OF sample_reach(1), of 0 1] show ?thesis by blast
qed

text \<open>A \<open>Close\<close> whose \<open>closeOnce\<close> has fired does nothing.\<close>

lemma close_ip_again [simp]: "\<not> ip_open w c \<Longrightarrow> close_ip c (finish t w) = finish t w"
  by (simp add: ip_open_def close_ip_def)

lemma close_pair_again [simp]: "\<not> pair_open w c \<Longrightarrow> close_pair c (finish t w) = finish t w"
  by (auto simp: pair_open_def close_pair_def Let_def split: option.splits)

text \<open>Once the mutex is held for ever, nothing under it changes again.\<close>

lemma blocked_step:
  assumes "relay_step ed w w'" and "sy_mu w"
  shows "sy_mu w' \<and> sy_conns w' = sy_conns w \<and> rl_streams (sy_relay w') = rl_streams (sy_relay w) \<and>
    rl_controls (sy_relay w') = rl_controls (sy_relay w) \<and> rl_activeConnections (sy_relay w') = rl_activeConnections (sy_relay w)"
  using assms(1)
proof (cases rule: relay_step.cases)
  case (run t inp)
  with assms(2) have "\<not> needs_lock w t" by simp
  with run assms(2) show ?thesis
    by (cases t) (auto simp: relay_handle_hello_def handleControl_replace_def handleControl_ready_def handleControl_read_def
        handleControl_replaced_def handleStream_def handleStream_notify_def handleStream_pair_def relayPair_def add_copied_def
        countedConn_Close_def countedConn_Close_outer_def split: option.splits list.splits)
qed (use assms(2) in simp)

lemma blocked_forever:
  "(relay_step ed)\<^sup>*\<^sup>* w w' \<Longrightarrow> sy_mu w \<Longrightarrow> sy_mu w' \<and> sy_conns w' = sy_conns w \<and> rl_streams (sy_relay w') = rl_streams (sy_relay w) \<and>
    rl_controls (sy_relay w') = rl_controls (sy_relay w) \<and> rl_activeConnections (sy_relay w') = rl_activeConnections (sy_relay w)"
  by (induction rule: rtranclp_induct) (auto dest: blocked_step)

text \<open>
  C27. When the timeout of a pending stream fires while its waiting connection is open, the relay stops
  for ever: \<open>expireStream\<close> closes the connection while it holds \<open>r.mu\<close>, and the counter callback of
  the close locks \<open>r.mu\<close> again. From then on no connection is accepted, admitted, paired or closed,
  whatever else runs.
\<close>

theorem stream_expiry_deadlocks_relay:
  assumes "Expiring key ref \<in> set (sy_tasks w)" and "\<not> sy_mu w"
    and "map_of (rl_streams (sy_relay w)) key = Some pending" and "ps_ref pending = ref"
    and "c \<in> set (stream_conns (key, pending))" and "\<not> cn_ipReleased (sy_conns w ! c)"
    and "w' = run_task ed (Expiring key ref) inp (finish (Expiring key ref) w)"
  shows "relay_step ed w w' \<and>
    (\<forall>w''. (relay_step ed)\<^sup>*\<^sup>* w' w'' \<longrightarrow> sy_mu w'' \<and> sy_conns w'' = sy_conns w' \<and>
       rl_streams (sy_relay w'') = rl_streams (sy_relay w') \<and> rl_controls (sy_relay w'') = rl_controls (sy_relay w') \<and>
       rl_activeConnections (sy_relay w'') = rl_activeConnections (sy_relay w'))"
proof -
  have "relay_step ed w w'" unfolding assms(7) using assms(1,2) by (intro relay_step.run) simp_all
  moreover have "sy_mu w'"
    using assms(3-6) unfolding assms(7)
    by (auto simp: expireStream_def close_under_lock_def Let_def stream_conns_def opt_list_def split: option.splits)
  ultimately show ?thesis using blocked_forever by blast
qed

theorem stream_expiry_deadlocks_relay_witness:
  "relay_reach sample_ed sample_config waiting_system \<and>
   (\<exists>w'. relay_step sample_ed waiting_system w' \<and> sy_mu w')"
proof -
  let ?key = "stream_key (sample_hello ''stream'' ''requester'')"
  let ?p = "\<lparr>ps_ref = 0, ps_requester = Some 1, ps_provider = None, ps_created = 0, ps_target = ''provider-host''\<rparr>"
  have "Expiring ?key 0 \<in> set (sy_tasks waiting_system)" "\<not> sy_mu waiting_system"
    "map_of (rl_streams (sy_relay waiting_system)) ?key = Some ?p" "\<not> cn_ipReleased (sy_conns waiting_system ! 1)"
    by code_simp+
  moreover have "ps_ref ?p = 0" "1 \<in> set (stream_conns (?key, ?p))" by (simp_all add: stream_conns_def opt_list_def)
  ultimately show ?thesis
    using stream_expiry_deadlocks_relay [OF _ _ _ _ _ _ refl, of ?key 0 waiting_system ?p 1 sample_ed undefined] sample_reach(2)
    by blast
qed

end
