(* ===== verification/Auth.thy ===== *)
theory Auth
  imports Api Sha256
begin

text \<open>
  Lease tokens (\<open>src/internal/auth/token.go\<close>): issuing, signing and verifying. The JSON encoding of
  the claims (\<open>encoding/json\<close>, driven by reflection) is a record \<open>json_codec\<close> that the operations take;
  \<open>claims_json\<close> is the one law of it that token verification relies on.
\<close>

section \<open>Data\<close>

record json_codec =
  marshal_claims :: "LeaseClaims \<Rightarrow> byte list option"
  unmarshal_claims :: "byte list \<Rightarrow> LeaseClaims option"

text \<open>\<open>json.Unmarshal\<close> undoes \<open>json.Marshal\<close> on these claims.\<close>

definition claims_json :: "json_codec \<Rightarrow> LeaseClaims \<Rightarrow> bool" where
  "claims_json lib c \<longleftrightarrow> (\<exists>bs. marshal_claims lib c = Some bs \<and> unmarshal_claims lib bs = Some c)"

datatype auth_error =
    InvalidLeaseToken
  | InvalidLeaseSignature
  | InvalidLeasePayload
  | InvalidLeaseClaims
  | LeaseExpired
  | RandomFailed
  | MarshalFailed
  | InvalidStageClaims

section \<open>Operations\<close>

text \<open>Seconds since the epoch of a time in nanoseconds.\<close>

definition unix :: "int \<Rightarrow> int" where
  "unix t = t div 1000000000"

definition sign :: "byte list \<Rightarrow> string \<Rightarrow> byte list" where
  "sign secret body = hmac_sha256 secret (string_bytes body)"

text \<open>\<open>rnd\<close> is what \<open>rand.Read\<close> delivers: the 16 nonce bytes, or \<open>None\<close> for an error.\<close>

definition issueClaims :: "json_codec \<Rightarrow> byte list option \<Rightarrow> byte list \<Rightarrow> LeaseClaims \<Rightarrow>
    auth_error + (string \<times> LeaseClaims)" where
  "issueClaims lib rnd secret claims0 =
     (case rnd of
        None \<Rightarrow> Inl RandomFailed
      | Some nonce \<Rightarrow>
          let claims = claims0\<lparr>cl_Nonce := b64_encode nonce\<rparr>
          in (case marshal_claims lib claims of
                None \<Rightarrow> Inl MarshalFailed
              | Some payload \<Rightarrow>
                  let body = b64_encode payload;
                      sig = sign secret body
                  in Inr (body @ ''.'' @ b64_encode sig, claims)))"

definition IssueModel :: "json_codec \<Rightarrow> byte list option \<Rightarrow> int \<Rightarrow> byte list \<Rightarrow> string \<Rightarrow> string \<Rightarrow> string \<Rightarrow>
    int \<Rightarrow> int \<Rightarrow> auth_error + (string \<times> LeaseClaims)" where
  "IssueModel lib rnd now secret nodeID model digest modelSize ttl =
     issueClaims lib rnd secret (zero_claims\<lparr>cl_NodeID := nodeID, cl_Model := model,
       cl_ModelDigest := digest, cl_ModelSize := modelSize, cl_ExpiresAt := unix (now + ttl)\<rparr>)"

definition Issue :: "json_codec \<Rightarrow> byte list option \<Rightarrow> int \<Rightarrow> byte list \<Rightarrow> string \<Rightarrow> string \<Rightarrow> int \<Rightarrow>
    auth_error + (string \<times> LeaseClaims)" where
  "Issue lib rnd now secret nodeID model ttl = IssueModel lib rnd now secret nodeID model '''' 0 ttl"

definition IssueStage :: "json_codec \<Rightarrow> byte list option \<Rightarrow> int \<Rightarrow> byte list \<Rightarrow> string \<Rightarrow> string \<Rightarrow> string \<Rightarrow>
    int \<Rightarrow> string \<Rightarrow> int \<Rightarrow> int \<Rightarrow> int \<Rightarrow> int \<Rightarrow> auth_error + (string \<times> LeaseClaims)" where
  "IssueStage lib rnd now secret nodeID model digest modelSize groupID stageIndex layerStart layerEnd ttl =
     (if groupID = '''' \<or> stageIndex < 0 \<or> layerStart < 0 \<or> layerEnd \<le> layerStart
      then Inl InvalidStageClaims
      else issueClaims lib rnd secret (zero_claims\<lparr>cl_NodeID := nodeID, cl_Model := model,
        cl_ModelDigest := digest, cl_ModelSize := modelSize, cl_GroupID := groupID,
        cl_StageIndex := stageIndex, cl_LayerStart := layerStart, cl_LayerEnd := layerEnd,
        cl_ExpiresAt := unix (now + ttl)\<rparr>))"

definition Verify :: "json_codec \<Rightarrow> int \<Rightarrow> byte list \<Rightarrow> string \<Rightarrow> auth_error + LeaseClaims" where
  "Verify lib now secret token =
     (case split_on CHR ''.'' token of
        [body, sigText] \<Rightarrow>
          (case b64_decode sigText of
             None \<Rightarrow> Inl InvalidLeaseSignature
           | Some sig \<Rightarrow>
               if sig \<noteq> sign secret body then Inl InvalidLeaseSignature
               else (case b64_decode body of
                       None \<Rightarrow> Inl InvalidLeasePayload
                     | Some payload \<Rightarrow>
                         (case unmarshal_claims lib payload of
                            None \<Rightarrow> Inl InvalidLeaseClaims
                          | Some claims \<Rightarrow>
                              if cl_ExpiresAt claims \<le> unix now then Inl LeaseExpired else Inr claims)))
      | _ \<Rightarrow> Inl InvalidLeaseToken)"

text \<open>\<open>hmac.Equal\<close> on the two strings: true exactly when they are equal.\<close>

definition EqualSecret :: "string \<Rightarrow> string \<Rightarrow> bool" where
  "EqualSecret got expected \<longleftrightarrow> string_bytes got = string_bytes expected"

section \<open>Lemmas\<close>

lemma EqualSecret_iff [simp]: "EqualSecret a b \<longleftrightarrow> a = b"
  by (simp add: EqualSecret_def string_bytes_inj)

lemma issueClaims_Inr:
  "issueClaims lib rnd secret c0 = Inr (token, claims) \<longleftrightarrow>
     (\<exists>nonce payload. rnd = Some nonce \<and> claims = c0\<lparr>cl_Nonce := b64_encode nonce\<rparr> \<and>
        marshal_claims lib claims = Some payload \<and>
        token = b64_encode payload @ CHR ''.'' # b64_encode (sign secret (b64_encode payload)))"
  by (auto simp: issueClaims_def Let_def split: option.splits)

lemma Verify_Inr:
  "Verify lib now secret token = Inr claims \<longleftrightarrow>
     (\<exists>body sigText payload. token = body @ CHR ''.'' # sigText \<and>
        CHR ''.'' \<notin> set body \<and> CHR ''.'' \<notin> set sigText \<and>
        b64_decode sigText = Some (sign secret body) \<and> b64_decode body = Some payload \<and>
        unmarshal_claims lib payload = Some claims \<and> unix now < cl_ExpiresAt claims)"
proof
  assume h: "Verify lib now secret token = Inr claims"
  then obtain body sigText where sp: "split_on CHR ''.'' token = [body, sigText]"
    by (auto simp: Verify_def split: list.splits)
  with h show "\<exists>body sigText payload. token = body @ CHR ''.'' # sigText \<and>
        CHR ''.'' \<notin> set body \<and> CHR ''.'' \<notin> set sigText \<and>
        b64_decode sigText = Some (sign secret body) \<and> b64_decode body = Some payload \<and>
        unmarshal_claims lib payload = Some claims \<and> unix now < cl_ExpiresAt claims"
    using split_on_pair [of "CHR ''.''" token body sigText]
    by (auto simp: Verify_def split: option.splits if_splits)
next
  assume "\<exists>body sigText payload. token = body @ CHR ''.'' # sigText \<and>
        CHR ''.'' \<notin> set body \<and> CHR ''.'' \<notin> set sigText \<and>
        b64_decode sigText = Some (sign secret body) \<and> b64_decode body = Some payload \<and>
        unmarshal_claims lib payload = Some claims \<and> unix now < cl_ExpiresAt claims"
  then show "Verify lib now secret token = Inr claims"
    by (auto simp: Verify_def split_on_append split_on_plain)
qed

lemma b64_encode_no_dot: "CHR ''.'' \<notin> set (b64_encode bs)"
  using b64_encode_chars [of "CHR ''.''" bs] by auto

lemma Verify_issueClaims:
  assumes "issueClaims lib rnd secret c0 = Inr (token, claims)" and "claims_json lib claims"
    and "unix now < cl_ExpiresAt claims"
  shows "Verify lib now secret token = Inr claims"
proof -
  from assms(1) obtain payload where "marshal_claims lib claims = Some payload"
    and "token = b64_encode payload @ CHR ''.'' # b64_encode (sign secret (b64_encode payload))"
    by (auto simp: issueClaims_Inr)
  with assms(2,3) show ?thesis
    by (auto simp: Verify_def claims_json_def split_on_append split_on_plain b64_encode_no_dot base64url.dec_enc)
qed

end
