(* ===== verification/Modelcache.thy ===== *)
theory Modelcache
  imports Api Sha256
begin

text \<open>
  The model cache of a host (\<open>src/internal/modelcache/store.go\<close>): models are uploaded in chunks to a
  \<open>.part\<close> file, checked against their SHA-256 digest and renamed. The directory is a map from file
  names to contents. Which system calls fail during an operation is the record \<open>io_faults\<close>. The
  mutex per digest makes the operations on a digest atomic; operations on different digests touch
  different files.
\<close>

section \<open>State\<close>

record Store =
  st_files :: "(string, byte list) gomap"

datatype cache_error =
    InvalidDigest
  | InvalidOffset
  | SizeMismatch
  | OffsetError int
  | ChunkTooLarge
  | ChunkEmpty
  | DigestMismatch
  | CacheIO

text \<open>\<open>ft_copy\<close> is the number of bytes after which \<open>io.Copy\<close> fails, if it does.\<close>

record io_faults =
  ft_statModel :: bool
  ft_statPart :: bool
  ft_open :: bool
  ft_copy :: "nat option"
  ft_close :: bool
  ft_verify :: bool
  ft_rename :: bool
  ft_remove :: bool
  ft_truncate :: bool

definition Path :: "string \<Rightarrow> string" where
  "Path digest = digest @ ''.gguf''"

definition partPath :: "string \<Rightarrow> string" where
  "partPath digest = digest @ ''.part''"

section \<open>Operations\<close>

definition validate :: "string \<Rightarrow> int \<Rightarrow> bool" where
  "validate digest sz =
     (case hex_decode digest of None \<Rightarrow> False | Some decoded \<Rightarrow> length decoded = 32 \<and> 0 < sz)"

text \<open>True when the file can be read and has the digest.\<close>

definition verifyFile :: "io_faults \<Rightarrow> Store \<Rightarrow> string \<Rightarrow> string \<Rightarrow> bool" where
  "verifyFile ft s path digest =
     (case map_of (st_files s) path of
        None \<Rightarrow> False
      | Some content \<Rightarrow> \<not> ft_verify ft \<and> hex_encode (sha256 content) = digest)"

definition os_remove :: "io_faults \<Rightarrow> Store \<Rightarrow> string \<Rightarrow> Store" where
  "os_remove ft s path = (if ft_remove ft then s else s\<lparr>st_files := AList.delete path (st_files s)\<rparr>)"

definition os_truncate :: "io_faults \<Rightarrow> Store \<Rightarrow> string \<Rightarrow> int \<Rightarrow> Store" where
  "os_truncate ft s path offset =
     (case map_of (st_files s) path of
        None \<Rightarrow> s
      | Some content \<Rightarrow>
          if ft_truncate ft then s
          else s\<lparr>st_files := AList.update path (take (nat offset) content) (st_files s)\<rparr>)"

definition os_rename :: "Store \<Rightarrow> string \<Rightarrow> string \<Rightarrow> Store" where
  "os_rename s old new =
     (case map_of (st_files s) old of
        None \<Rightarrow> s
      | Some content \<Rightarrow> s\<lparr>st_files := AList.update new content (AList.delete old (st_files s))\<rparr>)"

definition statusUnlocked :: "io_faults \<Rightarrow> Store \<Rightarrow> string \<Rightarrow> int \<Rightarrow>
    (ModelCacheStatus \<times> cache_error option) \<times> Store" where
  "statusUnlocked ft s digest sz =
     (let status = \<lparr>mc_Digest = digest, mc_Size = sz, mc_Received = 0, mc_Ready = False\<rparr>
      in if ft_statModel ft then ((status, Some CacheIO), s)
         else
           (case map_of (st_files s) (Path digest) of
              Some content \<Rightarrow>
                if int (length content) = sz
                then ((status\<lparr>mc_Received := sz, mc_Ready := True\<rparr>, None), s)
                else ((status, Some SizeMismatch), s)
            | None \<Rightarrow>
                if ft_statPart ft then ((status, Some CacheIO), s)
                else
                  (case map_of (st_files s) (partPath digest) of
                     None \<Rightarrow> ((status, None), s)
                   | Some content \<Rightarrow>
                       let received = int (length content);
                           status' = status\<lparr>mc_Received := received\<rparr>
                       in if received = sz then
                            if \<not> verifyFile ft s (partPath digest) digest
                            then ((status'\<lparr>mc_Received := 0\<rparr>, None), os_remove ft s (partPath digest))
                            else if ft_rename ft then ((status', Some CacheIO), s)
                            else ((status'\<lparr>mc_Ready := True\<rparr>, None), os_rename s (partPath digest) (Path digest))
                          else if sz < received
                          then ((status'\<lparr>mc_Received := 0\<rparr>, None), os_remove ft s (partPath digest))
                          else ((status', None), s))))"

definition zero_status :: ModelCacheStatus where
  "zero_status = \<lparr>mc_Digest = '''', mc_Size = 0, mc_Received = 0, mc_Ready = False\<rparr>"

definition Status :: "io_faults \<Rightarrow> Store \<Rightarrow> string \<Rightarrow> int \<Rightarrow> (ModelCacheStatus \<times> cache_error option) \<times> Store" where
  "Status ft s digest sz =
     (if \<not> validate digest sz then ((zero_status, Some InvalidDigest), s) else statusUnlocked ft s digest sz)"

text \<open>What \<open>io.Copy\<close> of the limited reader writes, and whether it reports an error.\<close>

definition copied :: "io_faults \<Rightarrow> byte list \<Rightarrow> int \<Rightarrow> byte list" where
  "copied ft src chunkLimit =
     (let limited = take (nat (i64 (chunkLimit + 1))) src
      in (case ft_copy ft of None \<Rightarrow> limited | Some n \<Rightarrow> take n limited))"

definition Append :: "io_faults \<Rightarrow> io_faults \<Rightarrow> Store \<Rightarrow> string \<Rightarrow> int \<Rightarrow> int \<Rightarrow> byte list \<Rightarrow> int \<Rightarrow>
    (ModelCacheStatus \<times> cache_error option) \<times> Store" where
  "Append ft0 ft s digest sz offset src chunkLimit =
     (if \<not> validate digest sz then ((zero_status, Some InvalidDigest), s)
      else if offset < 0 \<or> chunkLimit \<le> 0 then ((zero_status, Some InvalidOffset), s)
      else
        (case statusUnlocked ft0 s digest sz of
           ((status, err), s1) \<Rightarrow>
             if err \<noteq> None \<or> mc_Ready status then ((status, err), s1)
             else if mc_Received status \<noteq> offset then ((status, Some (OffsetError (mc_Received status))), s1)
             else if ft_open ft then ((status, Some CacheIO), s1)
             else
               let part = partPath digest;
                   before = (case map_of (st_files s1) part of None \<Rightarrow> [] | Some c \<Rightarrow> c);
                   chunk = copied ft src chunkLimit;
                   written = int (length chunk);
                   s2 = s1\<lparr>st_files := AList.update part (before @ chunk) (st_files s1)\<rparr>
               in if ft_copy ft \<noteq> None then ((status, Some CacheIO), s2)
                  else if ft_close ft then ((status, Some CacheIO), s2)
                  else if chunkLimit < written \<or> sz < i64 (offset + written)
                  then ((status, Some ChunkTooLarge), os_truncate ft s2 part offset)
                  else if written = 0 then ((status, Some ChunkEmpty), s2)
                  else
                    let status' = status\<lparr>mc_Received := i64 (offset + written)\<rparr>
                    in if mc_Received status' = sz then
                         if \<not> verifyFile ft s2 part digest
                         then ((zero_status\<lparr>mc_Digest := digest, mc_Size := sz\<rparr>, Some DigestMismatch), os_remove ft s2 part)
                         else if ft_rename ft then ((status', Some CacheIO), s2)
                         else ((status'\<lparr>mc_Ready := True\<rparr>, None), os_rename s2 part (Path digest))
                       else ((status', None), s2)))"

section \<open>Integrity\<close>

text \<open>Every finished model has the digest it is stored under.\<close>

definition cache_ok :: "Store \<Rightarrow> bool" where
  "cache_ok s \<longleftrightarrow> (\<forall>digest content. map_of (st_files s) (Path digest) = Some content \<longrightarrow> hex_encode (sha256 content) = digest)"

lemma paths [simp]: "Path d = Path e \<longleftrightarrow> d = e" "partPath d = partPath e \<longleftrightarrow> d = e" "Path d \<noteq> partPath e" "partPath e \<noteq> Path d"
proof -
  show "Path d = Path e \<longleftrightarrow> d = e" "partPath d = partPath e \<longleftrightarrow> d = e" by (simp_all add: Path_def partPath_def)
  have "last (Path d) \<noteq> last (partPath e)" by (simp add: Path_def partPath_def)
  then show "Path d \<noteq> partPath e" "partPath e \<noteq> Path d" by metis+
qed

lemma files_remove:
  "map_of (st_files (os_remove ft s p)) q = (if q = p \<and> \<not> ft_remove ft then None else map_of (st_files s) q)"
  by (simp add: os_remove_def delete_conv')

lemma files_truncate:
  "map_of (st_files (os_truncate ft s p n)) q =
     (if q = p \<and> \<not> ft_truncate ft then map_option (take (nat n)) (map_of (st_files s) q) else map_of (st_files s) q)"
  by (auto simp: os_truncate_def update_conv' split: option.split)

lemma files_rename:
  "p \<noteq> q \<Longrightarrow> map_of (st_files s) p = Some c \<Longrightarrow>
     map_of (st_files (os_rename s p q)) x = (if x = q then Some c else if x = p then None else map_of (st_files s) x)"
  by (simp add: os_rename_def update_conv' delete_conv')

lemmas file_simps = files_remove files_truncate files_rename update_conv'

lemma cache_ok_model:
  "cache_ok s \<Longrightarrow> (\<And>d. map_of (st_files s') (Path d) = map_of (st_files s) (Path d)) \<Longrightarrow> cache_ok s'"
  by (simp add: cache_ok_def)

text \<open>A verified part that is renamed keeps the invariant and is the finished model.\<close>

lemma rename_verified:
  assumes "cache_ok s" "verifyFile ft s (partPath digest) digest"
  shows "cache_ok (os_rename s (partPath digest) (Path digest)) \<and>
    (\<exists>content. map_of (st_files s) (partPath digest) = Some content \<and> hex_encode (sha256 content) = digest \<and>
       map_of (st_files (os_rename s (partPath digest) (Path digest))) (Path digest) = Some content)"
proof -
  from assms(2) obtain c where c: "map_of (st_files s) (partPath digest) = Some c" "hex_encode (sha256 c) = digest"
    by (auto simp: verifyFile_def split: option.splits)
  with assms(1) show ?thesis by (auto simp: cache_ok_def file_simps)
qed

text \<open>
  What a host relies on: an operation on the cache keeps its integrity, and one that reports a model
  ready leaves it there with the digest and the size of the request.
\<close>

locale verified_cache =
  fixes op :: "Store \<Rightarrow> string \<Rightarrow> int \<Rightarrow> (ModelCacheStatus \<times> cache_error option) \<times> Store"
  assumes keeps_ok: "cache_ok s \<Longrightarrow> cache_ok (snd (op s digest sz))"
    and ready_content: "cache_ok s \<Longrightarrow> op s digest sz = ((status, None), s') \<Longrightarrow> mc_Ready status \<Longrightarrow>
      \<exists>content. map_of (st_files s') (Path digest) = Some content \<and> int (length content) = sz"
begin

lemma ready_digest:
  assumes "cache_ok s" "op s digest sz = ((status, None), s')" "mc_Ready status"
  shows "\<exists>content. map_of (st_files s') (Path digest) = Some content \<and> int (length content) = sz \<and>
    hex_encode (sha256 content) = digest"
  using ready_content [OF assms] keeps_ok [OF assms(1), of digest sz] assms(2) by (auto simp: cache_ok_def)

end

lemma statusUnlocked_cases:
  assumes "cache_ok s" "statusUnlocked ft s digest sz = ((status, err), s')"
  shows "cache_ok s'"
    and "err = None \<Longrightarrow> mc_Ready status \<Longrightarrow> \<exists>content. map_of (st_files s') (Path digest) = Some content \<and> int (length content) = sz"
    and "\<not> mc_Ready status \<Longrightarrow> st_files s' = st_files s \<or> s' = os_remove ft s (partPath digest)"
proof -
  note def = assms(2) [unfolded statusUnlocked_def Let_def]
  show "cache_ok s'"
    using def assms(1) rename_verified [OF assms(1), of ft digest]
    by (auto split: if_splits option.splits intro: cache_ok_model simp: files_remove)
  show "\<exists>content. map_of (st_files s') (Path digest) = Some content \<and> int (length content) = sz"
    if "err = None" "mc_Ready status"
    using that def rename_verified [OF assms(1), of ft digest] by (auto split: if_splits option.splits)
  show "st_files s' = st_files s \<or> s' = os_remove ft s (partPath digest)" if "\<not> mc_Ready status"
    using that def by (auto split: if_splits option.splits)
qed

interpretation status_op: verified_cache "Status ft" for ft
proof unfold_locales
  show "cache_ok (snd (Status ft s digest sz))" if "cache_ok s" for s digest sz
    using statusUnlocked_cases(1) [OF that, of ft digest sz] that
    by (cases "statusUnlocked ft s digest sz") (auto simp: Status_def)
  show "\<exists>content. map_of (st_files s') (Path digest) = Some content \<and> int (length content) = sz"
    if "cache_ok s" "Status ft s digest sz = ((status, None), s')" "mc_Ready status" for s digest sz status s'
    using that statusUnlocked_cases(2) [OF that(1), of ft digest sz status None s']
    by (auto simp: Status_def split: if_splits)
qed

section \<open>Appending\<close>

abbreviation part_of :: "Store \<Rightarrow> string \<Rightarrow> byte list" where
  "part_of s digest \<equiv> (case map_of (st_files s) (partPath digest) of None \<Rightarrow> [] | Some c \<Rightarrow> c)"

lemma statusUnlocked_received:
  assumes "statusUnlocked ft s digest sz = ((status, None), s')" "\<not> mc_Ready status" "\<not> ft_remove ft"
  shows "mc_Received status = int (length (part_of s' digest))"
    and "part_of s' digest = part_of s digest \<or> part_of s' digest = []"
    and "map_of (st_files s') (Path digest) = None"
  using assms unfolding statusUnlocked_def Let_def
  by (auto simp: files_remove split: if_splits option.splits)

definition put_part :: "Store \<Rightarrow> string \<Rightarrow> byte list \<Rightarrow> Store" where
  "put_part s digest content = s\<lparr>st_files := AList.update (partPath digest) content (st_files s)\<rparr>"

lemma files_put_part: "map_of (st_files (put_part s digest c)) q = (if q = partPath digest then Some c else map_of (st_files s) q)"
  by (simp add: put_part_def update_conv')

lemma copied_bound: "in_i64 chunkLimit \<Longrightarrow> int (length (copied ft src chunkLimit)) \<le> 9223372036854775807"
  by (auto simp: copied_def Let_def in_i64_def i64_def split: option.split)

lemma Append_cases:
  assumes "Append ft0 ft s digest sz offset src chunkLimit = ((status, err), s')"
  obtains (early) "st_files s' = st_files s" "\<not> mc_Ready status" "err \<noteq> None"
  | (after_status) status1 err1 where "statusUnlocked ft0 s digest sz = ((status1, err1), s')" "status = status1"
      "err = err1 \<or> (err \<noteq> None \<and> \<not> mc_Ready status)"
  | (appended) status1 s1 where "statusUnlocked ft0 s digest sz = ((status1, None), s1)" "\<not> mc_Ready status1" "\<not> mc_Ready status"
      "s' \<in> {put_part s1 digest (part_of s1 digest @ copied ft src chunkLimit),
         os_truncate ft (put_part s1 digest (part_of s1 digest @ copied ft src chunkLimit)) (partPath digest) offset,
         os_remove ft (put_part s1 digest (part_of s1 digest @ copied ft src chunkLimit)) (partPath digest)}"
  | (finished) status1 s1 where "statusUnlocked ft0 s digest sz = ((status1, None), s1)" "\<not> mc_Ready status1"
      "mc_Received status1 = offset" "sz = i64 (offset + int (length (copied ft src chunkLimit)))" "0 < sz" "0 \<le> offset"
      "verifyFile ft (put_part s1 digest (part_of s1 digest @ copied ft src chunkLimit)) (partPath digest) digest"
      "s' = os_rename (put_part s1 digest (part_of s1 digest @ copied ft src chunkLimit)) (partPath digest) (Path digest)"
      "err = None" "mc_Ready status"
proof -
  obtain status1 err1 s1 where st: "statusUnlocked ft0 s digest sz = ((status1, err1), s1)" by (metis surj_pair)
  have sz: "0 < sz" if "validate digest sz" using that by (auto simp: validate_def split: option.splits)
  show thesis
    using assms st sz unfolding Append_def Let_def put_part_def [symmetric]
    by (auto simp: zero_status_def split: if_splits intro: early after_status appended finished)
qed

lemma cache_ok_part:
  "cache_ok s \<Longrightarrow> cache_ok (put_part s digest c)"
  "cache_ok s \<Longrightarrow> cache_ok (os_truncate ft s (partPath digest) n)"
  "cache_ok s \<Longrightarrow> cache_ok (os_remove ft s (partPath digest))"
  by (auto simp: files_put_part files_truncate files_remove intro: cache_ok_model)

lemma Append_keeps_ok:
  assumes "cache_ok s"
  shows "cache_ok (snd (Append ft0 ft s digest sz offset src chunkLimit))"
proof -
  obtain status err s' where run: "Append ft0 ft s digest sz offset src chunkLimit = ((status, err), s')" by (metis surj_pair)
  from run have "cache_ok s'"
  proof (cases rule: Append_cases)
    case early
    with assms show ?thesis by (simp add: cache_ok_def)
  next
    case (after_status st1 e1)
    with statusUnlocked_cases(1) [OF assms] show ?thesis by blast
  next
    case (appended st1 s1)
    with statusUnlocked_cases(1) [OF assms appended(1)] show ?thesis by (auto intro: cache_ok_part)
  next
    case (finished st1 s1)
    with statusUnlocked_cases(1) [OF assms finished(1)] rename_verified [OF cache_ok_part(1)] show ?thesis by blast
  qed
  with run show ?thesis by simp
qed

lemma i64_sum_positive:
  assumes "0 \<le> a" "a < 9223372036854775808" "0 \<le> b" "b < 9223372036854775808" "0 < i64 (a + b)"
  shows "i64 (a + b) = a + b"
proof (cases "a + b < 9223372036854775808")
  case True
  with assms show ?thesis by (simp add: i64_id_nonneg)
next
  case False
  have "i64 (a + b) = i64 (a + b - 18446744073709551616)" by (rule i64_cong) simp
  also have "\<dots> = a + b - 18446744073709551616" using assms False by (intro i64_id) (simp add: in_i64_def)
  finally show ?thesis using assms by simp
qed

lemma Append_ready_content:
  assumes "cache_ok s" and run: "Append ft0 ft s digest sz offset src chunkLimit = ((status, None), s')" "mc_Ready status"
    and range: "in_i64 offset" "in_i64 chunkLimit" "\<not> ft_remove ft0"
  shows "\<exists>content. map_of (st_files s') (Path digest) = Some content \<and> int (length content) = sz"
  using run(1)
proof (cases rule: Append_cases)
  case (after_status st1 e1)
  with statusUnlocked_cases(2) [OF assms(1)] run(2) show ?thesis by auto
next
  case (finished st1 s1)
  let ?c = "copied ft src chunkLimit"
  note part = statusUnlocked_received(1) [OF finished(1,2) range(3)]
  have "sz = offset + int (length ?c)"
    using i64_sum_positive [of offset "int (length ?c)"] finished(4-6) range copied_bound [OF range(2), of ft src]
    by (simp add: in_i64_def)
  with part finished rename_verified [OF cache_ok_part(1) [OF statusUnlocked_cases(1) [OF assms(1) finished(1)]] finished(7)]
  show ?thesis by (auto simp: files_put_part)
qed (use run in auto)

interpretation append_op: verified_cache
  "\<lambda>s digest sz. Append (ft0\<lparr>ft_remove := False\<rparr>) ft s digest sz (i64 offset) src (i64 chunkLimit)" for ft0 ft offset src chunkLimit
  by unfold_locales (auto simp: Append_keeps_ok intro!: Append_ready_content)

section \<open>Properties\<close>

definition no_faults :: io_faults where
  "no_faults = \<lparr>ft_statModel = False, ft_statPart = False, ft_open = False, ft_copy = None, ft_close = False,
     ft_verify = False, ft_rename = False, ft_remove = False, ft_truncate = False\<rparr>"

text \<open>Any sequence of calls, each with its own system call failures.\<close>

datatype cache_call =
    StatusCall io_faults string int
  | AppendCall io_faults io_faults string int int "byte list" int

fun cache_run :: "Store \<Rightarrow> cache_call list \<Rightarrow> Store" where
  "cache_run s [] = s"
| "cache_run s (StatusCall ft digest sz # calls) = cache_run (snd (Status ft s digest sz)) calls"
| "cache_run s (AppendCall ft0 ft digest sz offset src limit # calls) =
     cache_run (snd (Append ft0 ft s digest sz offset src limit)) calls"

lemma cache_run_ok: "cache_ok s \<Longrightarrow> cache_ok (cache_run s calls)"
  by (induction s calls rule: cache_run.induct) (simp_all add: status_op.keeps_ok Append_keeps_ok)

text \<open>Uploading chunk after chunk, each at the offset the cache reports.\<close>

fun upload :: "Store \<Rightarrow> string \<Rightarrow> int \<Rightarrow> int \<Rightarrow> byte list list \<Rightarrow> int \<Rightarrow> (ModelCacheStatus \<times> cache_error option) \<times> Store" where
  "upload s digest sz chunkLimit [] offset = Status no_faults s digest sz"
| "upload s digest sz chunkLimit (chunk # chunks) offset =
     (case Append no_faults no_faults s digest sz offset chunk chunkLimit of
        ((status, None), s') \<Rightarrow> upload s' digest sz chunkLimit chunks (mc_Received status)
      | (res, s') \<Rightarrow> (res, s'))"

lemma validate_digest: "validate (hex_encode (sha256 content)) (int (length content)) = (content \<noteq> [])"
  by (simp add: validate_def hexadecimal.dec_enc)

lemma Append_chunk:
  assumes digest: "digest = hex_encode (sha256 content)" and content: "content = done' @ chunk @ rest" "chunk \<noteq> []"
    and limit: "int (length chunk) \<le> chunkLimit" "chunkLimit < 9223372036854775807" "length content < 9223372036854775807"
    and files: "map_of (st_files s) (Path digest) = None" "part_of s digest = done'"
  shows "Append no_faults no_faults s digest (int (length content)) (int (length done')) chunk chunkLimit =
    (if rest = [] then ((\<lparr>mc_Digest = digest, mc_Size = int (length content), mc_Received = int (length content), mc_Ready = True\<rparr>, None),
        os_rename (put_part s digest content) (partPath digest) (Path digest))
     else ((\<lparr>mc_Digest = digest, mc_Size = int (length content), mc_Received = int (length (done' @ chunk)), mc_Ready = False\<rparr>, None),
        put_part s digest (done' @ chunk)))"
proof -
  have v: "validate digest (int (length content))" unfolding digest validate_digest using content by simp
  have lt: "int (length done') < int (length content)" using content by (cases chunk) simp_all
  have st: "statusUnlocked no_faults s digest (int (length content)) =
      ((\<lparr>mc_Digest = digest, mc_Size = int (length content), mc_Received = int (length done'), mc_Ready = False\<rparr>, None), s)"
    using files lt by (auto simp: statusUnlocked_def no_faults_def split: option.splits)
  have "i64 (chunkLimit + 1) = chunkLimit + 1" using limit by (intro i64_id) (simp add: in_i64_def)
  then have cp: "copied no_faults chunk chunkLimit = chunk" using limit(1) by (simp add: copied_def no_faults_def)
  have sum: "i64 (int (length done') + int (length chunk)) = int (length (done' @ chunk))"
    using limit(3) content by (simp add: i64_id_nonneg)
  have vf: "verifyFile no_faults (put_part s digest content) (partPath digest) digest"
    by (simp add: verifyFile_def files_put_part no_faults_def digest)
  have "length content = length done' + length chunk \<longleftrightarrow> rest = []" using content by simp
  moreover have "0 < chunkLimit" using limit(1) content(2) by (cases chunk) simp_all
  ultimately show ?thesis
    using v st cp sum limit(1) content files vf
    by (auto simp: Append_def Let_def put_part_def [symmetric] no_faults_def)
qed

lemma upload_chunks:
  assumes "digest = hex_encode (sha256 content)" "content = done' @ concat chunks" "chunks \<noteq> []"
    "\<forall>c\<in>set chunks. c \<noteq> [] \<and> int (length c) \<le> chunkLimit"
    "chunkLimit < 9223372036854775807" "length content < 9223372036854775807"
    "map_of (st_files s) (Path digest) = None" "part_of s digest = done'"
  shows "\<exists>s'. upload s digest (int (length content)) chunkLimit chunks (int (length done')) =
      ((\<lparr>mc_Digest = digest, mc_Size = int (length content), mc_Received = int (length content), mc_Ready = True\<rparr>, None), s') \<and>
    map_of (st_files s') (Path digest) = Some content \<and> map_of (st_files s') (partPath digest) = None"
  using assms(2-4,7,8)
proof (induction chunks arbitrary: s done')
  case (Cons c chunks)
  note step = Append_chunk [OF assms(1), of done' c "concat chunks" chunkLimit s]
  show ?case
  proof (cases "chunks = []")
    case True
    let ?s = "os_rename (put_part s digest content) (partPath digest) (Path digest)"
    have f: "map_of (st_files ?s) (Path digest) = Some content" "map_of (st_files ?s) (partPath digest) = None"
      by (simp_all add: files_rename files_put_part)
    moreover have "validate digest (int (length content))"
      unfolding assms(1) validate_digest using Cons.prems True by simp
    ultimately have "Status no_faults ?s digest (int (length content)) =
      ((\<lparr>mc_Digest = digest, mc_Size = int (length content), mc_Received = int (length content), mc_Ready = True\<rparr>, None), ?s)"
      by (simp add: Status_def statusUnlocked_def no_faults_def)
    moreover have "Append no_faults no_faults s digest (int (length content)) (int (length done')) c chunkLimit =
      ((\<lparr>mc_Digest = digest, mc_Size = int (length content), mc_Received = int (length content), mc_Ready = True\<rparr>, None), ?s)"
      using step Cons.prems assms(5,6) True by simp
    ultimately show ?thesis using f True by simp
  next
    case False
    then have "concat chunks \<noteq> []" using Cons.prems by auto
    with step Cons.prems assms(5,6)
    have "Append no_faults no_faults s digest (int (length content)) (int (length done')) c chunkLimit =
      ((\<lparr>mc_Digest = digest, mc_Size = int (length content), mc_Received = int (length (done' @ c)), mc_Ready = False\<rparr>, None),
        put_part s digest (done' @ c))" by auto
    moreover from Cons.IH [of "done' @ c" "put_part s digest (done' @ c)"] Cons.prems False
    have "\<exists>s'. upload (put_part s digest (done' @ c)) digest (int (length content)) chunkLimit chunks (int (length (done' @ c))) =
      ((\<lparr>mc_Digest = digest, mc_Size = int (length content), mc_Received = int (length content), mc_Ready = True\<rparr>, None), s') \<and>
      map_of (st_files s') (Path digest) = Some content \<and> map_of (st_files s') (partPath digest) = None"
      by (simp add: files_put_part)
    ultimately show ?thesis by (simp del: length_append)
  qed
qed simp

text \<open>
  C21. The cache serves only what was asked for: after any sequence of status and upload calls on an
  empty cache, with any data and with system calls failing anywhere, every finished model has the
  SHA-256 digest it is stored under; and a status that reports a model ready, without an error, has
  the model there with that digest and the size of the request.
\<close>

theorem cache_integrity:
  assumes "s = cache_run \<lparr>st_files = []\<rparr> calls"
  shows "(\<forall>digest content. map_of (st_files s) (Path digest) = Some content \<longrightarrow> hex_encode (sha256 content) = digest) \<and>
    (\<forall>ft digest sz status s'. Status ft s digest sz = ((status, None), s') \<and> mc_Ready status \<longrightarrow>
       (\<exists>content. map_of (st_files s') (Path digest) = Some content \<and> int (length content) = sz \<and>
          hex_encode (sha256 content) = digest))"
proof -
  have ok: "cache_ok s" unfolding assms by (rule cache_run_ok) (simp add: cache_ok_def)
  then show ?thesis using status_op.ready_digest [OF ok] by (auto simp: cache_ok_def)
qed

theorem cache_integrity_witness:
  "\<exists>content. map_of (st_files (cache_run \<lparr>st_files = []\<rparr>
       [AppendCall no_faults no_faults (hex_encode (sha256 [1, 2, 3])) 3 0 [1, 2, 3] 10]))
       (Path (hex_encode (sha256 [1, 2, 3]))) = Some content \<and>
     hex_encode (sha256 content) = hex_encode (sha256 [1, 2, 3])"
proof -
  let ?digest = "hex_encode (sha256 [1, 2, 3])"
  let ?calls = "[AppendCall no_faults no_faults ?digest 3 0 [1, 2, 3] 10]"
  have "map_of (st_files (cache_run \<lparr>st_files = []\<rparr> ?calls)) (Path ?digest) = Some [1, 2, 3]"
    using Append_chunk [OF refl, of "[1, 2, 3]" "[]" "[1, 2, 3]" "[]" 10 "\<lparr>st_files = []\<rparr>"]
    by (simp add: files_rename files_put_part)
  with cache_integrity [OF refl, of ?calls] show ?thesis by blast
qed

text \<open>
  Uploads complete and resume: whatever part of a model the cache already holds, sending the
  rest in non-empty chunks of at most the limit, each at the offset the cache reports, ends with the
  model ready, stored with exactly its content, and no partial file left.
\<close>

theorem upload_resumes_and_completes:
  assumes "digest = hex_encode (sha256 content)" and "content = held @ concat chunks" and "chunks \<noteq> []"
    and "\<forall>c\<in>set chunks. c \<noteq> [] \<and> int (length c) \<le> chunkLimit"
    and "chunkLimit < 9223372036854775807" and "length content < 9223372036854775807"
    and "map_of (st_files s) (Path digest) = None" and "part_of s digest = held"
  shows "\<exists>s'. upload s digest (int (length content)) chunkLimit chunks (int (length held)) =
      ((\<lparr>mc_Digest = digest, mc_Size = int (length content), mc_Received = int (length content), mc_Ready = True\<rparr>, None), s') \<and>
    map_of (st_files s') (Path digest) = Some content \<and> map_of (st_files s') (partPath digest) = None"
  using assms by (rule upload_chunks)

theorem upload_resumes_and_completes_witness:
  "\<exists>s'. upload \<lparr>st_files = [(partPath (hex_encode (sha256 [1, 2, 3, 4])), [1])]\<rparr> (hex_encode (sha256 [1, 2, 3, 4])) 4 2 [[2, 3], [4]] 1 =
     ((\<lparr>mc_Digest = hex_encode (sha256 [1, 2, 3, 4]), mc_Size = 4, mc_Received = 4, mc_Ready = True\<rparr>, None), s') \<and>
   map_of (st_files s') (Path (hex_encode (sha256 [1, 2, 3, 4]))) = Some [1, 2, 3, 4]"
  using upload_resumes_and_completes [OF refl, of "[1, 2, 3, 4]" "[1]" "[[2, 3], [4]]" 2
      "\<lparr>st_files = [(partPath (hex_encode (sha256 [1, 2, 3, 4])), [1])]\<rparr>"]
  by auto

lemma hex_encode_lower: "c \<in> set (hex_encode bs) \<Longrightarrow> c \<notin> set ''ABCDEF''"
proof -
  assume "c \<in> set (hex_encode bs)"
  then obtain b where "b \<in> set bs" "c = hex_digit (unat b div 16) \<or> c = hex_digit (unat b mod 16)"
    by (auto simp: hex_encode_def)
  moreover have "unat b div 16 < 16" by (rule less_mult_imp_div_less) simp
  moreover have "unat b mod 16 < 16" by simp
  ultimately obtain n where n: "n < 16" "c = hex_digit n" by blast
  then have "of_char c = (if n < 10 then n + 48 else n + 87)" by (simp add: hex_digit_def)
  moreover have "65 \<le> (of_char c :: nat) \<and> (of_char c :: nat) \<le> 70" if "c \<in> set ''ABCDEF''" using that by auto
  ultimately show ?thesis using n(1) by (auto split: if_splits)
qed

text \<open>
  A digest with an upper-case hexadecimal digit passes validation but can never be completed:
  from any intact cache no upload call reports its model ready, since the comparison is with the
  lower-case digest.
\<close>

theorem upper_case_digest_never_ready:
  assumes "cache_ok s" and "c \<in> set digest" and "c \<in> set ''ABCDEF''"
    and "in_i64 offset" and "in_i64 chunkLimit" and "\<not> ft_remove ft0"
    and "Append ft0 ft s digest sz offset src chunkLimit = ((status, None), s')"
  shows "\<not> mc_Ready status"
proof
  assume "mc_Ready status"
  from Append_ready_content [OF assms(1,7) this assms(4-6)] Append_keeps_ok [OF assms(1), of ft0 ft digest sz offset src chunkLimit]
  obtain content where "hex_encode (sha256 content) = digest" using assms(7) by (auto simp: cache_ok_def)
  with hex_encode_lower assms(2,3) show False by blast
qed

definition upper_digest :: string where
  "upper_digest = concat (replicate 32 ''AB'')"

lemma validate_upper: "validate upper_digest 5"
proof -
  have "hex_decode (concat (replicate n ''AB'')) = Some (replicate n 171)" for n
    by (induction n) (simp_all add: hex_value_def)
  then show ?thesis by (simp add: validate_def upper_digest_def)
qed

theorem upper_case_digest_never_ready_witness:
  "\<exists>status s'. Append no_faults no_faults \<lparr>st_files = []\<rparr> upper_digest 5 0 [1, 2] 10 = ((status, None), s') \<and>
     mc_Received status = 2 \<and> \<not> mc_Ready status"
proof -
  let ?run = "Append no_faults no_faults \<lparr>st_files = []\<rparr> upper_digest 5 0 [1, 2] 10"
  have run: "\<exists>status s'. ?run = ((status, None), s') \<and> mc_Received status = 2"
    by (simp add: Append_def validate_upper statusUnlocked_def no_faults_def copied_def i64_def)
  then obtain status s' where st: "?run = ((status, None), s')" "mc_Received status = 2" by blast
  have "cache_ok \<lparr>st_files = []\<rparr>" "CHR ''A'' \<in> set upper_digest" "CHR ''A'' \<in> set ''ABCDEF''"
    "in_i64 0" "in_i64 10" "\<not> ft_remove no_faults"
    by (simp_all add: cache_ok_def upper_digest_def in_i64_def no_faults_def)
  from upper_case_digest_never_ready [OF this st(1)] st show ?thesis by blast
qed

end
