(* ===== verification/Go_Strings.thy ===== *)
theory Go_Strings
  imports Bytes
begin

text \<open>
  What the components use of Go's packages \<open>strings\<close>, \<open>bufio\<close> and \<open>net\<close>: trimming, cutting and joining of
  strings, the line scanner, and host-port addresses. A string is its list of bytes; white space and
  letter case are modelled for ASCII.
\<close>

section \<open>Trimming, cutting, joining\<close>

definition is_space :: "char \<Rightarrow> bool" where
  "is_space c \<longleftrightarrow> (of_char c :: nat) \<in> {9, 10, 11, 12, 13, 32}"

definition TrimSpace :: "string \<Rightarrow> string" where
  "TrimSpace s = rev (dropWhile is_space (rev (dropWhile is_space s)))"

definition strings_TrimRight_slash :: "string \<Rightarrow> string" where
  "strings_TrimRight_slash s = rev (dropWhile (\<lambda>c. c = CHR ''/'') (rev s))"

definition TrimPrefix_tcp :: "string \<Rightarrow> string" where
  "TrimPrefix_tcp s = (if take 6 s = ''tcp://'' then drop 6 s else s)"

text \<open>\<open>strings.Cut\<close> at the first occurrence of a character.\<close>

definition Cut :: "char \<Rightarrow> string \<Rightarrow> (string \<times> string) option" where
  "Cut sep s = (if sep \<in> set s then Some (takeWhile (\<lambda>c. c \<noteq> sep) s, tl (dropWhile (\<lambda>c. c \<noteq> sep) s)) else None)"

definition ToLower :: "string \<Rightarrow> string" where
  "ToLower s = map (\<lambda>c. if 65 \<le> (of_char c :: nat) \<and> (of_char c :: nat) \<le> 90 then char_of ((of_char c :: nat) + 32) else c) s"

definition join_comma :: "string list \<Rightarrow> string" where
  "join_comma xs = (case xs of [] \<Rightarrow> '''' | x # rest \<Rightarrow> x @ concat (map (\<lambda>y. '','' @ y) rest))"

text \<open>\<open>strings.Contains\<close>.\<close>

fun strings_Contains :: "string \<Rightarrow> string \<Rightarrow> bool" where
  "strings_Contains s [] = True"
| "strings_Contains [] m = False"
| "strings_Contains (c # s) m = (take (length m) (c # s) = m \<or> strings_Contains s m)"

text \<open>\<open>strings.Fields\<close>: the maximal runs without white space.\<close>

function strings_Fields :: "string \<Rightarrow> string list" where
  "strings_Fields s =
     (let t = dropWhile is_space s
      in if t = [] then [] else takeWhile (\<lambda>c. \<not> is_space c) t # strings_Fields (dropWhile (\<lambda>c. \<not> is_space c) t))"
  by pat_completeness auto
termination
proof (relation "measure length")
  fix s t assume "t = dropWhile is_space s" "t \<noteq> []"
  then have "\<not> is_space (hd t)" using hd_dropWhile by metis
  with \<open>t \<noteq> []\<close> have "length (dropWhile (\<lambda>c. \<not> is_space c) t) < length t"
    by (cases t) (auto simp: le_imp_less_Suc length_dropWhile_le)
  moreover have "length t \<le> length s" using \<open>t = _\<close> by (simp add: length_dropWhile_le)
  ultimately show "(dropWhile (\<lambda>c. \<not> is_space c) t, s) \<in> measure length" by simp
qed simp

declare strings_Fields.simps [simp del]

section \<open>The line scanner\<close>

text \<open>
  \<open>bufio.Scanner\<close> with its defaults: lines without their newline and without one carriage return before
  it, a last line only when it is not empty. A line of 65536 bytes or more stops it with an error.
\<close>

definition drop_cr :: "string \<Rightarrow> string" where
  "drop_cr s = (if s \<noteq> [] \<and> last s = CHR 0x0D then butlast s else s)"

definition raw_lines :: "string \<Rightarrow> string list" where
  "raw_lines s = (let ls = split_on CHR 0x0A s in if last ls = [] then butlast ls else ls)"

definition scan_lines :: "string \<Rightarrow> string list \<times> bool" where
  "scan_lines s =
     (let ls = raw_lines s; ok = takeWhile (\<lambda>l. length l < 65536) ls
      in (map drop_cr ok, length ok < length ls))"

section \<open>Host-port addresses\<close>

datatype addr_error = MissingPort | TooManyColons | MissingBracket | UnexpectedBracket

definition find_char :: "char \<Rightarrow> string \<Rightarrow> nat option" where
  "find_char c s = (if c \<in> set s then Some (length (takeWhile (\<lambda>x. x \<noteq> c) s)) else None)"

definition SplitHostPort :: "string \<Rightarrow> addr_error + string \<times> string" where
  "SplitHostPort hostport =
     (if CHR '':'' \<notin> set hostport then Inl MissingPort
      else
        let i = length hostport - 1 - length (takeWhile (\<lambda>x. x \<noteq> CHR '':'') (rev hostport));
            finish = (\<lambda>host j k.
              if CHR ''['' \<in> set (drop j hostport) \<or> CHR '']'' \<in> set (drop k hostport) then Inl UnexpectedBracket
              else Inr (host, drop (Suc i) hostport))
        in if hostport ! 0 = CHR ''[''
           then (case find_char CHR '']'' hostport of
                   None \<Rightarrow> Inl MissingBracket
                 | Some end' \<Rightarrow>
                     if end' + 1 = length hostport then Inl MissingPort
                     else if end' + 1 = i then finish (take (end' - 1) (drop 1 hostport)) 1 (end' + 1)
                     else if hostport ! (end' + 1) = CHR '':'' then Inl TooManyColons
                     else Inl MissingPort)
           else
             let host = take i hostport
             in if CHR '':'' \<in> set host then Inl TooManyColons else finish host 0 0)"

definition JoinHostPort :: "string \<Rightarrow> string \<Rightarrow> string" where
  "JoinHostPort host port =
     (if CHR '':'' \<in> set host \<or> CHR ''%'' \<in> set host then ''['' @ host @ '']:'' @ port else host @ '':'' @ port)"

section \<open>Lemmas\<close>

lemma is_space_digit: "is_digit c \<Longrightarrow> \<not> is_space c"
  by (auto simp: is_digit_def is_space_def)

lemma TrimSpace_id: "(s \<noteq> [] \<Longrightarrow> \<not> is_space (hd s) \<and> \<not> is_space (last s)) \<Longrightarrow> TrimSpace s = s"
  using dropWhile_eq_self_iff [of is_space s] dropWhile_eq_self_iff [of is_space "rev s"]
  by (auto simp: TrimSpace_def hd_rev)

lemma TrimSpace_leading: "is_space c \<Longrightarrow> TrimSpace (c # s) = TrimSpace s"
  by (simp add: TrimSpace_def)

text \<open>Joining a host without brackets and a port without colons, and splitting again.\<close>

lemma SplitHostPort_Join:
  assumes "CHR ''['' \<notin> set host" "CHR '']'' \<notin> set host" "CHR '':'' \<notin> set port" "CHR ''['' \<notin> set port" "CHR '']'' \<notin> set port"
  shows "SplitHostPort (JoinHostPort host port) = Inr (host, port)"
proof (cases "CHR '':'' \<in> set host \<or> CHR ''%'' \<in> set host")
  case True
  have "takeWhile (\<lambda>x. x \<noteq> CHR '':'') (rev port @ CHR '':'' # CHR '']'' # rev host @ ''['') = rev port"
    using assms(3) by (intro takeWhile_tail [where P = "\<lambda>x. x \<noteq> CHR '':''" and x = "CHR '':''", THEN trans]) auto
  moreover have "takeWhile (\<lambda>x. x \<noteq> CHR '']'') (''['' @ host @ '']:'' @ port) = ''['' @ host"
    using assms(2) by (simp add: takeWhile_append)
  ultimately show ?thesis using True assms
    by (simp add: SplitHostPort_def JoinHostPort_def Let_def find_char_def)
next
  case False
  have "takeWhile (\<lambda>x. x \<noteq> CHR '':'') (rev port @ CHR '':'' # rev host) = rev port"
    using assms(3) by (simp add: takeWhile_append)
  moreover have "(host @ CHR '':'' # port) ! 0 \<noteq> CHR ''[''" using assms(1) by (cases host) auto
  ultimately show ?thesis using False assms
    by (simp add: SplitHostPort_def JoinHostPort_def Let_def nth_append)
qed

end
