(* ===== verification/Host.thy ===== *)
theory Host
  imports Auth Modelcache Go_Strings
begin

text \<open>
  The host (\<open>src/internal/host/server.go\<close>, \<open>io.go\<close>, and \<open>Bearer\<close> of \<open>src/internal/httpx/httpx.go\<close>): its
  configuration, the routes a requester uses with a lease token, and the limit of concurrent tasks.
  The JSON codec of request bodies, the managed runtime and the HTTP runtime behind the host are
  parameters; the model store is the one of theory \<open>Modelcache\<close>.
\<close>

section \<open>Configuration\<close>

text \<open>\<open>ManagedRuntime\<close>: \<open>Available\<close> gives an error message or nothing, \<open>Ensure\<close> an error or a URL.\<close>

record ManagedRuntime =
  mr_Available :: "string option"
  mr_Ensure :: "string \<Rightarrow> string \<Rightarrow> string \<Rightarrow> string + string"

record HostConfig =
  hc_NodeID :: string
  hc_Endpoint :: string
  hc_ControlURL :: string
  hc_Secret :: string
  hc_RegistrationSecret :: string
  hc_LeaseSecret :: string
  hc_Models :: "string list"
  hc_RuntimeURL :: string
  hc_RuntimeKind :: string
  hc_RuntimeModel :: string
  hc_Inventory :: HardwareInventory
  hc_ModelStore :: bool
  hc_RuntimeManager :: "ManagedRuntime option"
  hc_MaxUploadChunk :: int
  hc_Scope :: string
  hc_MaxConcurrency :: int
  hc_DistributedReady :: bool
  hc_StageEndpoint :: string

record HostServer =
  hv_cfg :: HostConfig
  hv_store :: Store
  hv_seq :: "64 word"
  hv_activeTasks :: int

definition default_string :: "string \<Rightarrow> string \<Rightarrow> string" where
  "default_string s d = (if s = '''' then d else s)"

definition New :: "HostConfig \<Rightarrow> Store \<Rightarrow> HostServer" where
  "New cfg store =
     \<lparr>hv_cfg = cfg\<lparr>
        hc_RegistrationSecret := default_string (hc_RegistrationSecret cfg) (hc_Secret cfg),
        hc_LeaseSecret := default_string (hc_LeaseSecret cfg) (hc_Secret cfg),
        hc_RuntimeKind := default_string (hc_RuntimeKind cfg)
          (if hc_RuntimeManager cfg \<noteq> None then ''managed-llama.cpp''
           else if hc_RuntimeURL cfg = '''' then ''mock'' else ''openai-compatible''),
        hc_MaxUploadChunk := (if hc_MaxUploadChunk cfg \<le> 0 then 8388608 else hc_MaxUploadChunk cfg),
        hc_Scope := default_string (hc_Scope cfg) ''remote'',
        hc_MaxConcurrency := (if hc_MaxConcurrency cfg \<le> 0 then 1 else hc_MaxConcurrency cfg)\<rparr>,
      hv_store = store, hv_seq = 0, hv_activeTasks = 0\<rparr>"

section \<open>Requests and replies\<close>

text \<open>\<open>rq_body = None\<close>: the body cannot be read.\<close>

record http_request =
  rq_post :: bool
  rq_authorization :: string
  rq_modelDigest :: string
  rq_uploadOffset :: string
  rq_digest :: string
  rq_body :: "byte list option"

record chat_request =
  cr_Model :: string
  cr_Messages :: "string list"
  cr_Stream :: bool

text \<open>
  What the host does with JSON bodies: the \<open>model\<close> of a request, a whole chat request (with each
  message reduced to its \<open>messageText\<close>), and a body with its \<open>model\<close> replaced.
\<close>

record body_codec =
  probe_model :: "byte list \<Rightarrow> string option"
  decode_chat :: "byte list \<Rightarrow> chat_request option"
  replace_model :: "string \<Rightarrow> byte list \<Rightarrow> byte list option"

text \<open>
  The HTTP runtime: the status and body it answers at a URL to a body, or \<open>None\<close> for no answer. A
  response body is what its reads give: bytes, and whether the read ends it with an error or at its end.
\<close>

type_synonym body_reads = "(byte list \<times> bool) list"

type_synonym http_runtime = "string \<Rightarrow> byte list \<Rightarrow> (nat \<times> body_reads) option"

datatype host_reply =
    HostError nat string "(string \<times> string) list"
  | CacheStatus ModelCacheStatus
  | ModelList "string list"
  | Completion string string string bool
  | RuntimeAnswer nat "byte list"

definition Bearer :: "string \<Rightarrow> string" where
  "Bearer v = (if length v \<le> 7 \<or> take 7 v \<noteq> ''Bearer '' then '''' else drop 7 v)"

definition readBody :: "http_request \<Rightarrow> byte list option" where
  "readBody rq = map_option (take 4194304) (rq_body rq)"

text \<open>The loop of \<open>copyResponse\<close>: every read is written before its end is looked at.\<close>

fun copyResponse :: "body_reads \<Rightarrow> byte list" where
  "copyResponse [] = []"
| "copyResponse ((chunk, ended) # reads) = chunk @ (if ended then [] else copyResponse reads)"

section \<open>Runtime status and registration\<close>

text \<open>\<open>health\<close>: the status the runtime's health check returns, or an error message.\<close>

definition RuntimeStatus_of :: "HostConfig \<Rightarrow> string + nat \<times> string \<Rightarrow> RuntimeStatus" where
  "RuntimeStatus_of cfg health =
     (let status = \<lparr>rt_Kind = hc_RuntimeKind cfg, rt_URL = hc_RuntimeURL cfg, rt_Ready = False, rt_Message = ''''\<rparr>
      in (case hc_RuntimeManager cfg of
            Some m \<Rightarrow>
              (case mr_Available m of
                 Some err \<Rightarrow> status\<lparr>rt_Message := err\<rparr>
               | None \<Rightarrow> status\<lparr>rt_Ready := True, rt_Message := ''managed runtime ready to load uploaded models''\<rparr>)
          | None \<Rightarrow>
              if hc_RuntimeURL cfg = '''' then status\<lparr>rt_Ready := True, rt_Message := ''built-in mock runtime''\<rparr>
              else (case health of
                      Inl err \<Rightarrow> status\<lparr>rt_Message := err\<rparr>
                    | Inr (code, text) \<Rightarrow>
                        if code div 100 = 2 then status\<lparr>rt_Ready := True, rt_Message := ''runtime healthy''\<rparr>
                        else status\<lparr>rt_Message := ''runtime returned '' @ text\<rparr>)))"

text \<open>The registration \<open>Register\<close> sends, the URL it goes to and the secret it carries.\<close>

definition Register :: "HostServer \<Rightarrow> string + nat \<times> string \<Rightarrow> NodeRegistration \<times> string \<times> string" where
  "Register s health =
     (let cfg = hv_cfg s; runtimeStatus = RuntimeStatus_of cfg health
      in (\<lparr>reg_NodeID = hc_NodeID cfg, reg_Endpoint = hc_Endpoint cfg, reg_Models = hc_Models cfg,
           reg_Hardware = hc_Inventory cfg, reg_Runtime = runtimeStatus, reg_Available = rt_Ready runtimeStatus,
           reg_AcceptsModelUploads = hc_ModelStore cfg, reg_Scope = hc_Scope cfg,
           reg_MaxConcurrency = hc_MaxConcurrency cfg, reg_ActiveTasks = hv_activeTasks s,
           reg_DistributedReady = hc_DistributedReady cfg, reg_StageEndpoint = hc_StageEndpoint cfg\<rparr>,
          strings_TrimRight_slash (hc_ControlURL cfg) @ ''/v1/nodes/register'', hc_RegistrationSecret cfg))"

section \<open>Authorization\<close>

definition authorize :: "json_codec \<Rightarrow> body_codec \<Rightarrow> HostConfig \<Rightarrow> int \<Rightarrow> http_request \<Rightarrow> host_reply + http_request" where
  "authorize lib codec cfg now rq =
     (case Verify lib now (string_bytes (hc_LeaseSecret cfg)) (Bearer (rq_authorization rq)) of
        Inl _ \<Rightarrow> Inl (HostError 401 ''valid host lease required'' [])
      | Inr claims \<Rightarrow>
          if cl_NodeID claims \<noteq> hc_NodeID cfg then Inl (HostError 401 ''valid host lease required'' [])
          else if rq_post rq then
            (case readBody rq of
               None \<Rightarrow> Inl (HostError 403 ''lease does not permit the requested model'' [])
             | Some data \<Rightarrow>
                 if probe_model codec data \<noteq> Some (cl_Model claims) \<or>
                    (cl_ModelDigest claims \<noteq> '''' \<and> rq_modelDigest rq \<noteq> cl_ModelDigest claims)
                 then Inl (HostError 403 ''lease does not permit the requested model'' [])
                 else Inr (rq\<lparr>rq_body := Some data\<rparr>))
          else Inr rq)"

definition authorizeModelTransfer :: "json_codec \<Rightarrow> HostConfig \<Rightarrow> int \<Rightarrow> http_request \<Rightarrow> host_reply + LeaseClaims" where
  "authorizeModelTransfer lib cfg now rq =
     (if \<not> hc_ModelStore cfg then Inl (HostError 404 ''model upload is disabled'' [])
      else
        (case Verify lib now (string_bytes (hc_LeaseSecret cfg)) (Bearer (rq_authorization rq)) of
           Inl _ \<Rightarrow> Inl (HostError 401 ''valid model-bound host lease required'' [])
         | Inr claims \<Rightarrow>
             if cl_NodeID claims \<noteq> hc_NodeID cfg \<or> cl_ModelDigest claims = '''' \<or> cl_ModelSize claims \<le> 0 \<or>
                rq_digest rq \<noteq> cl_ModelDigest claims
             then Inl (HostError 401 ''valid model-bound host lease required'' [])
             else Inr claims))"

section \<open>The model cache routes\<close>

text \<open>The text of an error of the operating system is not modelled.\<close>

fun cache_message :: "cache_error \<Rightarrow> string" where
  "cache_message InvalidDigest = ''invalid model digest or size''"
| "cache_message InvalidOffset = ''invalid upload offset or chunk size''"
| "cache_message SizeMismatch = ''cached model size does not match lease''"
| "cache_message (OffsetError n) = ''upload offset mismatch; expected '' @ itoa n"
| "cache_message ChunkTooLarge = ''upload chunk exceeds allowed model size''"
| "cache_message ChunkEmpty = ''upload chunk is empty''"
| "cache_message DigestMismatch = ''uploaded model SHA-256 mismatch''"
| "cache_message CacheIO = ''''"

definition modelStatus :: "json_codec \<Rightarrow> io_faults \<Rightarrow> HostServer \<Rightarrow> int \<Rightarrow> http_request \<Rightarrow> host_reply \<times> HostServer" where
  "modelStatus lib ft s now rq =
     (case authorizeModelTransfer lib (hv_cfg s) now rq of
        Inl e \<Rightarrow> (e, s)
      | Inr claims \<Rightarrow>
          (case Status ft (hv_store s) (cl_ModelDigest claims) (cl_ModelSize claims) of
             ((status, Some e), store) \<Rightarrow> (HostError 500 (cache_message e) [], s\<lparr>hv_store := store\<rparr>)
           | ((status, None), store) \<Rightarrow> (CacheStatus status, s\<lparr>hv_store := store\<rparr>)))"

definition modelUpload :: "json_codec \<Rightarrow> io_faults \<Rightarrow> io_faults \<Rightarrow> HostServer \<Rightarrow> int \<Rightarrow> http_request \<Rightarrow> host_reply \<times> HostServer" where
  "modelUpload lib ft0 ft s now rq =
     (case authorizeModelTransfer lib (hv_cfg s) now rq of
        Inl e \<Rightarrow> (e, s)
      | Inr claims \<Rightarrow>
          (case Atoi (rq_uploadOffset rq) of
             None \<Rightarrow> (HostError 400 ''valid X-AIPool-Upload-Offset is required'' [], s)
           | Some offset \<Rightarrow>
               if offset < 0 then (HostError 400 ''valid X-AIPool-Upload-Offset is required'' [], s)
               else
                 (case Append ft0 ft (hv_store s) (cl_ModelDigest claims) (cl_ModelSize claims) offset
                         (case rq_body rq of None \<Rightarrow> [] | Some b \<Rightarrow> b) (hc_MaxUploadChunk (hv_cfg s)) of
                    ((status, Some (OffsetError expected)), store) \<Rightarrow>
                      (HostError 409 (cache_message (OffsetError expected)) [(''X-AIPool-Expected-Offset'', itoa expected)],
                       s\<lparr>hv_store := store\<rparr>)
                  | ((status, Some e), store) \<Rightarrow> (HostError 400 (cache_message e) [], s\<lparr>hv_store := store\<rparr>)
                  | ((status, None), store) \<Rightarrow> (CacheStatus status, s\<lparr>hv_store := store\<rparr>))))"

section \<open>Chat\<close>

definition host_models :: "HostConfig \<Rightarrow> host_reply" where
  "host_models cfg = ModelList (hc_Models cfg)"

definition forwardRuntimeURL :: "body_codec \<Rightarrow> http_runtime \<Rightarrow> http_request \<Rightarrow> string \<Rightarrow> string \<Rightarrow> host_reply" where
  "forwardRuntimeURL codec http rq runtimeURL runtimeModel =
     (case readBody rq of
        None \<Rightarrow> HostError 400 ''invalid body'' []
      | Some data0 \<Rightarrow>
          (case (if runtimeModel = '''' then Some data0 else replace_model codec runtimeModel data0) of
             None \<Rightarrow> HostError 400 ''invalid body'' []
           | Some data \<Rightarrow>
               (case http (strings_TrimRight_slash runtimeURL @ ''/v1/chat/completions'') data of
                  None \<Rightarrow> HostError 502 ''runtime unavailable'' []
                | Some (status, answer) \<Rightarrow> RuntimeAnswer status (copyResponse answer))))"

text \<open>The fixed words of the mock reply, in UTF-8.\<close>

definition mock_reply :: "string \<Rightarrow> string \<Rightarrow> string" where
  "mock_reply nodeID prompt =
     bytes_string [0xe8, 0xbf, 0x99, 0xe6, 0x98, 0xaf, 0xe6, 0x9d, 0xa5, 0xe8, 0x87, 0xaa, 0xe5, 0x85, 0xb1, 0xe4, 0xba,
       0xab, 0xe8, 0x8a, 0x82, 0xe7, 0x82, 0xb9, 0x20] @ nodeID @
     bytes_string [0x20, 0xe7, 0x9a, 0x84, 0xe6, 0xa8, 0xa1, 0xe6, 0x8b, 0x9f, 0xe5, 0x9b, 0x9e, 0xe5, 0xa4, 0x8d, 0xef,
       0xbc, 0x9a] @ prompt"

text \<open>The body of \<open>chat\<close> between acquiring and releasing its task.\<close>

definition chat_body :: "json_codec \<Rightarrow> body_codec \<Rightarrow> http_runtime \<Rightarrow> io_faults \<Rightarrow> HostServer \<Rightarrow> int \<Rightarrow> http_request \<Rightarrow>
    host_reply \<times> HostServer" where
  "chat_body lib codec http ft s now rq =
     (let cfg = hv_cfg s;
          claims = (case Verify lib now (string_bytes (hc_LeaseSecret cfg)) (Bearer (rq_authorization rq)) of
                      Inl _ \<Rightarrow> zero_claims | Inr c \<Rightarrow> c);
          fallback = (\<lambda>s.
            if hc_RuntimeURL cfg \<noteq> '''' then (forwardRuntimeURL codec http rq (hc_RuntimeURL cfg) (hc_RuntimeModel cfg), s)
            else
              (case Option.bind (readBody rq) (decode_chat codec) of
                 None \<Rightarrow> (HostError 400 ''valid model and messages are required'' [], s)
               | Some req \<Rightarrow>
                   if cr_Model req = '''' \<or> cr_Messages req = [] \<or> cr_Model req \<notin> set (hc_Models cfg)
                   then (HostError 400 ''valid model and messages are required'' [], s)
                   else
                     let seq = hv_seq s + 1
                     in (Completion (''chatcmpl-aipool-'' @ itoa (uint seq)) (cr_Model req)
                           (mock_reply (hc_NodeID cfg) (last (cr_Messages req))) (cr_Stream req),
                         s\<lparr>hv_seq := seq\<rparr>)))
      in if cl_ModelDigest claims \<noteq> '''' then
           if \<not> hc_ModelStore cfg then (HostError 409 ''host does not accept uploaded models'' [], s)
           else
             (case Status ft (hv_store s) (cl_ModelDigest claims) (cl_ModelSize claims) of
                ((status, err), store) \<Rightarrow>
                  let s1 = s\<lparr>hv_store := store\<rparr>
                  in if err \<noteq> None \<or> \<not> mc_Ready status
                     then (HostError 409 ''leased model has not finished uploading'' [], s1)
                     else
                       (case hc_RuntimeManager cfg of
                          Some m \<Rightarrow>
                            (case mr_Ensure m (cl_Model claims) (cl_ModelDigest claims) (Path (cl_ModelDigest claims)) of
                               Inl e \<Rightarrow> (HostError 502 (''managed runtime could not load model: '' @ e) [], s1)
                             | Inr url \<Rightarrow> (forwardRuntimeURL codec http rq url (cl_Model claims), s1))
                        | None \<Rightarrow> fallback s1))
         else fallback s)"

text \<open>
  The whole route: the lease is checked, a task acquired, the body run, the task released. The lease
  is verified twice, at \<open>now\<close> and, in \<open>chat\<close> itself, at \<open>later\<close>.
\<close>

definition host_chat :: "json_codec \<Rightarrow> body_codec \<Rightarrow> http_runtime \<Rightarrow> io_faults \<Rightarrow> HostServer \<Rightarrow> int \<Rightarrow> int \<Rightarrow> http_request \<Rightarrow>
    host_reply \<times> HostServer" where
  "host_chat lib codec http ft s now later rq =
     (case authorize lib codec (hv_cfg s) now rq of
        Inl e \<Rightarrow> (e, s)
      | Inr rq' \<Rightarrow>
          if hc_MaxConcurrency (hv_cfg s) \<le> hv_activeTasks s
          then (HostError 429 ''provider concurrency limit reached'' [(''Retry-After'', ''1'')], s)
          else
            (case chat_body lib codec http ft (s\<lparr>hv_activeTasks := hv_activeTasks s + 1\<rparr>) later rq' of
               (reply, s') \<Rightarrow> (reply, s'\<lparr>hv_activeTasks := hv_activeTasks s' - 1\<rparr>)))"

section \<open>Concurrent tasks\<close>

text \<open>
  \<open>acquireTask\<close> is a loop of an atomic load and a compare-and-swap; a request is in one of these
  places. The release is the deferred \<open>activeTasks.Add(-1)\<close>.
\<close>

datatype chat_task = Loading | Swapping int | Working | Refused | Finished

fun acquireTask :: "int \<Rightarrow> int \<Rightarrow> chat_task \<Rightarrow> chat_task \<times> int" where
  "acquireTask maxConcurrency active Loading =
     (if maxConcurrency \<le> active then (Refused, active) else (Swapping active, active))"
| "acquireTask maxConcurrency active (Swapping seen) =
     (if active = seen then (Working, active + 1) else (Loading, active))"
| "acquireTask maxConcurrency active Working = (Finished, active - 1)"
| "acquireTask maxConcurrency active t = (t, active)"

inductive task_steps :: "int \<Rightarrow> int \<Rightarrow> chat_task list \<Rightarrow> bool" for maxConcurrency where
  start: "list_all (\<lambda>t. t = Loading) ts \<Longrightarrow> task_steps maxConcurrency 0 ts"
| step: "task_steps maxConcurrency active ts \<Longrightarrow> i < length ts \<Longrightarrow> acquireTask maxConcurrency active (ts ! i) = (t, active') \<Longrightarrow>
    task_steps maxConcurrency active' (ts[i := t])"

end
