(* ===== verification/Host_Correct.thy ===== *)
theory Host_Correct
  imports Host
begin

text \<open>
  What a host guarantees: chats are served and models stored only under a lease for this host and
  model, uploads touch only the files of the leased digest and keep the cache intact, and the number
  of concurrent tasks stays within its limit.
\<close>

section \<open>Leases\<close>

definition leased :: "json_codec \<Rightarrow> HostConfig \<Rightarrow> int \<Rightarrow> http_request \<Rightarrow> LeaseClaims \<Rightarrow> bool" where
  "leased lib cfg now rq claims \<longleftrightarrow>
     Verify lib now (string_bytes (hc_LeaseSecret cfg)) (Bearer (rq_authorization rq)) = Inr claims \<and>
     cl_NodeID claims = hc_NodeID cfg"

fun refused :: "host_reply \<Rightarrow> bool" where
  "refused (HostError _ _ _) = True"
| "refused _ = False"

lemma authorize_Inr:
  assumes "authorize lib codec cfg now rq = Inr rq'"
  shows "\<exists>claims. leased lib cfg now rq claims \<and> rq_authorization rq' = rq_authorization rq \<and>
    (rq_post rq \<longrightarrow> (\<exists>body. readBody rq = Some body \<and> rq_body rq' = Some body \<and> probe_model codec body = Some (cl_Model claims) \<and>
       (cl_ModelDigest claims \<noteq> '''' \<longrightarrow> rq_modelDigest rq = cl_ModelDigest claims)))"
  using assms by (auto simp: authorize_def leased_def split: sum.splits if_splits option.splits)

lemma authorizeModelTransfer_Inr:
  "authorizeModelTransfer lib cfg now rq = Inr claims \<longleftrightarrow>
     hc_ModelStore cfg \<and> leased lib cfg now rq claims \<and> cl_ModelDigest claims \<noteq> '''' \<and> 0 < cl_ModelSize claims \<and>
     rq_digest rq = cl_ModelDigest claims"
  by (auto simp: authorizeModelTransfer_def leased_def split: sum.splits)

text \<open>A token accepted at two times yields the same claims.\<close>

lemma Verify_later:
  assumes "Verify lib now secret token = Inr claims"
  shows "Verify lib later secret token = (if unix later < cl_ExpiresAt claims then Inr claims else Inl LeaseExpired)"
  using assms by (auto simp: Verify_def split: list.splits option.splits if_splits)

section \<open>The model store\<close>

text \<open>Only the files of one digest differ.\<close>

definition confined :: "string \<Rightarrow> Store \<Rightarrow> Store \<Rightarrow> bool" where
  "confined digest s s' \<longleftrightarrow>
     (\<forall>p. p \<noteq> Path digest \<longrightarrow> p \<noteq> partPath digest \<longrightarrow> map_of (st_files s') p = map_of (st_files s) p)"

lemma confined_refl [simp]: "confined digest s s"
  by (simp add: confined_def)

lemma confined_trans: "confined digest s s' \<Longrightarrow> confined digest s' s'' \<Longrightarrow> confined digest s s''"
  by (simp add: confined_def)

lemma confined_os:
  "confined digest s (os_remove ft s (partPath digest))" "confined digest s (os_truncate ft s (partPath digest) n)"
  "confined digest s (put_part s digest c)"
  by (simp_all add: confined_def files_remove files_truncate files_put_part)

lemma confined_rename:
  "map_of (st_files s) (partPath digest) = Some c \<Longrightarrow> confined digest s (os_rename s (partPath digest) (Path digest))"
  by (simp add: confined_def files_rename)

lemma confined_statusUnlocked: "statusUnlocked ft s digest sz = (r, s') \<Longrightarrow> confined digest s s'"
  by (auto simp: statusUnlocked_def Let_def confined_os confined_rename split: if_splits option.splits)

lemma confined_Status: "Status ft s digest sz = (r, s') \<Longrightarrow> confined digest s s'"
  by (auto simp: Status_def confined_statusUnlocked split: if_splits)

lemma confined_Append:
  assumes "Append ft0 ft s digest sz offset src limit = ((status, err), s')"
  shows "confined digest s s'"
  using assms
proof (cases rule: Append_cases)
  case early
  then show ?thesis by (simp add: confined_def)
next
  case after_status
  then show ?thesis by (simp add: confined_statusUnlocked)
next
  case (appended status1 s1)
  then have "confined digest s1 s'"
    using confined_trans [OF confined_os(3)] confined_os by blast
  with appended confined_statusUnlocked confined_trans show ?thesis by blast
next
  case (finished status1 s1)
  have "confined digest s1 s'"
    unfolding finished(8) by (rule confined_trans [OF confined_os(3)], rule confined_rename) (simp add: files_put_part)
  with finished confined_statusUnlocked confined_trans show ?thesis by blast
qed

section \<open>Serving\<close>

lemma chat_body_ready:
  assumes "chat_body lib codec http ft s later rq = (reply, s')" and "\<not> refused reply"
    and "Verify lib later (string_bytes (hc_LeaseSecret (hv_cfg s))) (Bearer (rq_authorization rq)) = Inr claims"
    and "cl_ModelDigest claims \<noteq> ''''"
  shows "\<exists>status store. Status ft (hv_store s) (cl_ModelDigest claims) (cl_ModelSize claims) = ((status, None), store) \<and>
    mc_Ready status \<and> hv_store s' = store"
  using assms
  by (auto simp: chat_body_def Let_def split: prod.splits if_splits option.splits sum.splits)

text \<open>
  C28. A host answers a chat only under a lease for it: when the reply to a chat request is not an
  error, the bearer token verifies under the host's lease secret, is for this node and for the model
  of the body, and its model digest, if any, is the one of the request; and a lease that is still
  valid when the chat runs and that names a digest is only served while the stored model has exactly
  this digest and size.
\<close>

theorem host_serves_only_leased:
  assumes "host_chat lib codec http ft s now later rq = (reply, s')" and "\<not> refused reply" and "rq_post rq"
  shows "\<exists>claims body. Verify lib now (string_bytes (hc_LeaseSecret (hv_cfg s))) (Bearer (rq_authorization rq)) = Inr claims \<and>
    cl_NodeID claims = hc_NodeID (hv_cfg s) \<and> readBody rq = Some body \<and> probe_model codec body = Some (cl_Model claims) \<and>
    (cl_ModelDigest claims \<noteq> '''' \<longrightarrow> rq_modelDigest rq = cl_ModelDigest claims) \<and>
    (cl_ModelDigest claims \<noteq> '''' \<and> unix later < cl_ExpiresAt claims \<and> cache_ok (hv_store s) \<longrightarrow>
      (\<exists>content. map_of (st_files (hv_store s')) (Path (cl_ModelDigest claims)) = Some content \<and>
         hex_encode (sha256 content) = cl_ModelDigest claims \<and> int (length content) = cl_ModelSize claims))"
proof -
  obtain rq' s1 where auth: "authorize lib codec (hv_cfg s) now rq = Inr rq'"
    and body: "chat_body lib codec http ft (s\<lparr>hv_activeTasks := hv_activeTasks s + 1\<rparr>) later rq' = (reply, s1)"
    and s': "s' = s1\<lparr>hv_activeTasks := hv_activeTasks s1 - 1\<rparr>"
    using assms(1,2) by (auto simp: host_chat_def authorize_def split: sum.splits if_splits option.splits prod.splits)
  obtain claims data where c: "leased lib (hv_cfg s) now rq claims" "rq_authorization rq' = rq_authorization rq"
    "readBody rq = Some data" "probe_model codec data = Some (cl_Model claims)"
    "cl_ModelDigest claims \<noteq> '''' \<longrightarrow> rq_modelDigest rq = cl_ModelDigest claims"
    using authorize_Inr [OF auth] assms(3) by blast
  have "\<exists>content. map_of (st_files (hv_store s')) (Path (cl_ModelDigest claims)) = Some content \<and>
      hex_encode (sha256 content) = cl_ModelDigest claims \<and> int (length content) = cl_ModelSize claims"
    if m: "cl_ModelDigest claims \<noteq> ''''" "unix later < cl_ExpiresAt claims" "cache_ok (hv_store s)"
  proof -
    have "Verify lib later (string_bytes (hc_LeaseSecret (hv_cfg s))) (Bearer (rq_authorization rq')) = Inr claims"
      using Verify_later [of lib now _ _ claims later] c(1,2) m(2) by (simp add: leased_def)
    from chat_body_ready [OF body assms(2) _ m(1)] this obtain status store where
      st: "Status ft (hv_store s) (cl_ModelDigest claims) (cl_ModelSize claims) = ((status, None), store)" "mc_Ready status"
      and "hv_store s1 = store" by auto
    with status_op.ready_digest [OF m(3) st] s' show ?thesis by auto
  qed
  with c show ?thesis unfolding leased_def by blast
qed

lemma modelUpload_store:
  assumes "modelUpload lib ft0 ft s now rq = (reply, s')"
  shows "hv_store s' = hv_store s \<or>
    (\<exists>claims offset. authorizeModelTransfer lib (hv_cfg s) now rq = Inr claims \<and>
       hv_store s' = snd (Append ft0 ft (hv_store s) (cl_ModelDigest claims) (cl_ModelSize claims) offset
         (case rq_body rq of None \<Rightarrow> [] | Some b \<Rightarrow> b) (hc_MaxUploadChunk (hv_cfg s))))"
proof (cases "authorizeModelTransfer lib (hv_cfg s) now rq")
  case (Inl e)
  with assms show ?thesis by (auto simp: modelUpload_def)
next
  case (Inr claims)
  show ?thesis
  proof (cases "\<exists>offset. Atoi (rq_uploadOffset rq) = Some offset \<and> 0 \<le> offset")
    case False
    with assms Inr show ?thesis by (auto simp: modelUpload_def split: option.splits if_splits)
  next
    case True
    then obtain offset where o: "Atoi (rq_uploadOffset rq) = Some offset" "0 \<le> offset" by blast
    obtain status err store where run: "Append ft0 ft (hv_store s) (cl_ModelDigest claims) (cl_ModelSize claims) offset
        (case rq_body rq of None \<Rightarrow> [] | Some b \<Rightarrow> b) (hc_MaxUploadChunk (hv_cfg s)) = ((status, err), store)"
      by (metis surj_pair)
    then have "hv_store s' = store"
      using assms Inr o by (auto simp: modelUpload_def split: option.splits cache_error.splits)
    with Inr run show ?thesis by (metis snd_conv)
  qed
qed

text \<open>
  C29. An upload changes nothing but the files of the leased model: unless \<open>modelUpload\<close> leaves the
  store as it is, the bearer token verifies for this node and for the digest in the path, and only the
  part and model files of this digest differ; the integrity of the cache is kept in any case.
\<close>

theorem host_upload_confined:
  assumes "modelUpload lib ft0 ft s now rq = (reply, s')"
  shows "(hv_store s' = hv_store s \<or>
      (\<exists>claims. Verify lib now (string_bytes (hc_LeaseSecret (hv_cfg s))) (Bearer (rq_authorization rq)) = Inr claims \<and>
         cl_NodeID claims = hc_NodeID (hv_cfg s) \<and> cl_ModelDigest claims = rq_digest rq \<and> hc_ModelStore (hv_cfg s) \<and>
         (\<forall>p. p \<noteq> Path (rq_digest rq) \<longrightarrow> p \<noteq> partPath (rq_digest rq) \<longrightarrow>
            map_of (st_files (hv_store s')) p = map_of (st_files (hv_store s)) p))) \<and>
    (cache_ok (hv_store s) \<longrightarrow> cache_ok (hv_store s'))"
proof (cases "hv_store s' = hv_store s")
  case True
  then show ?thesis by simp
next
  case False
  then obtain claims offset where auth: "authorizeModelTransfer lib (hv_cfg s) now rq = Inr claims"
    and store: "hv_store s' = snd (Append ft0 ft (hv_store s) (cl_ModelDigest claims) (cl_ModelSize claims) offset
      (case rq_body rq of None \<Rightarrow> [] | Some b \<Rightarrow> b) (hc_MaxUploadChunk (hv_cfg s)))"
    using modelUpload_store [OF assms] by blast
  obtain status err store' where run: "Append ft0 ft (hv_store s) (cl_ModelDigest claims) (cl_ModelSize claims) offset
      (case rq_body rq of None \<Rightarrow> [] | Some b \<Rightarrow> b) (hc_MaxUploadChunk (hv_cfg s)) = ((status, err), store')"
    by (metis surj_pair)
  have "confined (cl_ModelDigest claims) (hv_store s) (hv_store s')" using confined_Append [OF run] run store by simp
  moreover have "cache_ok (hv_store s')" if "cache_ok (hv_store s)" unfolding store using that by (rule Append_keeps_ok)
  ultimately show ?thesis
    using auth unfolding authorizeModelTransfer_Inr leased_def confined_def by auto
qed

section \<open>Concurrency\<close>

definition working :: "chat_task list \<Rightarrow> nat" where
  "working ts = length (filter (\<lambda>t. t = Working) ts)"

definition swaps_ok :: "int \<Rightarrow> chat_task list \<Rightarrow> bool" where
  "swaps_ok m ts \<longleftrightarrow> (\<forall>seen. Swapping seen \<in> set ts \<longrightarrow> seen < m)"

lemma working_update:
  "i < length ts \<Longrightarrow> int (working (ts[i := t])) =
     int (working ts) + (if t = Working then 1 else 0) - (if ts ! i = Working then 1 else 0)"
  using length_filter_update [of i ts "\<lambda>t. t = Working" t] by (auto simp: working_def split: if_splits)

lemma swaps_ok_update: "swaps_ok m ts \<Longrightarrow> (\<And>seen. t = Swapping seen \<Longrightarrow> seen < m) \<Longrightarrow> swaps_ok m (ts[i := t])"
  unfolding swaps_ok_def using set_update_subset_insert [of ts i t] by blast

lemma task_steps_inv:
  "task_steps m active ts \<Longrightarrow> 0 \<le> m \<Longrightarrow> active = int (working ts) \<and> active \<le> m \<and> swaps_ok m ts"
proof (induction rule: task_steps.induct)
  case (start ts)
  then have "filter (\<lambda>t. t = Working) ts = []" by (auto simp: filter_empty_conv list_all_iff)
  with start show ?case by (auto simp: working_def swaps_ok_def list_all_iff)
next
  case (step active ts i t active')
  then have inv: "active = int (working ts)" "active \<le> m" "swaps_ok m ts" by auto
  show ?case
    using step.hyps inv working_update [OF step.hyps(2), of t] swaps_ok_update [of m ts t i] nth_mem [OF step.hyps(2)]
    by (cases "ts ! i") (auto simp: swaps_ok_def split: if_splits)
qed

text \<open>
  C30. The number of concurrent chats never exceeds the limit: however the load and compare-and-swap
  steps of any number of requests interleave with requests that end, the counter is the number of
  requests at work, and at most \<open>MaxConcurrency\<close>.
\<close>

theorem host_concurrency_bounded:
  assumes "task_steps maxConcurrency active ts" and "0 \<le> maxConcurrency"
  shows "active = int (working ts) \<and> int (working ts) \<le> maxConcurrency"
  using task_steps_inv [OF assms] by auto

section \<open>An example\<close>

text \<open>A host with one stored model, and a lease for it.\<close>

definition sample_digest :: string where
  "sample_digest = hex_encode (sha256 [1, 2, 3])"

definition sample_host :: HostServer where
  "sample_host = New \<lparr>hc_NodeID = ''n1'', hc_Endpoint = '''', hc_ControlURL = '''', hc_Secret = ''s'', hc_RegistrationSecret = '''',
     hc_LeaseSecret = '''', hc_Models = [''m''], hc_RuntimeURL = '''', hc_RuntimeKind = '''', hc_RuntimeModel = '''',
     hc_Inventory = zero_hardware, hc_ModelStore = True, hc_RuntimeManager = None, hc_MaxUploadChunk = 0, hc_Scope = '''',
     hc_MaxConcurrency = 0, hc_DistributedReady = False, hc_StageEndpoint = ''''\<rparr>
     \<lparr>st_files = [(Path sample_digest, [1, 2, 3])]\<rparr>"

definition host_claims :: LeaseClaims where
  "host_claims = zero_claims\<lparr>cl_NodeID := ''n1'', cl_Model := ''m'', cl_ExpiresAt := 100, cl_ModelDigest := sample_digest, cl_ModelSize := 3\<rparr>"

definition one_claims_codec :: "LeaseClaims \<Rightarrow> json_codec" where
  "one_claims_codec c = \<lparr>marshal_claims = (\<lambda>_. Some [1]), unmarshal_claims = (\<lambda>_. Some c)\<rparr>"

definition sample_token :: "string \<Rightarrow> string" where
  "sample_token secret = b64_encode [1] @ CHR ''.'' # b64_encode (sign (string_bytes secret) (b64_encode [1]))"

definition sample_chat_codec :: body_codec where
  "sample_chat_codec = \<lparr>probe_model = (\<lambda>_. Some ''m''),
     decode_chat = (\<lambda>_. Some \<lparr>cr_Model = ''m'', cr_Messages = [''hi''], cr_Stream = False\<rparr>), replace_model = (\<lambda>_. Some)\<rparr>"

definition host_request :: http_request where
  "host_request = \<lparr>rq_post = True, rq_authorization = ''Bearer '' @ sample_token ''s'', rq_modelDigest = sample_digest,
     rq_uploadOffset = ''0'', rq_digest = sample_digest, rq_body = Some [1]\<rparr>"

lemma Verify_one_codec:
  "unix now < cl_ExpiresAt c \<Longrightarrow> Verify (one_claims_codec c) now (string_bytes secret) (sample_token secret) = Inr c"
  unfolding Verify_Inr sample_token_def
  by (intro exI [of _ "b64_encode [1]"] exI [of _ "b64_encode (sign (string_bytes secret) (b64_encode [1]))"] exI [of _ "[1]"])
     (simp add: b64_encode_no_dot base64url.dec_enc one_claims_codec_def del: b64_encode.simps)

lemma Bearer_token: "s \<noteq> [] \<Longrightarrow> Bearer (''Bearer '' @ s) = s"
  by (simp add: Bearer_def)

lemma sample_token_nonempty [simp]: "sample_token s \<noteq> []"
  by (simp add: sample_token_def)

lemma host_request_fields [simp]:
  "Bearer (rq_authorization host_request) = sample_token ''s''" "rq_post host_request" "rq_modelDigest host_request = sample_digest"
  "readBody host_request = Some [1]" "rq_digest host_request = sample_digest" "rq_body host_request = Some [1]"
  by (simp_all add: readBody_def host_request_def Bearer_def)

lemma host_claims_fields [simp]:
  "cl_NodeID host_claims = ''n1''" "cl_Model host_claims = ''m''" "cl_ModelDigest host_claims = sample_digest"
  "cl_ModelSize host_claims = 3" "cl_ExpiresAt host_claims = 100"
  by (simp_all add: host_claims_def)

lemma sample_host_cfg [simp]:
  "hc_LeaseSecret (hv_cfg sample_host) = ''s''" "hc_NodeID (hv_cfg sample_host) = ''n1''" "hc_ModelStore (hv_cfg sample_host)"
  "hc_MaxConcurrency (hv_cfg sample_host) = 1" "hv_activeTasks sample_host = 0" "hc_RuntimeManager (hv_cfg sample_host) = None"
  "hc_RuntimeURL (hv_cfg sample_host) = ''''" "hc_Models (hv_cfg sample_host) = [''m'']" "hc_MaxUploadChunk (hv_cfg sample_host) = 8388608"
  "hv_store sample_host = \<lparr>st_files = [(Path sample_digest, [1, 2, 3])]\<rparr>"
  by (simp_all add: sample_host_def New_def default_string_def)

lemma sample_Status:
  "Status no_faults \<lparr>st_files = [(Path sample_digest, [1, 2, 3])]\<rparr> sample_digest 3 =
     ((\<lparr>mc_Digest = sample_digest, mc_Size = 3, mc_Received = 3, mc_Ready = True\<rparr>, None), \<lparr>st_files = [(Path sample_digest, [1, 2, 3])]\<rparr>)"
  using validate_digest [of "[1, 2, 3]"] by (simp add: Status_def statusUnlocked_def no_faults_def sample_digest_def)

lemma sample_digest_nonempty [simp]: "sample_digest \<noteq> ''''"
  by (simp add: sample_digest_def)

lemma sample_cache_ok: "cache_ok \<lparr>st_files = [(Path sample_digest, [1, 2, 3])]\<rparr>"
  by (simp add: cache_ok_def sample_digest_def)

lemma sample_host_chat:
  "fst (host_chat (one_claims_codec host_claims) sample_chat_codec (\<lambda>_ _. None) no_faults sample_host 0 0 host_request) =
     Completion ''chatcmpl-aipool-1'' ''m'' (mock_reply ''n1'' ''hi'') False"
proof -
  have v: "Verify (one_claims_codec host_claims) 0 (string_bytes ''s'') (sample_token ''s'') = Inr host_claims"
    by (rule Verify_one_codec) (simp add: unix_def)
  have "authorize (one_claims_codec host_claims) sample_chat_codec (hv_cfg sample_host) 0 host_request
      = Inr (host_request\<lparr>rq_body := Some [1]\<rparr>)"
    using v by (simp add: authorize_def sample_chat_codec_def)
  moreover have "host_request\<lparr>rq_body := Some [1]\<rparr> = host_request" by (simp add: host_request_def)
  moreover have "itoa (uint (1 :: 64 word)) = ''1''" by code_simp
  moreover have "hv_seq sample_host = 0" by (simp add: sample_host_def New_def)
  ultimately show ?thesis
    using v sample_Status by (simp add: host_chat_def chat_body_def sample_chat_codec_def Let_def)
qed

text \<open>A chat that is answered, under a lease with the digest of the stored model.\<close>

theorem host_serves_only_leased_witness:
  "\<exists>s' claims. host_chat (one_claims_codec host_claims) sample_chat_codec (\<lambda>_ _. None) no_faults sample_host 0 0 host_request =
       (Completion ''chatcmpl-aipool-1'' ''m'' (mock_reply ''n1'' ''hi'') False, s') \<and>
     Verify (one_claims_codec host_claims) 0 (string_bytes ''s'') (sample_token ''s'') = Inr claims \<and>
     cl_NodeID claims = ''n1'' \<and> cl_Model claims = ''m''"
proof -
  obtain reply s' where r: "host_chat (one_claims_codec host_claims) sample_chat_codec (\<lambda>_ _. None) no_faults sample_host 0 0 host_request
      = (reply, s')" by fastforce
  then have reply: "reply = Completion ''chatcmpl-aipool-1'' ''m'' (mock_reply ''n1'' ''hi'') False" using sample_host_chat by simp
  then have "\<not> refused reply" by simp
  from host_serves_only_leased [OF r this] r [unfolded reply] show ?thesis
    by (auto simp: sample_chat_codec_def)
qed

text \<open>Two requests for one place: both have loaded the counter, one has swapped it, and the other loads it again.\<close>

theorem host_concurrency_bounded_witness:
  "\<exists>ts active. task_steps 1 active ts \<and> ts = [Working, Loading] \<and> active = 1 \<and> active = int (working ts) \<and> int (working ts) \<le> 1"
proof -
  have s0: "task_steps 1 0 [Loading, Loading]" by (rule task_steps.start) simp
  have s1: "task_steps 1 0 [Swapping 0, Loading]" using task_steps.step [OF s0, of 0 "Swapping 0" 0] by simp
  have s2: "task_steps 1 0 [Swapping 0, Swapping 0]" using task_steps.step [OF s1, of 1 "Swapping 0" 0] by simp
  have s3: "task_steps 1 1 [Working, Swapping 0]" using task_steps.step [OF s2, of 0 Working 1] by simp
  have s4: "task_steps 1 1 [Working, Loading]" using task_steps.step [OF s3, of 1 Loading 1] by simp
  from host_concurrency_bounded [OF s4] s4 show ?thesis by (intro exI [of _ "[Working, Loading]"] exI [of _ 1]) simp
qed

text \<open>The upload of another chunk for the finished model: authorized, and it changes nothing.\<close>

theorem host_upload_confined_witness:
  "\<exists>reply s'. modelUpload (one_claims_codec host_claims) no_faults no_faults sample_host 0 host_request = (reply, s') \<and>
     cache_ok (hv_store s')"
proof -
  obtain reply s' where r: "modelUpload (one_claims_codec host_claims) no_faults no_faults sample_host 0 host_request = (reply, s')"
    by fastforce
  with host_upload_confined [OF r] sample_cache_ok show ?thesis by auto
qed

end
