(* ===== verification/Catalog.thy ===== *)
theory Catalog
  imports Api Sha256 Go_Strings
begin

text \<open>
  The requester's model catalogue (\<open>src/internal/modelcatalog/catalog.go\<close>): GGUF files of a directory and
  explicit mappings \<open>name=path\<close>, each with the digest and size of its file. The file system is a map
  from paths to the contents of regular files; \<open>None\<close> is a file that cannot be opened, read or is not
  regular.
\<close>

text \<open>The name of a globbed file without its extension \<open>.gguf\<close>.\<close>

definition glob_id :: "string \<Rightarrow> string" where
  "glob_id path =
     (let base = rev (takeWhile (\<lambda>c. c \<noteq> CHR ''/'') (rev path)) in take (length base - 5) base)"

section \<open>The catalogue\<close>

record LocalModel =
  lm_ID :: string
  lm_Digest :: string
  lm_Size :: int
  lm_Format :: string

record Entry = LocalModel +
  en_Path :: string

record Catalog =
  ct_entries :: "(string, Entry) gomap"

datatype catalog_error = InvalidMapping string | InspectFailed string

type_synonym file_system = "string \<Rightarrow> byte list option"

definition inspect :: "file_system \<Rightarrow> string \<Rightarrow> string \<Rightarrow> Entry option" where
  "inspect fs i path =
     (case fs path of
        None \<Rightarrow> None
      | Some content \<Rightarrow>
          if content = [] then None
          else Some \<lparr>lm_ID = i, lm_Digest = hex_encode (sha256 content), lm_Size = int (length content), lm_Format = ''gguf'',
                     en_Path = path\<rparr>)"

fun override_paths :: "string list \<Rightarrow> (string, string) gomap \<Rightarrow> catalog_error + (string, string) gomap" where
  "override_paths [] paths = Inr paths"
| "override_paths (raw # items) paths =
     (let item = TrimSpace raw
      in if item = '''' then override_paths items paths
         else (case Cut CHR ''='' item of
                 None \<Rightarrow> Inl (InvalidMapping item)
               | Some (i, path) \<Rightarrow>
                   if TrimSpace i = '''' \<or> TrimSpace path = '''' then Inl (InvalidMapping item)
                   else override_paths items (AList.update (TrimSpace i) (TrimSpace path) paths)))"

fun inspect_all :: "file_system \<Rightarrow> (string, string) gomap \<Rightarrow> (string, Entry) gomap \<Rightarrow> catalog_error + (string, Entry) gomap" where
  "inspect_all fs [] entries = Inr entries"
| "inspect_all fs ((i, path) # paths) entries =
     (case inspect fs i path of
        None \<Rightarrow> Inl (InspectFailed i)
      | Some entry \<Rightarrow> inspect_all fs paths (AList.update i entry entries))"

text \<open>\<open>matches\<close> is what globbing \<open>dir/*.gguf\<close> gives, the empty list for an empty directory name.\<close>

definition Load :: "file_system \<Rightarrow> string list \<Rightarrow> string \<Rightarrow> catalog_error + Catalog" where
  "Load fs matches overrides =
     (case override_paths (split_on CHR '','' overrides)
             (foldl (\<lambda>paths path. AList.update (glob_id path) path paths) [] matches) of
        Inl e \<Rightarrow> Inl e
      | Inr paths \<Rightarrow>
          (case inspect_all fs paths [] of
             Inl e \<Rightarrow> Inl e
           | Inr entries \<Rightarrow> Inr \<lparr>ct_entries = entries\<rparr>))"

text \<open>The operations on a possibly missing catalogue.\<close>

definition Lookup :: "Catalog option \<Rightarrow> string \<Rightarrow> Entry option" where
  "Lookup c i = (case c of None \<Rightarrow> None | Some cat \<Rightarrow> map_of (ct_entries cat) i)"

definition Entries :: "Catalog option \<Rightarrow> Entry list" where
  "Entries c =
     (case c of None \<Rightarrow> [] | Some cat \<Rightarrow> sort_slice (\<lambda>a b. lm_ID a < lm_ID b) (map snd (ct_entries cat)))"

definition Len :: "Catalog option \<Rightarrow> nat" where
  "Len c = (case c of None \<Rightarrow> 0 | Some cat \<Rightarrow> length (ct_entries cat))"

section \<open>Lemmas\<close>

text \<open>Every entry describes the file it names.\<close>

definition entry_ok :: "file_system \<Rightarrow> string \<Rightarrow> Entry \<Rightarrow> bool" where
  "entry_ok fs i e \<longleftrightarrow> lm_ID e = i \<and>
     (\<exists>content. fs (en_Path e) = Some content \<and> content \<noteq> [] \<and> lm_Digest e = hex_encode (sha256 content) \<and>
        lm_Size e = int (length content) \<and> lm_Format e = ''gguf'')"

lemma inspect_ok: "inspect fs i path = Some e \<Longrightarrow> entry_ok fs i e"
  by (auto simp: inspect_def entry_ok_def split: option.splits if_splits)

lemma inspect_all_ok:
  "inspect_all fs paths entries = Inr entries' \<Longrightarrow> gomap_ok entries \<Longrightarrow> \<forall>(i, e)\<in>set entries. entry_ok fs i e \<Longrightarrow>
     gomap_ok entries' \<and> (\<forall>(i, e)\<in>set entries'. entry_ok fs i e)"
proof (induction fs paths entries rule: inspect_all.induct)
  case (2 fs i path paths entries)
  then obtain e where e: "inspect fs i path = Some e" "inspect_all fs paths (AList.update i e entries) = Inr entries'"
    by (auto split: option.splits)
  have "\<forall>(j, x)\<in>set (AList.update i e entries). entry_ok fs j x"
    using 2(4) inspect_ok [OF e(1)] by (auto dest!: gomap_set_update)
  with 2(1) [OF e(1) e(2)] 2(3) show ?case by simp
qed simp

lemma Load_ok:
  assumes "Load fs matches overrides = Inr cat"
  shows "gomap_ok (ct_entries cat)" and "map_of (ct_entries cat) i = Some e \<Longrightarrow> entry_ok fs i e"
proof -
  obtain paths where "inspect_all fs paths [] = Inr (ct_entries cat)"
    using assms by (auto simp: Load_def split: sum.splits)
  from inspect_all_ok [OF this]
  show "gomap_ok (ct_entries cat)" and "map_of (ct_entries cat) i = Some e \<Longrightarrow> entry_ok fs i e"
    by (auto dest: map_of_SomeD)
qed

lemma Entries_sorted: "sorted (map lm_ID (Entries c))"
  by (auto simp: Entries_def sort_slice_key [where f = lm_ID] split: option.splits)

end
