(* ===== verification/Resources.thy ===== *)
theory Resources
  imports Prelude
begin

text \<open>
  Resources that a client acquires from the control plane and gives back: leases and distributed
  groups. A log of such calls, and what it means that the log holds just one resource, or none.
\<close>

datatype resource_call = Acquired string | Released string

definition acquired_of :: "resource_call list \<Rightarrow> string \<Rightarrow> nat" where
  "acquired_of calls i = count_list calls (Acquired i)"

definition released_of :: "resource_call list \<Rightarrow> string \<Rightarrow> nat" where
  "released_of calls i = count_list calls (Released i)"

fun is_acquired :: "resource_call \<Rightarrow> bool" where
  "is_acquired (Acquired i) = True"
| "is_acquired (Released i) = False"

text \<open>The calls \<open>calls\<close> keep just the resource \<open>held\<close>, if any, and acquire at most \<open>n\<close>.\<close>

definition holds :: "resource_call list \<Rightarrow> string option \<Rightarrow> nat \<Rightarrow> bool" where
  "holds calls held n \<longleftrightarrow>
     (\<forall>i. i \<noteq> '''' \<longrightarrow> acquired_of calls i = released_of calls i + (if held = Some i then 1 else 0)) \<and>
     length (filter is_acquired calls) \<le> n"

lemma holds_Nil: "holds [] None n"
  by (simp add: holds_def acquired_of_def released_of_def)

lemma holds_acquire: "holds calls None n \<Longrightarrow> holds (calls @ [Acquired i]) (Some i) (Suc n)"
  by (auto simp: holds_def acquired_of_def released_of_def)

lemma holds_give_back: "holds calls (Some i) n \<Longrightarrow> holds (if i = '''' then calls else calls @ [Released i]) None n"
  by (auto simp: holds_def acquired_of_def released_of_def)

lemma holds_mono: "holds calls held n \<Longrightarrow> n \<le> m \<Longrightarrow> holds calls held m"
  by (simp add: holds_def)

end
