(* ===== verification/Proxy.thy ===== *)
theory Proxy
  imports Catalog Host Resources
begin

text \<open>
  The requester's proxy (\<open>src/internal/proxy/server.go\<close>): model listing, the routing of a chat to the
  distributed runtime or to a leased host, and the upload of a local model to that host. The network is
  a record of operations on a state \<open>'s\<close>; calls that acquire and release leases are logged.
\<close>

section \<open>The network\<close>

text \<open>
  \<open>pe_lease\<close>: the answer of the control plane to a lease request, or the text of an error.
  \<open>pe_http_url\<close>: whether \<open>url.Parse\<close> finds a host and the scheme http or https. \<open>pe_health\<close>: the answer
  of a host at a URL, or an error. \<open>pe_status\<close> and \<open>pe_upload\<close>: status code and
  decoded body of the model cache routes, \<open>None\<close> without an answer. \<open>pe_chat\<close>: the answer of a host or
  runtime at a URL. \<open>pe_ensure\<close>: \<open>Manager.Ensure\<close>.
\<close>

record 's proxy_env =
  pe_lease :: "'s \<Rightarrow> LeaseRequest \<Rightarrow> (string + nat \<times> string \<times> (string + Lease)) \<times> 's"
  pe_release :: "'s \<Rightarrow> string \<Rightarrow> 's"
  pe_http_url :: "string \<Rightarrow> bool"
  pe_health :: "'s \<Rightarrow> string \<Rightarrow> (string + nat \<times> string) \<times> 's"
  pe_nodes :: "'s \<Rightarrow> (nat \<times> Node list option) option \<times> 's"
  pe_status :: "'s \<Rightarrow> Lease \<Rightarrow> (nat \<times> ModelCacheStatus option) option \<times> 's"
  pe_upload :: "'s \<Rightarrow> Lease \<Rightarrow> int \<Rightarrow> int \<Rightarrow> byte list \<Rightarrow> (nat \<times> ModelCacheStatus option) option \<times> 's"
  pe_chat :: "'s \<Rightarrow> string \<Rightarrow> string \<Rightarrow> string \<Rightarrow> byte list \<Rightarrow> (nat \<times> body_reads) option \<times> 's"
  pe_ensure :: "'s \<Rightarrow> string \<Rightarrow> Entry \<Rightarrow> (string + string \<times> string list) \<times> 's"

text \<open>Times are in nanoseconds. \<open>px_connectTimeout\<close> and \<open>px_responseHeaderTimeout\<close> are those of the shared transport.\<close>

record ProxyConfig =
  pg_ControlURL :: string
  pg_ClientSecret :: string
  pg_ControlTimeout :: int
  pg_ConnectTimeout :: int
  pg_ResponseHeaderTimeout :: int
  pg_PreflightTimeout :: int
  pg_Catalog :: "Catalog option"
  pg_UploadChunkSize :: int
  pg_Distributed :: bool
  pg_DistributedDefault :: bool

record ProxyServer =
  px_controlURL :: string
  px_clientSecret :: string
  px_controlTimeout :: int
  px_connectTimeout :: int
  px_responseHeaderTimeout :: int
  px_preflightTimeout :: int
  px_uploadChunkSize :: int
  px_catalog :: "Catalog option"
  px_distributed :: bool
  px_distributedDefault :: bool

definition default_positive :: "int \<Rightarrow> int \<Rightarrow> int" where
  "default_positive n d = (if n \<le> 0 then d else n)"

definition NewWithConfig :: "ProxyConfig \<Rightarrow> ProxyServer" where
  "NewWithConfig cfg =
     \<lparr>px_controlURL = strings_TrimRight_slash (pg_ControlURL cfg), px_clientSecret = pg_ClientSecret cfg,
      px_controlTimeout = default_positive (pg_ControlTimeout cfg) 10000000000,
      px_connectTimeout = default_positive (pg_ConnectTimeout cfg) 3000000000,
      px_responseHeaderTimeout = default_positive (pg_ResponseHeaderTimeout cfg) 180000000000,
      px_preflightTimeout = default_positive (pg_PreflightTimeout cfg) 3000000000,
      px_uploadChunkSize = default_positive (pg_UploadChunkSize cfg) 8388608, px_catalog = pg_Catalog cfg,
      px_distributed = pg_Distributed cfg, px_distributedDefault = pg_DistributedDefault cfg\<rparr>"

text \<open>A configuration with nothing but these fields, and \<open>New\<close> with its optional secret.\<close>

definition proxy_config :: "string \<Rightarrow> string \<Rightarrow> Catalog option \<Rightarrow> bool \<Rightarrow> bool \<Rightarrow> ProxyConfig" where
  "proxy_config controlURL clientSecret catalog distributed distributedDefault =
     \<lparr>pg_ControlURL = controlURL, pg_ClientSecret = clientSecret, pg_ControlTimeout = 0, pg_ConnectTimeout = 0,
      pg_ResponseHeaderTimeout = 0, pg_PreflightTimeout = 0, pg_Catalog = catalog, pg_UploadChunkSize = 0,
      pg_Distributed = distributed, pg_DistributedDefault = distributedDefault\<rparr>"

definition proxy_New :: "string \<Rightarrow> string list \<Rightarrow> ProxyServer" where
  "proxy_New controlURL clientSecret =
     (let secret = (case clientSecret of s # _ \<Rightarrow> if s \<noteq> '''' then s else ''dev-only-change-me'' | [] \<Rightarrow> ''dev-only-change-me'')
      in NewWithConfig (proxy_config controlURL secret None False False))"

datatype proxy_error =
    NoHostAnswer
  | UploadRefused nat
  | InvalidHostStatus
  | UploadStalled
  | NotFinalized
  | FileUnreadable
  | StatusRefused nat
  | LeaseFailed string
  | Unreachable string

section \<open>Leases\<close>

definition proxy_releaseLease :: "'s proxy_env \<Rightarrow> string \<Rightarrow> 's \<times> resource_call list \<Rightarrow> 's \<times> resource_call list" where
  "proxy_releaseLease env leaseID w =
     (if leaseID = '''' then w else (pe_release env (fst w) leaseID, snd w @ [Released leaseID]))"

text \<open>\<open>lease\<close>: the status and text of the control plane's answer and its decoded body, or an error.\<close>

definition proxy_lease :: "'s proxy_env \<Rightarrow> 's \<Rightarrow> LeaseRequest \<Rightarrow> (string + Lease) \<times> 's" where
  "proxy_lease env s req =
     (case pe_lease env s req of
        (Inl e, s1) \<Rightarrow> (Inl e, s1)
      | (Inr (code, text, body), s1) \<Rightarrow>
          if code div 100 \<noteq> 2 then (Inl (''lease request failed: '' @ text), s1) else (body, s1))"

text \<open>\<open>preflight\<close>: the error of a host's health check, if any.\<close>

definition preflight :: "'s proxy_env \<Rightarrow> 's \<Rightarrow> string \<Rightarrow> string option \<times> 's" where
  "preflight env s endpoint =
     (if \<not> pe_http_url env endpoint then (Some ''invalid endpoint'', s)
      else
        (case pe_health env s (strings_TrimRight_slash endpoint @ ''/healthz'') of
           (Inl e, s1) \<Rightarrow> (Some e, s1)
         | (Inr (code, text), s1) \<Rightarrow>
             if code div 100 \<noteq> 2 then (Some (''health check returned '' @ text), s1) else (None, s1)))"

text \<open>
  The loop of \<open>leaseReachable\<close>, with the attempts that are left and the last health error. The proxy has
  acquired a lease when it has decoded the answer that names it; a lease whose answer is lost or cannot be
  decoded it does not know of and cannot release, and the control plane lets it expire.
\<close>

fun lease_attempts :: "'s proxy_env \<Rightarrow> nat \<Rightarrow> LeaseRequest \<Rightarrow> string \<Rightarrow> bool \<Rightarrow> 's \<times> resource_call list \<Rightarrow>
    (proxy_error + Lease) \<times> 's \<times> resource_call list" where
  "lease_attempts env 0 req lastErr failed w = (Inl (Unreachable lastErr), w)"
| "lease_attempts env (Suc n) req lastErr failed w =
     (case proxy_lease env (fst w) req of
        (Inl e, s1) \<Rightarrow> (Inl (if failed then Unreachable lastErr else LeaseFailed e), (s1, snd w))
      | (Inr lease, s1) \<Rightarrow>
          (case preflight env s1 (ls_Endpoint lease) of
             (None, s2) \<Rightarrow> (Inr lease, (s2, snd w @ [Acquired (ls_LeaseID lease)]))
           | (Some err, s2) \<Rightarrow>
               let w3 = proxy_releaseLease env (ls_LeaseID lease) (s2, snd w @ [Acquired (ls_LeaseID lease)])
               in if lr_NodeID req \<noteq> '''' then (Inl (Unreachable err), w3)
                  else lease_attempts env n (req\<lparr>lr_ExcludeNodeIDs := lr_ExcludeNodeIDs req @ [ls_NodeID lease]\<rparr>) err True w3))"

definition leaseReachable :: "'s proxy_env \<Rightarrow> LeaseRequest \<Rightarrow> 's \<times> resource_call list \<Rightarrow>
    (proxy_error + Lease) \<times> 's \<times> resource_call list" where
  "leaseReachable env req w = lease_attempts env 3 req '''' False w"

section \<open>Synchronizing a model\<close>

text \<open>\<open>io.NewSectionReader\<close> over the bytes of a file.\<close>

definition section_bytes :: "byte list \<Rightarrow> int \<Rightarrow> int \<Rightarrow> byte list" where
  "section_bytes file off n = (if off < 0 then [] else take (nat n) (drop (nat off) file))"

function upload_loop :: "'s proxy_env \<Rightarrow> int \<Rightarrow> Lease \<Rightarrow> byte list \<Rightarrow> ModelCacheStatus \<Rightarrow> 's \<Rightarrow>
    (proxy_error + ModelCacheStatus) \<times> 's" where
  "upload_loop env chunkLimit lease file status s =
     (if ls_ModelSize lease \<le> mc_Received status then (Inr status, s)
      else
        let remaining = ls_ModelSize lease - mc_Received status;
            chunkSize = min remaining chunkLimit
        in (case pe_upload env s lease (mc_Received status) chunkSize (section_bytes file (mc_Received status) chunkSize) of
              (None, s1) \<Rightarrow> (Inl NoHostAnswer, s1)
            | (Some (code, answer), s1) \<Rightarrow>
                if code div 100 \<noteq> 2 then (Inl (UploadRefused code), s1)
                else (case answer of
                        None \<Rightarrow> (Inl InvalidHostStatus, s1)
                      | Some next_status \<Rightarrow>
                          if mc_Received next_status \<le> mc_Received status then (Inl UploadStalled, s1)
                          else upload_loop env chunkLimit lease file next_status s1)))"
  by pat_completeness auto
termination
  by (relation "measure (\<lambda>(env, chunkLimit, lease, file, status, s). nat (ls_ModelSize lease - mc_Received status))") auto

declare upload_loop.simps [simp del]

definition proxy_modelStatus :: "'s proxy_env \<Rightarrow> Lease \<Rightarrow> 's \<Rightarrow> (proxy_error + ModelCacheStatus) \<times> 's" where
  "proxy_modelStatus env lease s =
     (case pe_status env s lease of
        (None, s1) \<Rightarrow> (Inl NoHostAnswer, s1)
      | (Some (code, answer), s1) \<Rightarrow>
          if code div 100 \<noteq> 2 then (Inl (StatusRefused code), s1)
          else (case answer of None \<Rightarrow> (Inl InvalidHostStatus, s1) | Some status \<Rightarrow> (Inr status, s1)))"

text \<open>\<open>ensureModel\<close>: \<open>None\<close> is success. \<open>file\<close> is what can be read from the path, if it can be opened.\<close>

definition ensureModel :: "'s proxy_env \<Rightarrow> int \<Rightarrow> Lease \<Rightarrow> byte list option \<Rightarrow> 's \<Rightarrow> proxy_error option \<times> 's" where
  "ensureModel env chunkLimit lease file s =
     (case proxy_modelStatus env lease s of
        (Inl e, s1) \<Rightarrow> (Some e, s1)
      | (Inr status, s1) \<Rightarrow>
          if mc_Ready status then (None, s1)
          else (case file of
                  None \<Rightarrow> (Some FileUnreadable, s1)
                | Some content \<Rightarrow>
                    (case upload_loop env chunkLimit lease content status s1 of
                       (Inl e, s2) \<Rightarrow> (Some e, s2)
                     | (Inr final, s2) \<Rightarrow> (if mc_Ready final then None else Some NotFinalized, s2))))"

section \<open>Chat\<close>

datatype proxy_reply =
    ProxyError nat string
  | Streamed nat "byte list" "string list"

record chat_headers =
  ch_MinVRAM :: string
  ch_Execution :: string
  ch_NodeID :: string
  ch_Scope :: string

fun error_text :: "proxy_error \<Rightarrow> string" where
  "error_text (LeaseFailed e) = e"
| "error_text (Unreachable e) = ''selected host is unreachable; no reachable fallback host was found: '' @ e"
| "error_text (UploadRefused code) = ''host upload returned '' @ itoa (int code)"
| "error_text (StatusRefused code) = ''host model status returned '' @ itoa (int code)"
| "error_text UploadStalled = ''host did not advance upload offset''"
| "error_text NotFinalized = ''host did not finalize uploaded model''"
| "error_text _ = ''''"

definition forward :: "'s proxy_env \<Rightarrow> string \<Rightarrow> string \<Rightarrow> string \<Rightarrow> byte list \<Rightarrow> string \<Rightarrow> string list \<Rightarrow> 's \<Rightarrow> proxy_reply \<times> 's" where
  "forward env url token digest body err nodes s =
     (case pe_chat env s (strings_TrimRight_slash url @ ''/v1/chat/completions'') token digest body of
        (None, s1) \<Rightarrow> (ProxyError 502 err, s1)
      | (Some (status, answer), s1) \<Rightarrow> (Streamed status (copyResponse answer) nodes, s1))"

text \<open>The part of \<open>chat\<close> that uses one leased host.\<close>

definition chat_single :: "'s proxy_env \<Rightarrow> ProxyServer \<Rightarrow> file_system \<Rightarrow> string \<Rightarrow> int \<Rightarrow> chat_headers \<Rightarrow> Entry option \<Rightarrow> byte list \<Rightarrow>
    's \<times> resource_call list \<Rightarrow> proxy_reply \<times> 's \<times> resource_call list" where
  "chat_single env p fs model minimumVRAM hdr entry body w =
     (let scope = ToLower (TrimSpace (ch_Scope hdr));
          req = \<lparr>lr_Model = model, lr_MinVRAMMB = minimumVRAM,
                 lr_ModelDigest = (case entry of None \<Rightarrow> '''' | Some e \<Rightarrow> lm_Digest e),
                 lr_ModelSize = (case entry of None \<Rightarrow> 0 | Some e \<Rightarrow> lm_Size e),
                 lr_ModelFormat = (case entry of None \<Rightarrow> '''' | Some e \<Rightarrow> lm_Format e),
                 lr_NodeID = TrimSpace (ch_NodeID hdr), lr_Scope = scope, lr_ExcludeNodeIDs = []\<rparr>
      in if scope \<noteq> '''' \<and> scope \<noteq> ''local'' \<and> scope \<noteq> ''remote''
         then (ProxyError 400 ''X-AIPool-Scope must be local or remote'', w)
         else
           (case leaseReachable env req w of
              (Inl (Unreachable e), w1) \<Rightarrow> (ProxyError 502 (error_text (Unreachable e)), w1)
            | (Inl e, w1) \<Rightarrow> (ProxyError 503 (error_text e), w1)
            | (Inr lease, w1) \<Rightarrow>
                (case (case entry of
                         None \<Rightarrow> (None, fst w1)
                       | Some e \<Rightarrow> ensureModel env (px_uploadChunkSize p) lease (fs (en_Path e)) (fst w1)) of
                   (Some err, s2) \<Rightarrow>
                     (ProxyError 502 (''could not synchronize local model: '' @ error_text err),
                      proxy_releaseLease env (ls_LeaseID lease) (s2, snd w1))
                 | (None, s2) \<Rightarrow>
                     (case forward env (ls_Endpoint lease) (ls_Token lease) (ls_ModelDigest lease) body ''host unavailable''
                             [ls_NodeID lease] s2 of
                        (reply, s3) \<Rightarrow> (reply, proxy_releaseLease env (ls_LeaseID lease) (s3, snd w1))))))"

definition proxy_chat :: "'s proxy_env \<Rightarrow> body_codec \<Rightarrow> ProxyServer \<Rightarrow> file_system \<Rightarrow> byte list option \<Rightarrow> chat_headers \<Rightarrow>
    's \<times> resource_call list \<Rightarrow> proxy_reply \<times> 's \<times> resource_call list" where
  "proxy_chat env codec p fs raw hdr w =
     (case raw of
        None \<Rightarrow> (ProxyError 400 ''invalid body'', w)
      | Some bytes \<Rightarrow>
          let body = take 4194304 bytes;
              model = (case probe_model codec body of None \<Rightarrow> '''' | Some m \<Rightarrow> m);
              vram = (if ch_MinVRAM hdr = '''' then Some 0 else Atoi (ch_MinVRAM hdr));
              entry = Lookup (px_catalog p) model;
              execution = (let e = ToLower (TrimSpace (ch_Execution hdr))
                           in if e = '''' \<and> px_distributedDefault p then ''distributed'' else e)
          in if model = '''' then (ProxyError 400 ''model is required'', w)
             else if vram = None \<or> the vram < 0
             then (ProxyError 400 ''X-AIPool-Min-VRAM-MB must be a non-negative integer'', w)
             else if px_catalog p \<noteq> None \<and> entry = None
             then (ProxyError 404 ''model is not present in the requester's local catalog'', w)
             else if execution \<notin> {'''', ''single'', ''distributed'', ''auto''}
             then (ProxyError 400 ''X-AIPool-Execution must be single, distributed or auto'', w)
             else
               (case entry of
                  Some e \<Rightarrow>
                    if px_distributed p \<and> (execution = ''distributed'' \<or> execution = ''auto'') then
                      (case pe_ensure env (fst w) model e of
                         (Inl err, s1) \<Rightarrow>
                           if execution = ''distributed''
                           then (ProxyError 503 (''distributed inference unavailable: '' @ err), (s1, snd w))
                           else chat_single env p fs model (the vram) hdr entry body (s1, snd w)
                       | (Inr (url, nodes), s1) \<Rightarrow>
                           (case forward env url '''' '''' body ''distributed runtime unavailable'' nodes s1 of
                              (reply, s2) \<Rightarrow> (reply, (s2, snd w))))
                    else chat_single env p fs model (the vram) hdr entry body w
                | None \<Rightarrow> chat_single env p fs model (the vram) hdr entry body w))"

section \<open>Model listing\<close>

text \<open>Without a catalogue, the models of the live nodes, each once, in the order they appear.\<close>

fun list_models :: "int \<Rightarrow> Node list \<Rightarrow> string list \<Rightarrow> string list" where
  "list_models now [] seen = seen"
| "list_models now (n # ns) seen =
     (if \<not> nd_Available n \<or> \<not> rt_Ready (nd_Runtime n) \<or> 90000000000 \<le> now - nd_LastSeen n then list_models now ns seen
      else list_models now ns (foldl (\<lambda>seen m. if m \<in> set seen then seen else seen @ [m]) seen (nd_Models n)))"

datatype models_reply =
    ModelsError nat string
  | LocalModels "(string \<times> string \<times> int) list"
  | PoolModels "string list"

text \<open>\<open>pe_nodes\<close>: the status and decoded body of the node list, \<open>None\<close> without an answer.\<close>

definition proxy_models :: "'s proxy_env \<Rightarrow> ProxyServer \<Rightarrow> int \<Rightarrow> 's \<Rightarrow> models_reply \<times> 's" where
  "proxy_models env p now s =
     (case px_catalog p of
        Some _ \<Rightarrow> (LocalModels (map (\<lambda>e. (lm_ID e, lm_Digest e, lm_Size e)) (Entries (px_catalog p))), s)
      | None \<Rightarrow>
          (case pe_nodes env s of
             (None, s1) \<Rightarrow> (ModelsError 502 ''control plane unavailable'', s1)
           | (Some (code, body), s1) \<Rightarrow>
               if code div 100 \<noteq> 2 then (ModelsError 502 ''control plane rejected model discovery'', s1)
               else (case body of
                       None \<Rightarrow> (ModelsError 502 ''invalid control response'', s1)
                     | Some nodes \<Rightarrow> (PoolModels (list_models now nodes []), s1))))"

section \<open>Routes\<close>

datatype proxy_route = ProxyHealth | ListModels | Completions

datatype proxy_served = ProxyOk | ServedModels models_reply | ServedChat proxy_reply

text \<open>\<open>Handler\<close>: a request on a route, with its body and the headers a chat looks at.\<close>

fun proxy_handler :: "'s proxy_env \<Rightarrow> body_codec \<Rightarrow> ProxyServer \<Rightarrow> file_system \<Rightarrow> int \<Rightarrow> proxy_route \<Rightarrow> byte list option \<Rightarrow> chat_headers \<Rightarrow>
    's \<times> resource_call list \<Rightarrow> proxy_served \<times> 's \<times> resource_call list" where
  "proxy_handler env codec p fs now ProxyHealth raw hdr w = (ProxyOk, w)"
| "proxy_handler env codec p fs now ListModels raw hdr w =
     (case proxy_models env p now (fst w) of (reply, s) \<Rightarrow> (ServedModels reply, s, snd w))"
| "proxy_handler env codec p fs now Completions raw hdr w =
     (case proxy_chat env codec p fs raw hdr w of (reply, w') \<Rightarrow> (ServedChat reply, w'))"

section \<open>Lemmas on the listing\<close>

lemma fold_models:
  "set (foldl (\<lambda>seen m. if m \<in> set seen then seen else seen @ [m]) seen ms) = set seen \<union> set ms"
  "distinct seen \<Longrightarrow> distinct (foldl (\<lambda>seen m. if m \<in> set seen then seen else seen @ [m]) seen ms)"
  by (induction ms arbitrary: seen) auto

text \<open>The listing has each model of a live node once, and no other.\<close>

lemma list_models_live:
  "set (list_models now ns seen) = set seen \<union> (\<Union>n\<in>{n\<in>set ns. nd_Available n \<and> rt_Ready (nd_Runtime n) \<and> now - nd_LastSeen n < 90000000000}. set (nd_Models n))"
  "distinct seen \<Longrightarrow> distinct (list_models now ns seen)"
  by (induction now ns seen rule: list_models.induct) (auto simp: fold_models)

end
