(* ===== verification/Proxy_Correct.thy ===== *)
theory Proxy_Correct
  imports Proxy Host_Correct
begin

text \<open>
  The proxy against its environment: whatever the network answers, every lease a chat acquires is
  released; and against the host of theory \<open>Host\<close>, the upload of a model completes.
\<close>

section \<open>Leases are given back\<close>

lemma holds_release:
  "holds calls (Some i) n \<Longrightarrow> holds (snd (proxy_releaseLease env i (s, calls))) None n"
  by (auto simp: holds_def acquired_of_def released_of_def proxy_releaseLease_def split: if_splits)

lemma lease_attempts_holds:
  "lease_attempts env n req lastErr failed (s, calls) = (r, s', calls') \<Longrightarrow> holds calls None m \<Longrightarrow>
     holds calls' (case r of Inl _ \<Rightarrow> None | Inr lease \<Rightarrow> Some (ls_LeaseID lease)) (m + n)"
proof (induction n arbitrary: req lastErr failed s calls m)
  case 0
  then show ?case by auto
next
  case (Suc n)
  obtain a s1 where lease: "proxy_lease env s req = (a, s1)" by fastforce
  show ?case
  proof (cases a)
    case (Inl e)
    with Suc.prems lease show ?thesis by (auto simp: holds_def)
  next
    case (Inr lease)
    obtain h s2 where healthy: "preflight env s1 (ls_Endpoint lease) = (h, s2)" by fastforce
    have held: "holds (calls @ [Acquired (ls_LeaseID lease)]) (Some (ls_LeaseID lease)) (Suc m)"
      by (rule holds_acquire [OF Suc.prems(2)])
    show ?thesis
    proof (cases h)
      case None
      with Suc.prems lease Inr healthy held show ?thesis by (auto simp: holds_def)
    next
      case (Some err)
      obtain s3 calls3 where w3: "proxy_releaseLease env (ls_LeaseID lease) (s2, calls @ [Acquired (ls_LeaseID lease)]) = (s3, calls3)"
        by fastforce
      have given: "holds calls3 None (Suc m)" using holds_release [OF held, of env s2] w3 by simp
      show ?thesis
      proof (cases "lr_NodeID req = ''''")
        case True
        with Suc.prems(1) lease \<open>a = Inr lease\<close> healthy Some w3
        have "lease_attempts env n (req\<lparr>lr_ExcludeNodeIDs := lr_ExcludeNodeIDs req @ [ls_NodeID lease]\<rparr>) err True (s3, calls3)
            = (r, s', calls')" by (simp add: Let_def)
        from Suc.IH [OF this given] show ?thesis by simp
      next
        case False
        with Suc.prems(1) lease \<open>a = Inr lease\<close> healthy Some w3 given show ?thesis by (auto simp: holds_def Let_def)
      qed
    qed
  qed
qed

lemma chat_single_holds:
  assumes "chat_single env p fs model vram hdr entry body (s, []) = (reply, s', calls)"
  shows "holds calls None 3"
proof (cases "calls = []")
  case True
  then show ?thesis by (simp add: holds_Nil)
next
  case False
  let ?scope = "ToLower (TrimSpace (ch_Scope hdr))"
  let ?req = "\<lparr>lr_Model = model, lr_MinVRAMMB = vram,
     lr_ModelDigest = (case entry of None \<Rightarrow> '''' | Some e \<Rightarrow> lm_Digest e),
     lr_ModelSize = (case entry of None \<Rightarrow> 0 | Some e \<Rightarrow> lm_Size e),
     lr_ModelFormat = (case entry of None \<Rightarrow> '''' | Some e \<Rightarrow> lm_Format e),
     lr_NodeID = TrimSpace (ch_NodeID hdr), lr_Scope = ?scope, lr_ExcludeNodeIDs = []\<rparr>"
  obtain r s1 calls1 where at: "leaseReachable env ?req (s, []) = (r, s1, calls1)" by (metis surj_pair)
  have h: "holds calls1 (case r of Inl _ \<Rightarrow> None | Inr lease \<Rightarrow> Some (ls_LeaseID lease)) 3"
    using lease_attempts_holds [OF at [unfolded leaseReachable_def] holds_Nil [of 0]] by simp
  show ?thesis
  proof (cases r)
    case (Inl e)
    then have "calls = calls1"
      using assms at False by (cases e) (auto simp: chat_single_def Let_def split: if_splits)
    with h Inl show ?thesis by simp
  next
    case (Inr lease)
    have "\<exists>s2. calls = snd (proxy_releaseLease env (ls_LeaseID lease) (s2, calls1))"
      using assms at False Inr
      by (auto simp: chat_single_def Let_def split: if_splits prod.splits option.splits) (metis snd_conv)+
    with holds_release [of calls1 "ls_LeaseID lease" 3 env] h Inr show ?thesis by auto
  qed
qed

text \<open>
  C31. A chat never leaks a lease: whatever the control plane, the hosts and the runtime answer, when
  \<open>chat\<close> returns every lease it acquired, that is, whose grant it could decode, has been released
  exactly as often as it was acquired, a release being the request sent for it, and it acquired at
  most three.
\<close>

theorem proxy_releases_every_lease:
  assumes "proxy_chat env codec p fs raw hdr (s, []) = (reply, s', calls)"
  shows "(\<forall>i. i \<noteq> '''' \<longrightarrow> acquired_of calls i = released_of calls i) \<and> length (filter is_acquired calls) \<le> 3"
proof -
  have "calls = [] \<or> (\<exists>model vram entry body s1. chat_single env p fs model vram hdr entry body (s1, []) = (reply, s', calls))"
    using assms unfolding proxy_chat_def Let_def
    by (auto split: option.splits if_splits prod.splits sum.splits)
  then have "holds calls None 3" by (auto simp: holds_Nil intro: chat_single_holds)
  then show ?thesis by (simp add: holds_def)
qed

section \<open>Uploading to a host\<close>

text \<open>The proxy's requests for the model cache, as they arrive at the host.\<close>

definition cache_request :: "Lease \<Rightarrow> string \<Rightarrow> byte list option \<Rightarrow> http_request" where
  "cache_request lease offset body =
     \<lparr>rq_post = False, rq_authorization = ''Bearer '' @ ls_Token lease, rq_modelDigest = '''', rq_uploadOffset = offset,
      rq_digest = ls_ModelDigest lease, rq_body = body\<rparr>"

fun cache_answer :: "host_reply \<times> HostServer \<Rightarrow> (nat \<times> ModelCacheStatus option) option \<times> HostServer" where
  "cache_answer (CacheStatus st, s) = (Some (200, Some st), s)"
| "cache_answer (HostError code _ _, s) = (Some (code, None), s)"
| "cache_answer (_, s) = (None, s)"

text \<open>
  The network to a host at time \<open>now\<close>: a request whose body is shorter than its announced length is
  not delivered.
\<close>

definition host_env :: "json_codec \<Rightarrow> int \<Rightarrow> HostServer proxy_env \<Rightarrow> HostServer proxy_env" where
  "host_env lib now base = base\<lparr>
     pe_status := (\<lambda>s lease. cache_answer (modelStatus lib no_faults s now (cache_request lease '''' None))),
     pe_upload := (\<lambda>s lease offset len body.
        if int (length body) \<noteq> len then (None, s)
        else cache_answer (modelUpload lib no_faults no_faults s now (cache_request lease (itoa offset) (Some body))))\<rparr>"

text \<open>A lease that the host accepts for a model with this content.\<close>

definition lease_for :: "json_codec \<Rightarrow> int \<Rightarrow> HostConfig \<Rightarrow> Lease \<Rightarrow> byte list \<Rightarrow> bool" where
  "lease_for lib now cfg lease content \<longleftrightarrow>
     hc_ModelStore cfg \<and> content \<noteq> [] \<and> ls_ModelDigest lease = hex_encode (sha256 content) \<and>
     ls_ModelSize lease = int (length content) \<and>
     (\<exists>claims. Verify lib now (string_bytes (hc_LeaseSecret cfg)) (ls_Token lease) = Inr claims \<and>
        cl_NodeID claims = hc_NodeID cfg \<and> cl_ModelDigest claims = ls_ModelDigest lease \<and> cl_ModelSize claims = ls_ModelSize lease)"

lemma lease_for_authorized:
  assumes "lease_for lib now cfg lease content"
  shows "\<exists>claims. authorizeModelTransfer lib cfg now (cache_request lease offset body) = Inr claims \<and>
    cl_ModelDigest claims = hex_encode (sha256 content) \<and> cl_ModelSize claims = int (length content)"
proof -
  obtain claims where c: "Verify lib now (string_bytes (hc_LeaseSecret cfg)) (ls_Token lease) = Inr claims"
    "cl_NodeID claims = hc_NodeID cfg" "cl_ModelDigest claims = ls_ModelDigest lease" "cl_ModelSize claims = ls_ModelSize lease"
    using assms by (auto simp: lease_for_def)
  have "ls_Token lease \<noteq> []" using c(1) by (auto simp: Verify_def)
  then have "Bearer (rq_authorization (cache_request lease offset body)) = ls_Token lease"
    by (simp add: cache_request_def Bearer_def)
  then show ?thesis
    using assms c by (intro exI [of _ claims]) (auto simp: authorizeModelTransfer_Inr lease_for_def leased_def cache_request_def)
qed

lemma Atoi_itoa: "0 \<le> n \<Longrightarrow> n < 9223372036854775808 \<Longrightarrow> Atoi (itoa n) = Some n"
  using Atoi_decimal [of "nat n"] by (simp add: itoa_def)

text \<open>What the host answers to one chunk.\<close>

lemma host_chunk:
  assumes lease: "lease_for lib now (hv_cfg s) lease content" and content: "content = held @ body @ rest" "body \<noteq> []"
    and limit: "int (length body) \<le> hc_MaxUploadChunk (hv_cfg s)" "hc_MaxUploadChunk (hv_cfg s) < 9223372036854775807"
      "length content < 9223372036854775807"
    and files: "map_of (st_files (hv_store s)) (Path (ls_ModelDigest lease)) = None" "part_of (hv_store s) (ls_ModelDigest lease) = held"
  shows "pe_upload (host_env lib now base) s lease (int (length held)) (int (length body)) body =
    (if rest = []
     then (Some (200, Some \<lparr>mc_Digest = ls_ModelDigest lease, mc_Size = int (length content), mc_Received = int (length content), mc_Ready = True\<rparr>),
        s\<lparr>hv_store := os_rename (put_part (hv_store s) (ls_ModelDigest lease) content) (partPath (ls_ModelDigest lease)) (Path (ls_ModelDigest lease))\<rparr>)
     else (Some (200, Some \<lparr>mc_Digest = ls_ModelDigest lease, mc_Size = int (length content), mc_Received = int (length (held @ body)), mc_Ready = False\<rparr>),
        s\<lparr>hv_store := put_part (hv_store s) (ls_ModelDigest lease) (held @ body)\<rparr>))"
proof -
  have digest: "ls_ModelDigest lease = hex_encode (sha256 content)" using lease by (simp add: lease_for_def)
  obtain claims where c: "authorizeModelTransfer lib (hv_cfg s) now (cache_request lease (itoa (int (length held))) (Some body)) = Inr claims"
    "cl_ModelDigest claims = hex_encode (sha256 content)" "cl_ModelSize claims = int (length content)"
    using lease_for_authorized [OF lease] by blast
  have "Atoi (itoa (int (length held))) = Some (int (length held))"
    using limit(3) content by (intro Atoi_itoa) simp_all
  moreover note Append_chunk [OF digest content limit files]
  ultimately show ?thesis
    using c digest by (auto simp: host_env_def modelUpload_def cache_request_def)
qed

lemma upload_loop_completes:
  assumes "lease_for lib now (hv_cfg s) lease content"
    and "0 < chunkLimit" "chunkLimit \<le> hc_MaxUploadChunk (hv_cfg s)" "hc_MaxUploadChunk (hv_cfg s) < 9223372036854775807"
      "length content < 9223372036854775807"
    and "content = held @ rest" "rest \<noteq> []" "mc_Received status = int (length held)"
    and "map_of (st_files (hv_store s)) (Path (ls_ModelDigest lease)) = None" "part_of (hv_store s) (ls_ModelDigest lease) = held"
  shows "\<exists>final s'. upload_loop (host_env lib now base) chunkLimit lease content status s = (Inr final, s') \<and> mc_Ready final \<and>
    map_of (st_files (hv_store s')) (Path (ls_ModelDigest lease)) = Some content \<and> s' = s\<lparr>hv_store := hv_store s'\<rparr>"
  using assms
proof (induction "length rest" arbitrary: held rest status s rule: less_induct)
  case less
  have sz: "ls_ModelSize lease = int (length content)" using less.prems(1) by (simp add: lease_for_def)
  define n where "n = nat (min (int (length rest)) chunkLimit)"
  define body where "body = take n rest"
  have n: "0 < n" "n \<le> length rest" "int n \<le> chunkLimit" using less.prems(2,7) by (auto simp: n_def)
  have body: "body \<noteq> []" "length body = n" "content = held @ body @ drop n rest"
    using n less.prems(6) by (auto simp: body_def)
  have args: "min (ls_ModelSize lease - mc_Received status) chunkLimit = int (length body)"
    "section_bytes content (mc_Received status) (int (length body)) = body"
    using less.prems(6,8) sz n body by (simp_all add: n_def section_bytes_def body_def)
  have more: "\<not> ls_ModelSize lease \<le> mc_Received status" using less.prems(6,7,8) sz by (cases rest) simp_all
  let ?d = "ls_ModelDigest lease"
  have up: "pe_upload (host_env lib now base) s lease (int (length held)) (int (length body)) body =
    (if drop n rest = []
     then (Some (200, Some \<lparr>mc_Digest = ?d, mc_Size = int (length content), mc_Received = int (length content), mc_Ready = True\<rparr>),
        s\<lparr>hv_store := os_rename (put_part (hv_store s) ?d content) (partPath ?d) (Path ?d)\<rparr>)
     else (Some (200, Some \<lparr>mc_Digest = ?d, mc_Size = int (length content), mc_Received = int (length (held @ body)), mc_Ready = False\<rparr>),
        s\<lparr>hv_store := put_part (hv_store s) ?d (held @ body)\<rparr>))"
    using less.prems n(3) body by (intro host_chunk) auto
  show ?case
  proof (cases "drop n rest = []")
    case True
    let ?final = "\<lparr>mc_Digest = ?d, mc_Size = int (length content), mc_Received = int (length content), mc_Ready = True\<rparr>"
    have "upload_loop (host_env lib now base) chunkLimit lease content ?final s1 = (Inr ?final, s1)" for s1
      by (simp add: upload_loop.simps sz)
    then have "upload_loop (host_env lib now base) chunkLimit lease content status s =
        (Inr ?final, s\<lparr>hv_store := os_rename (put_part (hv_store s) ?d content) (partPath ?d) (Path ?d)\<rparr>)"
      using more args up True less.prems(8) sz by (simp add: upload_loop.simps [of _ _ _ _ status] Let_def)
    then show ?thesis by (simp add: files_rename files_put_part)
  next
    case False
    let ?next = "\<lparr>mc_Digest = ?d, mc_Size = int (length content), mc_Received = int (length (held @ body)), mc_Ready = False\<rparr>"
    let ?s = "s\<lparr>hv_store := put_part (hv_store s) ?d (held @ body)\<rparr>"
    have "upload_loop (host_env lib now base) chunkLimit lease content status s =
        upload_loop (host_env lib now base) chunkLimit lease content ?next ?s"
      using more args up False less.prems(8) body(1) by (simp add: upload_loop.simps [of _ _ _ _ status] Let_def)
    moreover have "length (drop n rest) < length rest" using n by simp
    from less.hyps [OF this, of ?s "held @ body" ?next] less.prems body False
    have "\<exists>final s'. upload_loop (host_env lib now base) chunkLimit lease content ?next ?s = (Inr final, s') \<and> mc_Ready final \<and>
        map_of (st_files (hv_store s')) (Path ?d) = Some content \<and> s' = ?s\<lparr>hv_store := hv_store s'\<rparr>"
      by (simp add: files_put_part)
    ultimately show ?thesis by simp
  qed
qed

lemma ensureModel_completes:
  assumes "lease_for lib now (hv_cfg s) lease content"
    and "0 < chunkLimit" "chunkLimit \<le> hc_MaxUploadChunk (hv_cfg s)" "hc_MaxUploadChunk (hv_cfg s) < 9223372036854775807"
      "length content < 9223372036854775807"
    and "map_of (st_files (hv_store s)) (Path (ls_ModelDigest lease)) = Some content \<or>
      map_of (st_files (hv_store s)) (Path (ls_ModelDigest lease)) = None \<and>
      content = part_of (hv_store s) (ls_ModelDigest lease) @ rest"
  shows "\<exists>s'. ensureModel (host_env lib now base) chunkLimit lease (Some content) s = (None, s') \<and>
    map_of (st_files (hv_store s')) (Path (ls_ModelDigest lease)) = Some content \<and> s' = s\<lparr>hv_store := hv_store s'\<rparr>"
proof -
  let ?d = "ls_ModelDigest lease" and ?env = "host_env lib now base"
  have d: "?d = hex_encode (sha256 content)" "content \<noteq> []" "ls_ModelSize lease = int (length content)"
    using assms(1) by (simp_all add: lease_for_def)
  have v: "validate ?d (int (length content))" unfolding d(1) validate_digest using d(2) .
  obtain claims where c: "authorizeModelTransfer lib (hv_cfg s) now (cache_request lease '''' None) = Inr claims"
    "cl_ModelDigest claims = ?d" "cl_ModelSize claims = int (length content)"
    using lease_for_authorized [OF assms(1)] d(1) by metis
  obtain st err store where stat: "Status no_faults (hv_store s) ?d (int (length content)) = ((st, err), store)" by (metis surj_pair)
  have ans: "proxy_modelStatus ?env lease s = (Inr st, s\<lparr>hv_store := store\<rparr>)" if "err = None"
    using c stat that by (simp add: proxy_modelStatus_def host_env_def modelStatus_def)
  show ?thesis
  proof (cases "map_of (st_files (hv_store s)) (Path ?d) = Some content \<or> rest = []")
    case True
    then have "err = None \<and> mc_Ready st \<and> map_of (st_files store) (Path ?d) = Some content"
      using assms(6) stat v d
      by (auto simp: Status_def statusUnlocked_def no_faults_def verifyFile_def files_rename Let_def split: option.splits if_splits)
    with ans show ?thesis by (simp add: ensureModel_def)
  next
    case False
    then have f: "map_of (st_files (hv_store s)) (Path ?d) = None" "content = part_of (hv_store s) ?d @ rest" "rest \<noteq> []"
      using assms(6) by auto
    then have lt: "length (part_of (hv_store s) ?d) < length content" by (metis length_append length_greater_0_conv less_add_same_cancel1)
    have st: "err = None" "\<not> mc_Ready st" "mc_Received st = int (length (part_of (hv_store s) ?d))" "store = hv_store s"
      using stat v f(1) lt
      by (auto simp: Status_def statusUnlocked_def no_faults_def Let_def split: option.splits if_splits)
    obtain final s' where "upload_loop ?env chunkLimit lease content st s = (Inr final, s')" "mc_Ready final"
      "map_of (st_files (hv_store s')) (Path ?d) = Some content" "s' = s\<lparr>hv_store := hv_store s'\<rparr>"
      using upload_loop_completes [OF assms(1-5) f(2,3) st(3) f(1) refl] by blast
    with ans [OF st(1)] st show ?thesis by (simp add: ensureModel_def)
  qed
qed

text \<open>
  Synchronizing a model always completes: with a lease the host accepts for the file's digest and
  size, chunks within the host's limit, and no failing system call, \<open>ensureModel\<close> against the host
  returns without an error and leaves exactly the file stored under its digest, whether the host has
  nothing, the model already, or any part of it from an earlier upload.
\<close>

theorem proxy_upload_completes:
  assumes "lease_for lib now (hv_cfg s) lease content"
    and "0 < chunkLimit" "chunkLimit \<le> hc_MaxUploadChunk (hv_cfg s)" "hc_MaxUploadChunk (hv_cfg s) < 9223372036854775807"
      "length content < 9223372036854775807"
    and "map_of (st_files (hv_store s)) (Path (ls_ModelDigest lease)) = Some content \<or>
      map_of (st_files (hv_store s)) (Path (ls_ModelDigest lease)) = None \<and>
      content = part_of (hv_store s) (ls_ModelDigest lease) @ rest"
  shows "\<exists>s'. ensureModel (host_env lib now base) chunkLimit lease (Some content) s = (None, s') \<and>
    map_of (st_files (hv_store s')) (Path (ls_ModelDigest lease)) = Some content \<and> hv_cfg s' = hv_cfg s"
proof -
  obtain s' where s': "ensureModel (host_env lib now base) chunkLimit lease (Some content) s = (None, s')"
    "map_of (st_files (hv_store s')) (Path (ls_ModelDigest lease)) = Some content" "s' = s\<lparr>hv_store := hv_store s'\<rparr>"
    using ensureModel_completes [OF assms] by blast
  then have "hv_cfg s' = hv_cfg s" by (cases s, cases s') simp
  with s' show ?thesis by blast
qed

section \<open>Examples\<close>

definition silent_env :: "'s proxy_env" where
  "silent_env = \<lparr>pe_lease = (\<lambda>s _. (Inl ''no control plane'', s)), pe_release = (\<lambda>s _. s), pe_http_url = (\<lambda>_. True),
     pe_health = (\<lambda>s _. (Inr (200, ''200 OK''), s)), pe_nodes = (\<lambda>s. (None, s)),
     pe_status = (\<lambda>s _. (None, s)), pe_upload = (\<lambda>s _ _ _ _. (None, s)), pe_chat = (\<lambda>s _ _ _ _. (None, s)),
     pe_ensure = (\<lambda>s _ _. (Inl '''', s))\<rparr>"

text \<open>A control plane that leases one host after the other, none of which is healthy.\<close>

definition unhealthy_env :: "nat proxy_env" where
  "unhealthy_env = silent_env\<lparr>
     pe_lease := (\<lambda>n _. (Inr (201, ''201 Created'', Inr \<lparr>ls_LeaseID = decimal n, ls_NodeID = decimal n, ls_Endpoint = '''', ls_Model = '''', ls_Token = '''',
        ls_ExpiresAt = 0, ls_ModelDigest = '''', ls_ModelSize = 0, ls_ModelFormat = ''''\<rparr>), n + 1)),
     pe_health := (\<lambda>n _. (Inl ''down'', n))\<rparr>"

definition sample_proxy :: ProxyServer where
  "sample_proxy = proxy_New ''http://c'' [''s'']"

definition no_headers :: chat_headers where
  "no_headers = \<lparr>ch_MinVRAM = '''', ch_Execution = '''', ch_NodeID = '''', ch_Scope = ''''\<rparr>"

theorem proxy_releases_every_lease_witness:
  "\<exists>reply s' calls. proxy_chat unhealthy_env sample_chat_codec sample_proxy (\<lambda>_. None) (Some [1]) no_headers (0, []) = (reply, s', calls) \<and>
     acquired_of calls ''2'' = 1 \<and> released_of calls ''2'' = 1"
proof -
  let ?run = "proxy_chat unhealthy_env sample_chat_codec sample_proxy (\<lambda>_. None) (Some [1]) no_headers (0, [])"
  obtain reply s' calls where run: "?run = (reply, s', calls)" by (metis surj_pair)
  have "?run = chat_single unhealthy_env sample_proxy (\<lambda>_. None) ''m'' 0 no_headers None [1] (0, [])"
    by (simp add: proxy_chat_def sample_chat_codec_def no_headers_def sample_proxy_def proxy_New_def proxy_config_def NewWithConfig_def Lookup_def ToLower_def
        TrimSpace_def)
  moreover have "acquired_of (snd (snd (chat_single unhealthy_env sample_proxy (\<lambda>_. None) ''m'' 0 no_headers None [1] (0, [])))) ''2'' = 1"
    by code_simp
  ultimately have "acquired_of (snd (snd ?run)) ''2'' = 1" by simp
  with proxy_releases_every_lease [OF run] run show ?thesis by auto
qed

definition sample_held_host :: HostServer where
  "sample_held_host = sample_host\<lparr>hv_store := \<lparr>st_files = [(partPath sample_digest, [1])]\<rparr>\<rparr>"

definition sample_model_lease :: Lease where
  "sample_model_lease = \<lparr>ls_LeaseID = ''l'', ls_NodeID = ''n1'', ls_Endpoint = '''', ls_Model = ''m'', ls_Token = sample_token ''s'',
     ls_ExpiresAt = 100, ls_ModelDigest = sample_digest, ls_ModelSize = 3, ls_ModelFormat = ''gguf''\<rparr>"

theorem proxy_upload_completes_witness:
  "\<exists>s'. ensureModel (host_env (one_claims_codec host_claims) 0 silent_env) 1 sample_model_lease (Some [1, 2, 3]) sample_held_host
     = (None, s') \<and> map_of (st_files (hv_store s')) (Path sample_digest) = Some [1, 2, 3]"
proof -
  have "Verify (one_claims_codec host_claims) 0 (string_bytes ''s'') (sample_token ''s'') = Inr host_claims"
    by (rule Verify_one_codec) (simp add: unix_def)
  then have l: "lease_for (one_claims_codec host_claims) 0 (hv_cfg sample_held_host) sample_model_lease [1, 2, 3]"
    by (simp add: lease_for_def sample_held_host_def sample_model_lease_def) (simp add: sample_digest_def)
  have "\<exists>s'. ensureModel (host_env (one_claims_codec host_claims) 0 silent_env) 1 sample_model_lease (Some [1, 2, 3]) sample_held_host
      = (None, s') \<and> map_of (st_files (hv_store s')) (Path (ls_ModelDigest sample_model_lease)) = Some [1, 2, 3] \<and>
      hv_cfg s' = hv_cfg sample_held_host"
    by (rule proxy_upload_completes [OF l, where rest = "[2, 3]"]) (simp_all add: sample_held_host_def sample_model_lease_def)
  moreover have "ls_ModelDigest sample_model_lease = sample_digest" by (simp add: sample_model_lease_def)
  ultimately show ?thesis by auto
qed

end
