(* ===== verification/Runtimes.thy ===== *)
theory Runtimes
  imports Go_Strings
begin

text \<open>
  The processes the program starts: the distributed runtime (\<open>src/internal/distributed/llamarpc.go\<close>) and the
  managed runtime of a host (\<open>src/internal/managedruntime/llama.go\<close>). The operating system is a table of
  living processes with their command lines; what a call meets outside of it (whether files exist,
  whether the process can be started, what each health check answers and which event each wait ends
  with) is a script.
\<close>

section \<open>Processes\<close>

record process_world =
  pw_next :: nat
  pw_alive :: "(nat \<times> string list) list"

definition start_process :: "string list \<Rightarrow> process_world \<Rightarrow> nat \<times> process_world" where
  "start_process command w =
     (pw_next w, \<lparr>pw_next = Suc (pw_next w), pw_alive = pw_alive w @ [(pw_next w, command)]\<rparr>)"

text \<open>
  A process ends by itself or because it is killed. A kill is taken to end the process before the call that
  kills it returns: the wait of at most five seconds for its end, in \<open>stopLocked\<close>, is not a step of the model.
\<close>

definition end_process :: "nat \<Rightarrow> process_world \<Rightarrow> process_world" where
  "end_process pid w = w\<lparr>pw_alive := filter (\<lambda>p. fst p \<noteq> pid) (pw_alive w)\<rparr>"

section \<open>Waiting for a server\<close>

text \<open>The events of the \<open>select\<close> statements: the request's context ends, the process exits, the deadline passes, a tick.\<close>

datatype wait_event = Cancelled | Exited | TimedOut | Tick

datatype wait_result = Healthy | Ended wait_event | Waiting

text \<open>
  The loop of \<open>Start\<close> and \<open>Ensure\<close>: a health check, then an event. \<open>Waiting\<close> is a loop that has not ended
  with the events of the script.
\<close>

fun await_ready :: "(bool \<times> wait_event) list \<Rightarrow> wait_result" where
  "await_ready [] = Waiting"
| "await_ready ((ok, event) # polls) =
     (if ok then Healthy else if event = Tick then await_ready polls else Ended event)"

text \<open>\<open>sc_file\<close>: whether a path can be examined, and whether it is a directory.\<close>

record start_script =
  sc_file :: "string \<Rightarrow> bool option"
  sc_healthy :: bool
  sc_spawn :: bool
  sc_polls :: "(bool \<times> wait_event) list"

definition is_file :: "start_script \<Rightarrow> string \<Rightarrow> bool" where
  "is_file sc path \<longleftrightarrow> sc_file sc path = Some False"

datatype runtime_error = Unavailable string | SpawnFailed | ContextEnded | ServerExited | StartTimedOut

section \<open>The distributed runtime\<close>

record LlamaRPC =
  ll_Executable :: string
  ll_ModelPath :: string
  ll_Host :: string
  ll_Port :: int
  ll_Context :: int
  ll_GPULayers :: int
  ll_RPCServers :: "string list"
  ll_ExtraArgs :: "string list"
  ll_cmd :: "nat option"

definition llama_Available :: "(string \<Rightarrow> bool) \<Rightarrow> LlamaRPC \<Rightarrow> string option" where
  "llama_Available regular l =
     (if ll_Executable l = '''' then Some ''llama-server executable is required''
      else if \<not> regular (ll_Executable l) then Some ''llama-server is unavailable''
      else if ll_ModelPath l = '''' then Some ''GGUF model path is required''
      else if \<not> regular (ll_ModelPath l) then Some ''GGUF model is unavailable''
      else if length (ll_RPCServers l) < 2 then Some ''distributed inference requires at least two RPC workers''
      else None)"

definition llama_defaults :: "LlamaRPC \<Rightarrow> LlamaRPC" where
  "llama_defaults l =
     l\<lparr>ll_Host := (if ll_Host l = '''' then ''127.0.0.1'' else ll_Host l),
       ll_Port := (if ll_Port l = 0 then 18082 else ll_Port l),
       ll_Context := (if ll_Context l \<le> 0 then 4096 else ll_Context l),
       ll_GPULayers := (if ll_GPULayers l = 0 then 999 else ll_GPULayers l)\<rparr>"

definition llama_args :: "LlamaRPC \<Rightarrow> string list" where
  "llama_args l =
     [''--model'', ll_ModelPath l, ''--host'', ll_Host l, ''--port'', itoa (ll_Port l), ''--ctx-size'', itoa (ll_Context l),
      ''--n-gpu-layers'', itoa (ll_GPULayers l), ''--rpc'', join_comma (ll_RPCServers l)] @ ll_ExtraArgs l"

definition llama_stopLocked :: "LlamaRPC \<Rightarrow> process_world \<Rightarrow> LlamaRPC \<times> process_world" where
  "llama_stopLocked l w =
     (l\<lparr>ll_cmd := None\<rparr>, case ll_cmd l of None \<Rightarrow> w | Some pid \<Rightarrow> end_process pid w)"

text \<open>\<open>None\<close>: the call still waits when the script ends.\<close>

definition llama_Start :: "start_script \<Rightarrow> LlamaRPC \<Rightarrow> process_world \<Rightarrow>
    ((runtime_error + string) \<times> LlamaRPC \<times> process_world) option" where
  "llama_Start sc l0 w =
     (case llama_Available (is_file sc) l0 of
        Some e \<Rightarrow> Some (Inl (Unavailable e), l0, w)
      | None \<Rightarrow>
          let l = llama_defaults l0
          in if \<not> sc_spawn sc then Some (Inl SpawnFailed, l, w)
             else
               (case start_process (ll_Executable l # llama_args l) w of
                  (pid, w1) \<Rightarrow>
                    let l1 = l\<lparr>ll_cmd := Some pid\<rparr>
                    in (case await_ready (sc_polls sc) of
                          Healthy \<Rightarrow> Some (Inr (''http://'' @ JoinHostPort (ll_Host l) (itoa (ll_Port l))), l1, w1)
                        | Ended Cancelled \<Rightarrow> Some (Inl ContextEnded, llama_stopLocked l1 w1)
                        | Ended Exited \<Rightarrow> Some (Inl ServerExited, l1, end_process pid w1)
                        | Ended TimedOut \<Rightarrow> Some (Inl StartTimedOut, llama_stopLocked l1 w1)
                        | _ \<Rightarrow> None)))"

section \<open>The managed runtime\<close>

record Llama =
  la_Executable :: string
  la_Host :: string
  la_Port :: int
  la_GPULayers :: int
  la_ContextSize :: int
  la_ExtraArgs :: "string list"
  la_cmd :: "nat option"
  la_digest :: string
  la_modelID :: string

definition NewLlama :: "string \<Rightarrow> int \<Rightarrow> Llama" where
  "NewLlama executable port =
     \<lparr>la_Executable = executable, la_Host = ''127.0.0.1'', la_Port = (if port = 0 then 18081 else port), la_GPULayers = 99,
      la_ContextSize = 4096, la_ExtraArgs = [], la_cmd = None, la_digest = '''', la_modelID = ''''\<rparr>"

definition managed_Available :: "start_script \<Rightarrow> Llama \<Rightarrow> string option" where
  "managed_Available sc l =
     (if la_Executable l = '''' then Some ''managed llama-server executable is not configured''
      else (case sc_file sc (la_Executable l) of
              None \<Rightarrow> Some ''managed llama-server not found''
            | Some True \<Rightarrow> Some ''managed llama-server path is a directory''
            | Some False \<Rightarrow> None))"

definition managed_args :: "Llama \<Rightarrow> string \<Rightarrow> string \<Rightarrow> string list" where
  "managed_args l modelID modelPath =
     [''--model'', modelPath, ''--host'', la_Host l, ''--port'', itoa (la_Port l), ''--alias'', modelID,
      ''--n-gpu-layers'', itoa (la_GPULayers l), ''--ctx-size'', itoa (la_ContextSize l), ''--parallel'', ''1''] @ la_ExtraArgs l"

definition managed_stopLocked :: "Llama \<Rightarrow> process_world \<Rightarrow> Llama \<times> process_world" where
  "managed_stopLocked l w =
     (l\<lparr>la_cmd := None, la_digest := '''', la_modelID := ''''\<rparr>, case la_cmd l of None \<Rightarrow> w | Some pid \<Rightarrow> end_process pid w)"

definition managed_Ensure :: "start_script \<Rightarrow> Llama \<Rightarrow> string \<Rightarrow> string \<Rightarrow> string \<Rightarrow> process_world \<Rightarrow>
    ((runtime_error + string) \<times> Llama \<times> process_world) option" where
  "managed_Ensure sc l0 modelID digest modelPath w0 =
     (let baseURL = ''http://'' @ JoinHostPort (la_Host l0) (itoa (la_Port l0))
      in if la_cmd l0 \<noteq> None \<and> la_digest l0 = digest \<and> sc_healthy sc then Some (Inr baseURL, l0, w0)
         else
           (case managed_stopLocked l0 w0 of
              (l, w) \<Rightarrow>
                (case managed_Available sc l of
                   Some e \<Rightarrow> Some (Inl (Unavailable e), l, w)
                 | None \<Rightarrow>
                     if \<not> sc_spawn sc then Some (Inl SpawnFailed, l, w)
                     else
                       (case start_process (la_Executable l # managed_args l modelID modelPath) w of
                          (pid, w1) \<Rightarrow>
                            let l1 = l\<lparr>la_cmd := Some pid, la_digest := digest, la_modelID := modelID\<rparr>
                            in (case await_ready (sc_polls sc) of
                                  Healthy \<Rightarrow> Some (Inr baseURL, l1, w1)
                                | Ended Cancelled \<Rightarrow> Some (Inl ContextEnded, l1, w1)
                                | Ended Exited \<Rightarrow> Some (Inl ServerExited, l1, end_process pid w1)
                                | Ended TimedOut \<Rightarrow> Some (Inl StartTimedOut, managed_stopLocked l1 w1)
                                | _ \<Rightarrow> None)))))"

definition managed_Close :: "Llama \<Rightarrow> process_world \<Rightarrow> Llama \<times> process_world" where
  "managed_Close l w = managed_stopLocked l w"

text \<open>What happens to a managed runtime: its two operations, and processes that end by themselves.\<close>

datatype managed_event = CallManagedEnsure start_script string string string | CallManagedClose | ProcessEnds nat

fun run_managed :: "managed_event list \<Rightarrow> Llama \<Rightarrow> process_world \<Rightarrow> (Llama \<times> process_world) option" where
  "run_managed [] l w = Some (l, w)"
| "run_managed (CallManagedEnsure sc modelID digest modelPath # es) l w =
     (case managed_Ensure sc l modelID digest modelPath w of
        None \<Rightarrow> None
      | Some (_, l', w') \<Rightarrow> run_managed es l' w')"
| "run_managed (CallManagedClose # es) l w = (case managed_Close l w of (l', w') \<Rightarrow> run_managed es l' w')"
| "run_managed (ProcessEnds pid # es) l w = run_managed es l (end_process pid w)"

section \<open>Lemmas\<close>

lemma await_ready_returns:
  "\<exists>p\<in>set polls. fst p \<or> snd p \<noteq> Tick \<Longrightarrow> await_ready polls \<noteq> Waiting"
  by (induction polls rule: await_ready.induct) auto

lemma await_ready_Tick [simp]: "await_ready polls \<noteq> Ended Tick"
  by (induction polls rule: await_ready.induct) auto

lemma end_process_fields [simp]:
  "pw_next (end_process pid w) = pw_next w" "pw_alive (end_process pid w) = filter (\<lambda>p. fst p \<noteq> pid) (pw_alive w)"
  by (simp_all add: end_process_def)

text \<open>
  Only the process of the runtime lives, and it serves the model file that belongs to the runtime's
  digest; \<open>path_of\<close> gives the file of a digest.
\<close>

definition only_own :: "(string \<Rightarrow> string) \<Rightarrow> Llama \<Rightarrow> process_world \<Rightarrow> bool" where
  "only_own path_of l w \<longleftrightarrow>
     (\<forall>(pid, command)\<in>set (pw_alive w). la_cmd l = Some pid \<and>
        (\<exists>modelID. command = la_Executable l # managed_args l modelID (path_of (la_digest l)))) \<and>
     length (pw_alive w) \<le> 1"

lemma filter_own:
  assumes "\<forall>(pid, command)\<in>set ps. c = Some pid"
  shows "(case c of None \<Rightarrow> ps | Some pid \<Rightarrow> filter (\<lambda>p. fst p \<noteq> pid) ps) = []"
  using assms by (cases c; cases ps) (auto simp: filter_empty_conv)

lemma managed_stop_alive:
  assumes "only_own path_of l w" "managed_stopLocked l w = (l', w')"
  shows "pw_alive w' = [] \<and> la_cmd l' = None \<and> la_Executable l' = la_Executable l \<and> managed_args l' = managed_args l"
proof -
  have "pw_alive w' = (case la_cmd l of None \<Rightarrow> pw_alive w | Some pid \<Rightarrow> filter (\<lambda>p. fst p \<noteq> pid) (pw_alive w))"
    using assms(2) by (auto simp: managed_stopLocked_def split: option.splits)
  also have "\<dots> = []" using assms(1) by (intro filter_own) (auto simp: only_own_def)
  finally show ?thesis using assms(2) by (auto simp: managed_stopLocked_def managed_args_def fun_eq_iff)
qed

lemma only_own_empty: "pw_alive w = [] \<Longrightarrow> only_own path_of l w"
  by (simp add: only_own_def)

lemma only_own_end: "only_own path_of l w \<Longrightarrow> only_own path_of l (end_process pid w)"
  by (auto simp: only_own_def intro: le_trans [OF length_filter_le])

text \<open>The ways \<open>Ensure\<close> ends, with the runtime \<open>l1\<close> and the processes \<open>w1\<close> left by stopping the old one.\<close>

lemma managed_Ensure_cases:
  assumes "managed_Ensure sc l modelID digest path w = Some (r, l', w')" "managed_stopLocked l w = (l1, w1)"
  obtains (running) url where "r = Inr url" "l' = l" "w' = w" "la_digest l = digest" "la_cmd l \<noteq> None"
  | (failed) e where "r = Inl e" "l' = l1" "w' = w1"
  | (started) "l' = l1\<lparr>la_cmd := Some (pw_next w1), la_digest := digest, la_modelID := modelID\<rparr>"
      "w' = snd (start_process (la_Executable l1 # managed_args l1 modelID path) w1)"
  | (exited) e where "r = Inl e" "l' = l1\<lparr>la_cmd := Some (pw_next w1), la_digest := digest, la_modelID := modelID\<rparr>"
      "w' = end_process (pw_next w1) (snd (start_process (la_Executable l1 # managed_args l1 modelID path) w1))"
  | (stopped) e where "r = Inl e"
      "(l', w') = managed_stopLocked (l1\<lparr>la_cmd := Some (pw_next w1), la_digest := digest, la_modelID := modelID\<rparr>)
         (snd (start_process (la_Executable l1 # managed_args l1 modelID path) w1))"
proof (cases "la_cmd l \<noteq> None \<and> la_digest l = digest \<and> sc_healthy sc")
  case True
  with assms(1) show thesis by (auto simp: managed_Ensure_def Let_def intro: running)
next
  case False
  note run = assms(1) [unfolded managed_Ensure_def Let_def assms(2) case_prod_conv if_not_P [OF False]]
  show thesis
  proof (cases "managed_Available sc l1 = None \<and> sc_spawn sc")
    case True
    with run show thesis
      by (cases "await_ready (sc_polls sc)" rule: wait_result.exhaust)
         (auto simp: start_process_def split: wait_event.splits intro: started exited stopped)
  qed (use run in \<open>auto split: option.splits if_splits intro: failed\<close>)
qed

lemma managed_Ensure_own:
  assumes "only_own path_of l w" "managed_Ensure sc l modelID digest (path_of digest) w = Some (r, l', w')"
  shows "only_own path_of l' w'" and "r = Inr url \<Longrightarrow> la_digest l' = digest \<and> la_cmd l' \<noteq> None"
proof -
  obtain l1 w1 where stop: "managed_stopLocked l w = (l1, w1)" by fastforce
  note empty = managed_stop_alive [OF assms(1) stop]
  from assms(2) stop show "only_own path_of l' w'"
  proof (cases rule: managed_Ensure_cases)
    case started
    moreover have "managed_args l' = managed_args l1" using started by (simp add: managed_args_def fun_eq_iff)
    ultimately show ?thesis using empty by (auto simp: only_own_def start_process_def)
  next
    case stopped
    then show ?thesis using empty by (auto simp: only_own_def start_process_def managed_stopLocked_def)
  qed (use assms(1) empty in \<open>auto simp: start_process_def intro: only_own_empty\<close>)
  from assms(2) stop show "r = Inr url \<Longrightarrow> la_digest l' = digest \<and> la_cmd l' \<noteq> None"
    by (cases rule: managed_Ensure_cases) auto
qed

lemma run_managed_own:
  "run_managed events l w = Some (l', w') \<Longrightarrow> only_own path_of l w \<Longrightarrow>
     \<forall>sc modelID digest path. CallManagedEnsure sc modelID digest path \<in> set events \<longrightarrow> path = path_of digest \<Longrightarrow>
     only_own path_of l' w'"
proof (induction events l w rule: run_managed.induct)
  case (2 sc modelID digest modelPath es l w)
  then obtain r l1 w1 where e: "managed_Ensure sc l modelID digest (path_of digest) w = Some (r, l1, w1)"
    by (auto split: option.splits)
  with 2 managed_Ensure_own(1) [OF 2(3) e] show ?case by auto
next
  case (3 es l w)
  obtain l1 w1 where c: "managed_stopLocked l w = (l1, w1)" by fastforce
  with 3 managed_stop_alive [OF 3(3) c] show ?case by (auto simp: managed_Close_def intro: only_own_empty)
next
  case (4 pid es l w)
  then show ?case by (auto intro: only_own_end)
qed simp

text \<open>
  C32. A host runs at most one managed runtime, and for the right model: after any calls of \<open>Ensure\<close> and
  \<open>Close\<close>, whatever the health checks answer and however processes end, at most one process it
  started lives, that process is the one it holds and serves the file of the digest it holds; when
  \<open>Ensure\<close> returns an address, that digest is the requested one; after \<open>Close\<close> no process lives. A killed
  process is taken to end at once.
\<close>

theorem managed_runtime_one_process:
  assumes "run_managed events (NewLlama executable port) \<lparr>pw_next = 0, pw_alive = []\<rparr> = Some (l, w)"
    and "\<forall>sc modelID digest path. CallManagedEnsure sc modelID digest path \<in> set events \<longrightarrow> path = path_of digest"
  shows "length (pw_alive w) \<le> 1 \<and>
    (\<forall>(pid, command)\<in>set (pw_alive w). la_cmd l = Some pid \<and>
       (\<exists>modelID. command = la_Executable l # managed_args l modelID (path_of (la_digest l)))) \<and>
    (\<forall>sc modelID digest url l' w'. managed_Ensure sc l modelID digest (path_of digest) w = Some (Inr url, l', w') \<longrightarrow>
       la_digest l' = digest \<and> length (pw_alive w') \<le> 1 \<and> (\<forall>(pid, command)\<in>set (pw_alive w'). command ! 2 = path_of digest)) \<and>
    pw_alive (snd (managed_Close l w)) = []"
proof -
  have own: "only_own path_of l w" by (rule run_managed_own [OF assms(1) _ assms(2)]) (simp add: only_own_def)
  have "la_digest l' = digest \<and> length (pw_alive w') \<le> 1 \<and> (\<forall>(pid, command)\<in>set (pw_alive w'). command ! 2 = path_of digest)"
    if "managed_Ensure sc l modelID digest (path_of digest) w = Some (Inr url, l', w')" for sc modelID digest url l' w'
    using managed_Ensure_own [OF own that] by (fastforce simp: only_own_def managed_args_def)
  moreover have "pw_alive (snd (managed_Close l w)) = []"
    using managed_stop_alive [OF own] by (simp add: managed_Close_def prod_eq_iff)
  ultimately show ?thesis using own unfolding only_own_def by blast
qed

definition sample_script :: "(bool \<times> wait_event) list \<Rightarrow> start_script" where
  "sample_script polls = \<lparr>sc_file = (\<lambda>_. Some False), sc_healthy = False, sc_spawn = True, sc_polls = polls\<rparr>"

definition sample_events :: "managed_event list" where
  "sample_events = [CallManagedEnsure (sample_script [(False, Tick), (True, Tick)]) ''m'' ''d1'' ''cache/d1'',
     CallManagedEnsure (sample_script [(False, Cancelled)]) ''m'' ''d2'' ''cache/d2'']"

theorem managed_runtime_one_process_witness:
  "\<exists>l w. run_managed sample_events (NewLlama ''llama'' 0) \<lparr>pw_next = 0, pw_alive = []\<rparr> = Some (l, w) \<and>
     map fst (pw_alive w) = [1] \<and> la_digest l = ''d2'' \<and> pw_alive (snd (managed_Close l w)) = []"
proof -
  have "case run_managed sample_events (NewLlama ''llama'' 0) \<lparr>pw_next = 0, pw_alive = []\<rparr> of
      None \<Rightarrow> False | Some (l, w) \<Rightarrow> map fst (pw_alive w) = [1] \<and> la_digest l = ''d2''"
    by (simp add: sample_events_def sample_script_def managed_Ensure_def NewLlama_def managed_stopLocked_def managed_Available_def
        start_process_def Let_def)
  then obtain l w where run: "run_managed sample_events (NewLlama ''llama'' 0) \<lparr>pw_next = 0, pw_alive = []\<rparr> = Some (l, w)"
    and w: "map fst (pw_alive w) = [1]" "la_digest l = ''d2''" by (auto split: option.splits)
  have "\<forall>sc modelID digest path. CallManagedEnsure sc modelID digest path \<in> set sample_events \<longrightarrow> path = ''cache/'' @ digest"
    by (auto simp: sample_events_def)
  with managed_runtime_one_process [OF run, of "(@) ''cache/''"] have "pw_alive (snd (managed_Close l w)) = []" by blast
  with run w show ?thesis by auto
qed

end
