(* ===== verification/Manager.thy ===== *)
theory Manager
  imports Api Gguf Resources Runtimes
begin

text \<open>
  The manager of a distributed runtime (\<open>src/internal/distributed/manager.go\<close>). The network and the
  processes are a record of operations on a state \<open>'s\<close>; the groups it creates and releases are logged.
\<close>

section \<open>State\<close>

record ManagerConfig =
  mg_Executable :: string
  mg_MinNodes :: int
  mg_MaxNodes :: int
  mg_Port :: int
  mg_ContextSize :: int

record Manager =
  mn_cfg :: ManagerConfig
  mn_runtime :: "LlamaRPC option"
  mn_group :: DistributedGroup
  mn_digest :: string
  mn_renewing :: "string option"

definition zero_group :: DistributedGroup where
  "zero_group = \<lparr>dg_GroupID = '''', dg_Model = '''', dg_ModelDigest = '''', dg_LayerCount = 0, dg_HiddenSize = 0, dg_Stages = [],
     dg_ExpiresAt = 0\<rparr>"

definition NewManager :: "ManagerConfig \<Rightarrow> Manager" where
  "NewManager cfg0 =
     (let minNodes = (if mg_MinNodes cfg0 < 2 then 2 else mg_MinNodes cfg0);
          cfg = cfg0\<lparr>mg_MinNodes := minNodes,
            mg_MaxNodes := (if mg_MaxNodes cfg0 < minNodes then minNodes else mg_MaxNodes cfg0),
            mg_Port := (if mg_Port cfg0 = 0 then 18082 else mg_Port cfg0),
            mg_ContextSize := (if mg_ContextSize cfg0 = 0 then 4096 else mg_ContextSize cfg0)\<rparr>
      in \<lparr>mn_cfg = cfg, mn_runtime = None, mn_group = zero_group, mn_digest = '''', mn_renewing = None\<rparr>)"

text \<open>
  \<open>me_health\<close>: the status a URL answers with, if it answers. \<open>me_create\<close>: the status and decoded body of a group request, or an error. \<open>me_start\<close> and \<open>me_stop\<close>: the
  \<open>Start\<close> and \<open>Close\<close> of the runtime object. \<open>me_endpoint\<close>: whether \<open>url.Parse\<close> finds a host and a port.
\<close>

record 's manager_env =
  me_health :: "'s \<Rightarrow> string \<Rightarrow> nat option \<times> 's"
  me_file :: "string \<Rightarrow> byte list option"
  me_create :: "'s \<Rightarrow> DistributedGroupRequest \<Rightarrow> (string + nat \<times> DistributedGroup option) \<times> 's"
  me_release :: "'s \<Rightarrow> string \<Rightarrow> 's"
  me_start :: "'s \<Rightarrow> LlamaRPC \<Rightarrow> ((string + string) \<times> LlamaRPC) \<times> 's"
  me_stop :: "'s \<Rightarrow> LlamaRPC \<Rightarrow> 's"
  me_endpoint :: "string \<Rightarrow> bool"

datatype manager_error =
    ModelUnreadable gguf_error
  | GroupRequestFailed string
  | GroupRefused nat
  | InvalidGroup
  | InvalidStage nat
  | StartFailed string

definition healthy :: "'s manager_env \<Rightarrow> 's \<Rightarrow> string \<Rightarrow> bool \<times> 's" where
  "healthy env s address =
     (case me_health env s (address @ ''/health'') of
        (None, s1) \<Rightarrow> (False, s1)
      | (Some code, s1) \<Rightarrow> (code div 100 = 2, s1))"

definition netJoin :: "string \<Rightarrow> int \<Rightarrow> string" where
  "netJoin host port = host @ '':'' @ itoa port"

section \<open>The group request\<close>

text \<open>
  Embedding and output tensors are added to the first and the last layer. Indexing an empty slice
  would panic; \<open>None\<close> is that panic.
\<close>

definition spread_bytes :: "int list \<Rightarrow> int \<Rightarrow> int list option" where
  "spread_bytes layerBytes nonLayerBytes =
     (if nonLayerBytes \<le> 0 then Some layerBytes
      else if layerBytes = [] then None
      else
        let l1 = layerBytes[0 := i64 (layerBytes ! 0 + i64 (nonLayerBytes + 1) sdiv 2)];
            k = length layerBytes - 1
        in Some (l1[k := i64 (l1 ! k + nonLayerBytes sdiv 2)]))"

definition group_request :: "ManagerConfig \<Rightarrow> string \<Rightarrow> string \<Rightarrow> int \<Rightarrow> Metadata \<Rightarrow> int list \<Rightarrow> DistributedGroupRequest" where
  "group_request cfg modelID digest sz metadata layerBytes =
     \<lparr>gr_Model = modelID, gr_ModelDigest = digest, gr_ModelSize = sz, gr_ModelFormat = ''gguf'',
      gr_LayerCount = md_LayerCount metadata, gr_HiddenSize = md_EmbeddingLength metadata,
      gr_MinNodes = mg_MinNodes cfg, gr_MaxNodes = mg_MaxNodes cfg, gr_Scope = '''', gr_LayerBytes = layerBytes\<rparr>"

section \<open>Operations\<close>

definition releaseGroup :: "'s manager_env \<Rightarrow> string \<Rightarrow> 's \<times> resource_call list \<Rightarrow> 's \<times> resource_call list" where
  "releaseGroup env i w = (me_release env (fst w) i, snd w @ [Released i])"

definition stage_valid :: "'s manager_env \<Rightarrow> StageAssignment \<Rightarrow> bool" where
  "stage_valid env st \<longleftrightarrow> me_endpoint env (''tcp://'' @ TrimPrefix_tcp (sa_Endpoint st)) \<and> sa_NodeID st \<noteq> '''' \<and> 0 < sa_TensorBytes st"

text \<open>The first stage that is not valid.\<close>

fun first_invalid :: "'s manager_env \<Rightarrow> nat \<Rightarrow> StageAssignment list \<Rightarrow> nat option" where
  "first_invalid env i [] = None"
| "first_invalid env i (st # sts) = (if stage_valid env st then first_invalid env (Suc i) sts else Some i)"

definition createGroup :: "'s manager_env \<Rightarrow> DistributedGroupRequest \<Rightarrow> 's \<times> resource_call list \<Rightarrow>
    (manager_error + DistributedGroup) \<times> 's \<times> resource_call list" where
  "createGroup env req w =
     (case me_create env (fst w) req of
        (Inl e, s1) \<Rightarrow> (Inl (GroupRequestFailed e), (s1, snd w))
      | (Inr (status, body), s1) \<Rightarrow>
          if status \<noteq> 201 then (Inl (GroupRefused status), (s1, snd w))
          else
            (case body of
               None \<Rightarrow> (Inl (GroupRequestFailed ''''), (s1, snd w))
             | Some g \<Rightarrow>
                 let w1 = (s1, snd w @ [Acquired (dg_GroupID g)])
                 in if dg_GroupID g = '''' \<or> length (dg_Stages g) < 2 then (Inl InvalidGroup, w1)
                    else (case first_invalid env 0 (dg_Stages g) of
                            Some i \<Rightarrow> (Inl (InvalidStage i), releaseGroup env (dg_GroupID g) w1)
                          | None \<Rightarrow> (Inr g, w1))))"

definition stopLocked :: "'s manager_env \<Rightarrow> Manager \<Rightarrow> 's \<times> resource_call list \<Rightarrow> Manager \<times> 's \<times> resource_call list" where
  "stopLocked env m w =
     (let w1 = (case mn_runtime m of None \<Rightarrow> w | Some l \<Rightarrow> (me_stop env (fst w) l, snd w));
          w2 = (if dg_GroupID (mn_group m) = '''' then w1 else releaseGroup env (dg_GroupID (mn_group m)) w1)
      in (m\<lparr>mn_renewing := None, mn_runtime := None, mn_group := zero_group, mn_digest := ''''\<rparr>, w2))"

definition groupNodes :: "DistributedGroup \<Rightarrow> string list" where
  "groupNodes g = map sa_NodeID (dg_Stages g)"

definition group_runtime :: "ManagerConfig \<Rightarrow> string \<Rightarrow> string \<Rightarrow> DistributedGroup \<Rightarrow> LlamaRPC" where
  "group_runtime cfg modelID path g =
     \<lparr>ll_Executable = mg_Executable cfg, ll_ModelPath = path, ll_Host = ''127.0.0.1'', ll_Port = mg_Port cfg,
      ll_Context = mg_ContextSize cfg, ll_GPULayers = 999,
      ll_RPCServers = map (\<lambda>st. TrimPrefix_tcp (sa_Endpoint st)) (dg_Stages g),
      ll_ExtraArgs = [''--alias'', modelID, ''--split-mode'', ''layer'', ''--tensor-split'',
        join_comma (map (\<lambda>st. itoa (max (sa_TensorBytes st) 1)) (dg_Stages g))],
      ll_cmd = None\<rparr>"

text \<open>\<open>None\<close> is a panic; otherwise an error or the address and the nodes, the manager and the world.\<close>

definition Ensure :: "'s manager_env \<Rightarrow> Manager \<Rightarrow> string \<Rightarrow> string \<Rightarrow> string \<Rightarrow> int \<Rightarrow> 's \<times> resource_call list \<Rightarrow>
    ((manager_error + string \<times> string list) \<times> Manager \<times> 's \<times> resource_call list) option" where
  "Ensure env m modelID path digest sz w =
     (let address = ''http://'' @ netJoin ''127.0.0.1'' (mg_Port (mn_cfg m));
          (running, w1) = (if mn_runtime m \<noteq> None \<and> mn_digest m = digest
             then (case healthy env (fst w) address of (ok, s1) \<Rightarrow> (ok, (s1, snd w))) else (False, w))
      in if running then Some (Inr (address, groupNodes (mn_group m)), m, w1)
         else
           (case stopLocked env m w1 of
              (m1, w2) \<Rightarrow>
                (case ReadFile (me_file env path) of
                   Inl e \<Rightarrow> Some (Inl (ModelUnreadable e), m1, w2)
                 | Inr metadata \<Rightarrow>
                     (case spread_bytes (md_LayerBytes metadata) (md_NonLayerBytes metadata) of
                        None \<Rightarrow> None
                      | Some layerBytes \<Rightarrow>
                          (case createGroup env (group_request (mn_cfg m) modelID digest sz metadata layerBytes) w2 of
                             (Inl e, w3) \<Rightarrow> Some (Inl e, m1, w3)
                           | (Inr g, w3) \<Rightarrow>
                               (case me_start env (fst w3) (group_runtime (mn_cfg m) modelID path g) of
                                  ((Inl e, _), s4) \<Rightarrow> Some (Inl (StartFailed e), m1, releaseGroup env (dg_GroupID g) (s4, snd w3))
                                | ((Inr addr, l), s4) \<Rightarrow>
                                    Some (Inr (addr, groupNodes g),
                                      m1\<lparr>mn_runtime := Some l, mn_group := g,
                                         mn_digest := digest, mn_renewing := Some (dg_GroupID g)\<rparr>,
                                      (s4, snd w3))))))))"

definition manager_Close :: "'s manager_env \<Rightarrow> Manager \<Rightarrow> 's \<times> resource_call list \<Rightarrow> Manager \<times> 's \<times> resource_call list" where
  "manager_Close env m w = stopLocked env m w"

text \<open>
  The goroutine of \<open>startRenewLocked\<close>: its ticks, each with the time and whether the control plane gets
  the request, until it is stopped; and the renewals that the control plane gets.
\<close>

datatype renew_event = RenewTick int bool | RenewStop

fun startRenewLocked :: "string \<Rightarrow> renew_event list \<Rightarrow> (string \<times> int) list" where
  "startRenewLocked i [] = []"
| "startRenewLocked i (RenewStop # events) = []"
| "startRenewLocked i (RenewTick now sent # events) = (if sent then [(i, now)] else []) @ startRenewLocked i events"

datatype manager_call = CallEnsure string string string int | CallClose

text \<open>A sequence of calls; \<open>None\<close> when one of them panics.\<close>

fun run_manager :: "'s manager_env \<Rightarrow> manager_call list \<Rightarrow> Manager \<Rightarrow> 's \<times> resource_call list \<Rightarrow>
    (Manager \<times> 's \<times> resource_call list) option" where
  "run_manager env [] m w = Some (m, w)"
| "run_manager env (CallClose # calls) m w = (case manager_Close env m w of (m', w') \<Rightarrow> run_manager env calls m' w')"
| "run_manager env (CallEnsure modelID path digest sz # calls) m w =
     (case Ensure env m modelID path digest sz w of
        None \<Rightarrow> None
      | Some (_, m', w') \<Rightarrow> run_manager env calls m' w')"

end
