(* ===== verification/Manager_Correct.thy ===== *)
theory Manager_Correct
  imports Manager Gguf_Correct
begin

text \<open>
  The manager holds at most one distributed group, and asks the control plane for exactly the bytes of
  the model it reads.
\<close>

section \<open>Groups are given back\<close>

definition held_group :: "Manager \<Rightarrow> string option" where
  "held_group m = (if dg_GroupID (mn_group m) = '''' then None else Some (dg_GroupID (mn_group m)))"

definition balanced :: "resource_call list \<Rightarrow> string option \<Rightarrow> bool" where
  "balanced calls held \<longleftrightarrow> (\<forall>i. i \<noteq> '''' \<longrightarrow> acquired_of calls i = released_of calls i + (if held = Some i then 1 else 0))"

text \<open>The control plane gives no group with fewer than two stages.\<close>

definition two_stages :: "'s manager_env \<Rightarrow> bool" where
  "two_stages env \<longleftrightarrow> (\<forall>s req s' g. me_create env s req = (Inr (201, Some g), s') \<longrightarrow> dg_GroupID g = '''' \<or> 2 \<le> length (dg_Stages g))"

lemma balanced_Nil [simp]: "balanced [] None"
  by (simp add: balanced_def acquired_of_def released_of_def)

lemma balanced_acquire: "balanced calls None \<Longrightarrow> i \<noteq> '''' \<Longrightarrow> balanced (calls @ [Acquired i]) (Some i)"
  by (auto simp: balanced_def acquired_of_def released_of_def)

lemma balanced_anonymous: "balanced calls None \<Longrightarrow> balanced (calls @ [Acquired '''']) None"
  by (auto simp: balanced_def acquired_of_def released_of_def)

lemma balanced_release: "balanced calls (Some i) \<Longrightarrow> balanced (snd (releaseGroup env i (s, calls))) None"
  by (auto simp: balanced_def acquired_of_def released_of_def releaseGroup_def)

lemma stopLocked_balanced:
  assumes "balanced (snd w) (held_group m)" and "stopLocked env m w = (m', w')"
  shows "balanced (snd w') None \<and> held_group m' = None \<and> mn_cfg m' = mn_cfg m"
  using assms balanced_release [of _ "dg_GroupID (mn_group m)" env]
  by (auto simp: stopLocked_def Let_def held_group_def zero_group_def releaseGroup_def split: option.splits if_splits)

lemma createGroup_balanced:
  assumes "two_stages env" and "balanced (snd w) None" and "createGroup env req w = (r, w')"
  shows "case r of Inl _ \<Rightarrow> balanced (snd w') None | Inr g \<Rightarrow> dg_GroupID g \<noteq> '''' \<and> balanced (snd w') (Some (dg_GroupID g))"
proof -
  obtain a s1 where cr: "me_create env (fst w) req = (a, s1)" by fastforce
  show ?thesis
  proof (cases "\<exists>g. a = Inr (201, Some g)")
    case False
    then show ?thesis using assms(2,3) cr by (auto simp: createGroup_def split: sum.splits if_splits option.splits)
  next
    case True
    then obtain g where a: "a = Inr (201, Some g)" by blast
    have two: "dg_GroupID g = '''' \<or> 2 \<le> length (dg_Stages g)" using assms(1) cr a unfolding two_stages_def by blast
    show ?thesis
    proof (cases "dg_GroupID g = ''''")
      case True
      then show ?thesis using assms(2,3) cr a balanced_anonymous by (auto simp: createGroup_def Let_def)
    next
      case False
      have acq: "balanced (snd w @ [Acquired (dg_GroupID g)]) (Some (dg_GroupID g))"
        by (rule balanced_acquire [OF assms(2) False])
      with two False show ?thesis
        using assms(3) cr a balanced_release [OF acq, of env s1]
        by (auto simp: createGroup_def Let_def split: option.splits)
    qed
  qed
qed

lemma Ensure_balanced:
  assumes "two_stages env" and "balanced (snd w) (held_group m)" and "Ensure env m modelID path digest sz w = Some (r, m', w')"
  shows "balanced (snd w') (held_group m')"
proof -
  let ?address = "''http://'' @ netJoin ''127.0.0.1'' (mg_Port (mn_cfg m))"
  obtain running w1 where run: "(if mn_runtime m \<noteq> None \<and> mn_digest m = digest
      then (case healthy env (fst w) ?address of (ok, s1) \<Rightarrow> (ok, (s1, snd w))) else (False, w)) = (running, w1)" by (metis surj_pair)
  then have w1: "snd w1 = snd w" by (auto split: if_splits prod.splits)
  obtain m1 w2 where stop: "stopLocked env m w1 = (m1, w2)" by (metis surj_pair)
  have s: "balanced (snd w2) None" "held_group m1 = None" using stopLocked_balanced [OF _ stop] assms(2) w1 by simp_all
  note def = assms(3) [unfolded Ensure_def Let_def run case_prod_conv stop]
  show ?thesis
  proof (cases running)
    case True
    with def assms(2) w1 show ?thesis by auto
  next
    case False
    show ?thesis
    proof (cases "ReadFile (me_file env path)")
      case (Inl e)
      with def False s show ?thesis by auto
    next
      case (Inr metadata)
      obtain lb where lb: "spread_bytes (md_LayerBytes metadata) (md_NonLayerBytes metadata) = Some lb"
        using def False Inr by (auto split: option.splits)
      obtain a w3 where cg: "createGroup env (group_request (mn_cfg m) modelID digest sz metadata lb) w2 = (a, w3)" by (metis surj_pair)
      note c = createGroup_balanced [OF assms(1) s(1) cg]
      show ?thesis
      proof (cases a)
        case (Inl e)
        with def False Inr lb cg c s show ?thesis by auto
      next
        case g: (Inr g)
        obtain b l s4 where st: "me_start env (fst w3) (group_runtime (mn_cfg m) modelID path g) = ((b, l), s4)"
          by (metis surj_pair)
        show ?thesis
          using def False Inr lb cg g st c s balanced_release [of "snd w3" "dg_GroupID g" env s4]
          by (cases b) (auto simp: held_group_def)
      qed
    qed
  qed
qed

lemma run_manager_balanced:
  "run_manager env calls m w = Some (m', w') \<Longrightarrow> two_stages env \<Longrightarrow> balanced (snd w) (held_group m) \<Longrightarrow>
     balanced (snd w') (held_group m')"
proof (induction env calls m w rule: run_manager.induct)
  case (2 env calls m w)
  obtain m1 w1 where stop: "stopLocked env m w = (m1, w1)" by (metis surj_pair)
  with 2 stopLocked_balanced [OF 2(4) stop] show ?case by (simp add: manager_Close_def)
next
  case (3 env modelID path digest sz calls m w)
  then obtain r m1 w1 where e: "Ensure env m modelID path digest sz w = Some (r, m1, w1)" by (auto split: option.splits)
  with 3 Ensure_balanced [OF 3(3,4) e] show ?case by simp
qed simp

section \<open>The manager over a service\<close>

text \<open>
  What the manager relies on: \<open>holding\<close> relates the state of the world to the group and the runtime
  the manager holds, and every operation of the environment keeps it.
\<close>

locale manager_service =
  fixes env :: "'s manager_env" and holding :: "'s \<Rightarrow> string option \<Rightarrow> LlamaRPC option \<Rightarrow> bool"
  assumes checked: "holding s h r \<Longrightarrow> holding (snd (me_health env s url)) h r"
    and created: "holding s None None \<Longrightarrow> me_create env s req = (Inr (201, Some g), s') \<Longrightarrow>
      dg_GroupID g \<noteq> '''' \<and> 2 \<le> length (dg_Stages g) \<and> holding s' (Some (dg_GroupID g)) None"
    and refused: "holding s None None \<Longrightarrow> me_create env s req = (a, s') \<Longrightarrow> \<forall>g. a \<noteq> Inr (201, Some g) \<Longrightarrow> holding s' None None"
    and released: "holding s (Some i) r \<Longrightarrow> holding (me_release env s i) None r"
    and started: "holding s h None \<Longrightarrow> me_start env s l = ((Inr address, l'), s') \<Longrightarrow> holding s' h (Some l')"
    and not_started: "holding s h None \<Longrightarrow> me_start env s l = ((Inl e, l'), s') \<Longrightarrow> holding s' h None"
    and stopped: "holding s h (Some l) \<Longrightarrow> holding (me_stop env s l) h None"
begin

lemma stopLocked_holding:
  assumes "holding (fst w) (held_group m) (mn_runtime m)" and "stopLocked env m w = (m', w')"
  shows "holding (fst w') None None" "held_group m' = None" "mn_runtime m' = None"
proof -
  let ?w1 = "(case mn_runtime m of None \<Rightarrow> w | Some l \<Rightarrow> (me_stop env (fst w) l, snd w))"
  have "holding (fst ?w1) (held_group m) None" using assms(1) stopped by (auto split: option.split)
  then show "holding (fst w') None None"
    using assms(2) released by (auto simp: stopLocked_def Let_def held_group_def releaseGroup_def split: if_splits)
  show "held_group m' = None" "mn_runtime m' = None"
    using assms(2) by (auto simp: stopLocked_def Let_def held_group_def zero_group_def)
qed

lemma createGroup_holding:
  assumes "holding (fst w) None None" and "createGroup env req w = (r, w')"
  shows "case r of Inl _ \<Rightarrow> holding (fst w') None None | Inr g \<Rightarrow> dg_GroupID g \<noteq> '''' \<and> holding (fst w') (Some (dg_GroupID g)) None"
proof -
  obtain a s1 where cr: "me_create env (fst w) req = (a, s1)" by fastforce
  show ?thesis
  proof (cases "\<exists>g. a = Inr (201, Some g)")
    case False
    then have "holding s1 None None" using refused [OF assms(1) cr] by blast
    with False show ?thesis using assms(2) cr by (auto simp: createGroup_def split: sum.splits if_splits option.splits)
  next
    case True
    then obtain g where a: "a = Inr (201, Some g)" by blast
    note c = created [OF assms(1) cr [unfolded a]]
    with released [of s1 "dg_GroupID g" None] show ?thesis
      using assms(2) cr a by (auto simp: createGroup_def Let_def releaseGroup_def split: option.splits)
  qed
qed

lemma Ensure_holding:
  assumes "holding (fst w) (held_group m) (mn_runtime m)" and "Ensure env m modelID path digest sz w = Some (r, m', w')"
  shows "holding (fst w') (held_group m') (mn_runtime m')"
proof -
  let ?address = "''http://'' @ netJoin ''127.0.0.1'' (mg_Port (mn_cfg m))"
  obtain running w1 where run: "(if mn_runtime m \<noteq> None \<and> mn_digest m = digest
      then (case healthy env (fst w) ?address of (ok, s1) \<Rightarrow> (ok, (s1, snd w))) else (False, w)) = (running, w1)" by (metis surj_pair)
  then have w1: "holding (fst w1) (held_group m) (mn_runtime m)"
    using assms(1) checked [OF assms(1), of "?address @ ''/health''"]
    by (auto simp: healthy_def split: if_splits prod.splits option.splits)
  obtain m1 w2 where stop: "stopLocked env m w1 = (m1, w2)" by (metis surj_pair)
  note s = stopLocked_holding [OF w1 stop]
  note def = assms(2) [unfolded Ensure_def Let_def run case_prod_conv stop]
  show ?thesis
  proof (cases "running \<or> (\<exists>e. ReadFile (me_file env path) = Inl e)")
    case True
    with def w1 s show ?thesis by (cases running) auto
  next
    case False
    then obtain metadata where md: "\<not> running" "ReadFile (me_file env path) = Inr metadata" by (metis sum.exhaust)
    obtain lb where lb: "spread_bytes (md_LayerBytes metadata) (md_NonLayerBytes metadata) = Some lb"
      using def md by (auto split: option.splits)
    obtain a w3 where cg: "createGroup env (group_request (mn_cfg m) modelID digest sz metadata lb) w2 = (a, w3)" by (metis surj_pair)
    note c = createGroup_holding [OF s(1) cg]
    show ?thesis
    proof (cases a)
      case (Inl e)
      with def md lb cg c s show ?thesis by auto
    next
      case g: (Inr g)
      obtain b l s4 where st: "me_start env (fst w3) (group_runtime (mn_cfg m) modelID path g) = ((b, l), s4)"
        by (metis surj_pair)
      show ?thesis
      proof (cases b)
        case (Inl e)
        have "holding (fst w3) (Some (dg_GroupID g)) None" using c g by simp
        from released [OF not_started [OF this st [unfolded Inl]]] def md lb cg g st s Inl show ?thesis
          by (auto simp: releaseGroup_def)
      next
        case (Inr address)
        with def md lb cg g st s started [OF _ st [unfolded Inr]] c show ?thesis by (auto simp: held_group_def)
      qed
    qed
  qed
qed

lemma run_manager_holding:
  "run_manager env calls m w = Some (m', w') \<Longrightarrow> holding (fst w) (held_group m) (mn_runtime m) \<Longrightarrow>
     holding (fst w') (held_group m') (mn_runtime m')"
proof (induction calls arbitrary: m w)
  case (Cons call calls)
  show ?case
  proof (cases call)
    case (CallEnsure modelID path digest sz)
    with Cons.prems obtain r m1 w1 where e: "Ensure env m modelID path digest sz w = Some (r, m1, w1)" by (auto split: option.splits)
    with Cons Ensure_holding [OF Cons.prems(2) e] CallEnsure show ?thesis by simp
  next
    case CallClose
    obtain m1 w1 where stop: "stopLocked env m w = (m1, w1)" by (metis surj_pair)
    with Cons stopLocked_holding [OF Cons.prems(2) stop] CallClose show ?thesis by (simp add: manager_Close_def)
  qed
qed simp

end

lemma closed_manager:
  "run_manager env calls m w = Some (m', w') \<Longrightarrow> calls \<noteq> [] \<Longrightarrow> last calls = CallClose \<Longrightarrow>
     dg_GroupID (mn_group m') = '''' \<and> mn_runtime m' = None"
proof (induction env calls m w rule: run_manager.induct)
  case (2 env calls m w)
  then show ?case by (cases "calls = []") (auto simp: manager_Close_def stopLocked_def Let_def zero_group_def)
qed (auto split: option.splits if_splits)

text \<open>
  The manager never leaks a group: after any sequence of \<open>Ensure\<close> and \<open>Close\<close> calls, with any
  answers of the control plane, health checks and starts, every group it was given has been released
  as often as it was created, except the one group it holds; and nothing is held after \<open>Close\<close>.
\<close>

theorem manager_holds_one_group:
  assumes "two_stages env" and "run_manager env calls (NewManager cfg) (s, []) = Some (m, s', hist)"
  shows "(\<forall>i. i \<noteq> '''' \<longrightarrow> acquired_of hist i = released_of hist i + (if dg_GroupID (mn_group m) = i then 1 else 0)) \<and>
    (calls \<noteq> [] \<and> last calls = CallClose \<longrightarrow> dg_GroupID (mn_group m) = '''')"
proof -
  have "held_group (NewManager cfg) = None" by (simp add: held_group_def NewManager_def zero_group_def Let_def)
  then have "balanced hist (held_group m)" using run_manager_balanced [OF assms(2,1)] by simp
  moreover note closed_manager [OF assms(2)]
  ultimately show ?thesis using assms(2) by (auto simp: balanced_def held_group_def split: if_splits)
qed

section \<open>The bytes of the model\<close>

lemma sdiv_half:
  assumes "0 \<le> (n :: int)"
  shows "(n + 1) sdiv 2 + n sdiv 2 = n"
proof -
  have "x sdiv 2 = x div 2" if "0 \<le> x" for x :: int using that by (cases "x = 0") (simp_all add: signed_divide_int_def)
  then show ?thesis using assms by simp
qed

lemma spread_bytes_sum:
  assumes "spread_bytes lb n = Some lb'" and "0 \<le> n" and "n < 9223372036854775807"
  shows "length lb' = length lb \<and> i64 (sum_list lb') = i64 (sum_list lb + n)"
proof (cases "n = 0")
  case True
  with assms show ?thesis by (simp add: spread_bytes_def)
next
  case False
  then have lb: "lb \<noteq> []" and n: "0 < n" using assms by (auto simp: spread_bytes_def split: if_splits)
  let ?a = "(n + 1) sdiv 2" and ?k = "length lb - 1"
  have wrap: "i64 (n + 1) = n + 1" using assms n by (intro i64_id) (simp add: in_i64_def)
  define l1 where "l1 = lb[0 := i64 (lb ! 0 + ?a)]"
  have lb': "lb' = l1[?k := i64 (l1 ! ?k + n sdiv 2)]"
    using assms(1) lb n by (simp add: spread_bytes_def Let_def wrap l1_def)
  have k: "?k < length l1" and len: "length l1 = length lb" using lb by (simp_all add: l1_def)
  have "i64 (sum_list lb') = i64 (sum_list l1 + n sdiv 2)"
    unfolding lb' sum_list_update_int [OF k] by (simp add: i64_diff_left)
  also have "\<dots> = i64 (i64 (sum_list l1) + n sdiv 2)" by simp
  also have "i64 (sum_list l1) = i64 (sum_list lb + ?a)"
    using lb sum_list_update_int [of 0 lb] by (simp add: l1_def i64_diff_left)
  also have "i64 (i64 (sum_list lb + ?a) + n sdiv 2) = i64 (sum_list lb + (?a + n sdiv 2))" by (simp add: add.assoc)
  finally show ?thesis using sdiv_half [of n] assms(2) lb' len by simp
qed

lemma spread_bytes_total: "lb \<noteq> [] \<Longrightarrow> \<exists>lb'. spread_bytes lb n = Some lb'"
  by (simp add: spread_bytes_def Let_def)

lemma ReadFile_accounts:
  "ReadFile file = Inr meta \<Longrightarrow> int (length (md_LayerBytes meta)) = md_LayerCount meta \<and> 1 \<le> md_LayerCount meta \<and>
     md_TensorBytes meta = i64 (sum_list (md_LayerBytes meta) + md_NonLayerBytes meta)"
  by (auto simp: ReadFile_def dest!: Read_accounts split: option.splits sum.splits)

text \<open>Indexing the layers never panics, so every sequence of calls has a result.\<close>

lemma Ensure_returns: "Ensure env m modelID path digest sz w \<noteq> None"
proof -
  have "spread_bytes (md_LayerBytes meta) (md_NonLayerBytes meta) \<noteq> None" if "ReadFile (me_file env path) = Inr meta" for meta
  proof -
    have "md_LayerBytes meta \<noteq> []" using ReadFile_accounts [OF that] by auto
    from spread_bytes_total [OF this] show ?thesis by auto
  qed
  then show ?thesis by (auto simp: Ensure_def Let_def split: prod.splits sum.splits option.splits)
qed

lemma run_manager_returns: "\<exists>m' w'. run_manager env calls m w = Some (m', w')"
proof (induction env calls m w rule: run_manager.induct)
  case (3 env modelID path digest sz calls m w)
  obtain r m1 w1 where "Ensure env m modelID path digest sz w = Some (r, m1, w1)"
    using Ensure_returns [of env m modelID path digest sz w] by auto
  with 3 show ?case by simp
qed (auto split: prod.splits)

text \<open>
  The group request describes the whole model: for every GGUF file that can be read, spreading the
  tensors outside the layers never indexes an empty list, the request has one size per layer, and,
  unless the tensors outside the layers overflow, its sizes add up to the bytes of all tensors; the
  nodes asked for are at least two, and at most no fewer than at least.
\<close>

theorem manager_plans_whole_model:
  assumes "ReadFile file = Inr meta"
  shows "\<exists>lb. spread_bytes (md_LayerBytes meta) (md_NonLayerBytes meta) = Some lb \<and>
    int (length lb) = gr_LayerCount (group_request (mn_cfg (NewManager cfg)) modelID digest sz meta lb) \<and>
    (0 \<le> md_NonLayerBytes meta \<and> md_NonLayerBytes meta < 9223372036854775807 \<longrightarrow>
       i64 (sum_list (gr_LayerBytes (group_request (mn_cfg (NewManager cfg)) modelID digest sz meta lb))) = md_TensorBytes meta) \<and>
    2 \<le> gr_MinNodes (group_request (mn_cfg (NewManager cfg)) modelID digest sz meta lb) \<and>
    gr_MinNodes (group_request (mn_cfg (NewManager cfg)) modelID digest sz meta lb)
      \<le> gr_MaxNodes (group_request (mn_cfg (NewManager cfg)) modelID digest sz meta lb)"
proof -
  note acc = ReadFile_accounts [OF assms]
  then have "md_LayerBytes meta \<noteq> []" by auto
  then obtain lb where lb: "spread_bytes (md_LayerBytes meta) (md_NonLayerBytes meta) = Some lb"
    using spread_bytes_total by blast
  have "length lb = length (md_LayerBytes meta)"
    using lb by (auto simp: spread_bytes_def Let_def split: if_splits)
  with acc lb spread_bytes_sum [OF lb] show ?thesis
    by (intro exI [of _ lb]) (auto simp: group_request_def NewManager_def Let_def)
qed

section \<open>Examples\<close>

definition sample_stage :: StageAssignment where
  "sample_stage = \<lparr>sa_StageIndex = 0, sa_NodeID = ''n'', sa_Endpoint = ''tcp://h:1'', sa_LayerStart = 0, sa_LayerEnd = 1,
     sa_MemoryBudgetMB = 1, sa_TensorBytes = 1, sa_ReservationID = '''', sa_Token = '''', sa_NextStageNodeID = ''''\<rparr>"

definition sample_manager_env :: "unit manager_env" where
  "sample_manager_env = \<lparr>me_health = (\<lambda>s _. (Some 200, s)), me_file = (\<lambda>_. Some (put_file 3 sample_entries sample_tensors)),
     me_create = (\<lambda>s _. (Inr (201, Some (zero_group\<lparr>dg_GroupID := ''g'', dg_Stages := [sample_stage, sample_stage]\<rparr>)), s)),
     me_release = (\<lambda>s _. s), me_start = (\<lambda>s l. ((Inr ''a'', l), s)), me_stop = (\<lambda>s _. s), me_endpoint = (\<lambda>_. True)\<rparr>"

definition sample_manager_config :: ManagerConfig where
  "sample_manager_config = \<lparr>mg_Executable = '''', mg_MinNodes = 0, mg_MaxNodes = 0, mg_Port = 0, mg_ContextSize = 0\<rparr>"

lemma sample_file: "\<exists>meta. ReadFile (Some (put_file 3 sample_entries sample_tensors)) = Inr meta"
  using sample_read by (simp add: ReadFile_def)

theorem manager_plans_whole_model_witness:
  "\<exists>meta lb. ReadFile (Some (put_file 3 sample_entries sample_tensors)) = Inr meta \<and>
     spread_bytes (md_LayerBytes meta) (md_NonLayerBytes meta) = Some lb"
proof -
  obtain meta where m: "ReadFile (Some (put_file 3 sample_entries sample_tensors)) = Inr meta" using sample_file by blast
  from manager_plans_whole_model [OF m, of sample_manager_config "''m''" "''d''" 1] m show ?thesis by blast
qed

theorem manager_holds_one_group_witness:
  "\<exists>m hist. run_manager sample_manager_env [CallEnsure ''m'' ''p'' ''d'' 1] (NewManager sample_manager_config) ((), []) = Some (m, (), hist) \<and>
     acquired_of hist ''g'' = released_of hist ''g'' + 1"
proof -
  have two: "two_stages sample_manager_env" by (simp add: two_stages_def sample_manager_env_def)
  obtain meta where meta: "ReadFile (Some (put_file 3 sample_entries sample_tensors)) = Inr meta" using sample_file by blast
  have "md_LayerBytes meta \<noteq> []" using ReadFile_accounts [OF meta] by auto
  then obtain lb where lb: "spread_bytes (md_LayerBytes meta) (md_NonLayerBytes meta) = Some lb" using spread_bytes_total by blast
  obtain m hist where run: "run_manager sample_manager_env [CallEnsure ''m'' ''p'' ''d'' 1] (NewManager sample_manager_config) ((), [])
      = Some (m, (), hist)" and g: "dg_GroupID (mn_group m) = ''g''"
    using meta lb
    by (simp add: Ensure_def NewManager_def Let_def stopLocked_def zero_group_def sample_manager_env_def createGroup_def
        stage_valid_def sample_stage_def)
  from manager_holds_one_group [OF two run] g run show ?thesis by auto
qed

end
