(* ===== verification/Aes_Gcm.thy ===== *)
theory Aes_Gcm
  imports Bytes
begin

text \<open>
  \<open>crypto/aes\<close> and the GCM mode of \<open>crypto/cipher\<close>, as FIPS 197 and NIST SP 800-38D define them, for
  the 12-byte nonces and 16-byte tags the tunnel uses. The S-box is computed from inversion in
  GF(2^8). The locale \<open>aead\<close> is what \<open>src/internal/tunnel/crypto.go\<close> relies on; it is interpreted on
  the functions defined here.
\<close>

unbundle bit_operations_syntax

section \<open>AES\<close>

definition xtime :: "byte \<Rightarrow> byte" where
  "xtime b = push_bit 1 b XOR (if bit b 7 then 0x1b else 0)"

fun gf_mul_bits :: "nat \<Rightarrow> byte \<Rightarrow> byte \<Rightarrow> byte" where
  "gf_mul_bits 0 a b = 0"
| "gf_mul_bits (Suc n) a b = (if bit b 0 then a else 0) XOR gf_mul_bits n (xtime a) (drop_bit 1 b)"

definition gf_mul :: "byte \<Rightarrow> byte \<Rightarrow> byte" where
  "gf_mul a b = gf_mul_bits 8 a b"

text \<open>The inverse is the 254th power: \<open>2 + 4 + \<dots> + 128\<close>.\<close>

definition gf_inverse :: "byte \<Rightarrow> byte" where
  "gf_inverse b =
     (let b2 = gf_mul b b; b4 = gf_mul b2 b2; b8 = gf_mul b4 b4; b16 = gf_mul b8 b8;
          b32 = gf_mul b16 b16; b64 = gf_mul b32 b32; b128 = gf_mul b64 b64
      in foldl gf_mul b2 [b4, b8, b16, b32, b64, b128])"

definition rotl8 :: "nat \<Rightarrow> byte \<Rightarrow> byte" where
  "rotl8 n b = push_bit n b OR drop_bit (8 - n) b"

definition sub_byte :: "byte \<Rightarrow> byte" where
  "sub_byte b =
     (let i = gf_inverse b in i XOR rotl8 1 i XOR rotl8 2 i XOR rotl8 3 i XOR rotl8 4 i XOR 0x63)"

definition xor_bytes :: "byte list \<Rightarrow> byte list \<Rightarrow> byte list" where
  "xor_bytes xs ys = map2 (XOR) xs ys"

text \<open>The key schedule, four bytes at a time, extended by as many columns as asked for.\<close>

fun key_columns :: "nat \<Rightarrow> nat \<Rightarrow> byte list list \<Rightarrow> byte list list" where
  "key_columns nk 0 cols = cols"
| "key_columns nk (Suc n) cols =
     (let i = length cols; t = last cols;
          u = (if i mod nk = 0
               then xor_bytes (map sub_byte (rotate1 t)) [(xtime ^^ (i div nk - 1)) 1, 0, 0, 0]
               else if 6 < nk \<and> i mod nk = 4 then map sub_byte t else t)
      in key_columns nk n (cols @ [xor_bytes (cols ! (i - nk)) u]))"

fun groups_of :: "nat \<Rightarrow> nat \<Rightarrow> 'a list \<Rightarrow> 'a list list" where
  "groups_of k 0 xs = []"
| "groups_of k (Suc n) xs = take k xs # groups_of k n (drop k xs)"

definition round_keys :: "byte list \<Rightarrow> byte list list" where
  "round_keys key =
     (let nk = length key div 4; cols = key_columns nk (3 * nk + 28) (groups_of 4 nk key)
      in groups_of 16 (nk + 7) (concat cols))"

definition add_round_key :: "byte list \<Rightarrow> byte list \<Rightarrow> byte list" where
  "add_round_key k st = map (\<lambda>i. st ! i XOR k ! i) [0..<16]"

definition sub_shift :: "byte list \<Rightarrow> byte list" where
  "sub_shift st = map (\<lambda>i. sub_byte (st ! ((i + 4 * (i mod 4)) mod 16))) [0..<16]"

definition mix_columns :: "byte list \<Rightarrow> byte list" where
  "mix_columns st =
     map (\<lambda>i. let c = 4 * (i div 4); a = (\<lambda>j. st ! (c + (i + j) mod 4)) in
          xtime (a 0) XOR xtime (a 1) XOR a 1 XOR a 2 XOR a 3) [0..<16]"

definition aes_encrypt :: "byte list \<Rightarrow> byte list \<Rightarrow> byte list" where
  "aes_encrypt key block =
     (let ks = round_keys key
      in add_round_key (last ks)
           (sub_shift (foldl (\<lambda>st k. add_round_key k (mix_columns (sub_shift st)))
             (add_round_key (hd ks) block) (tl (butlast ks)))))"

section \<open>GCM\<close>

text \<open>Multiplication in GF(2^128), the first bit of a block being its most significant one.\<close>

fun ghash_mul :: "nat \<Rightarrow> 128 word \<Rightarrow> 128 word \<Rightarrow> 128 word \<Rightarrow> 128 word" where
  "ghash_mul 0 x v z = z"
| "ghash_mul (Suc n) x v z =
     ghash_mul n x (drop_bit 1 v XOR (if bit v 0 then push_bit 120 0xe1 else 0)) (if bit x n then z XOR v else z)"

function ghash :: "128 word \<Rightarrow> byte list \<Rightarrow> 128 word \<Rightarrow> 128 word" where
  "ghash h bs y =
     (if bs = [] then y
      else ghash h (drop 16 bs) (ghash_mul 128 (y XOR word_of_nat (be_get (take 16 bs))) h 0))"
  by pat_completeness auto
termination
  by (relation "measure (\<lambda>(h, bs, y). length bs)") auto

declare ghash.simps [simp del]

definition pad16 :: "byte list \<Rightarrow> byte list" where
  "pad16 bs = bs @ replicate ((16 - length bs mod 16) mod 16) 0"

definition gcm_stream :: "byte list \<Rightarrow> byte list \<Rightarrow> nat \<Rightarrow> byte list" where
  "gcm_stream key nonce n =
     concat (map (\<lambda>i. aes_encrypt key (nonce @ be_put 4 (i + 2))) [0..<(n + 15) div 16])"

definition gcm_crypt :: "byte list \<Rightarrow> byte list \<Rightarrow> byte list \<Rightarrow> byte list" where
  "gcm_crypt key nonce xs = xor_bytes xs (gcm_stream key nonce (length xs))"

definition gcm_tag :: "byte list \<Rightarrow> byte list \<Rightarrow> byte list \<Rightarrow> byte list \<Rightarrow> byte list" where
  "gcm_tag key nonce aad ct =
     (let h = word_of_nat (be_get (aes_encrypt key (replicate 16 0)));
          s = ghash h (pad16 aad @ pad16 ct @ be_put 8 (8 * length aad) @ be_put 8 (8 * length ct)) 0
      in add_round_key (be_put 16 (unat s)) (aes_encrypt key (nonce @ [0, 0, 0, 1])))"

definition NonceSize :: nat where "NonceSize = 12"

definition Overhead :: nat where "Overhead = 16"

definition Seal :: "byte list \<Rightarrow> byte list \<Rightarrow> byte list \<Rightarrow> byte list \<Rightarrow> byte list" where
  "Seal key nonce plain aad = (let ct = gcm_crypt key nonce plain in ct @ gcm_tag key nonce aad ct)"

definition Open :: "byte list \<Rightarrow> byte list \<Rightarrow> byte list \<Rightarrow> byte list \<Rightarrow> byte list option" where
  "Open key nonce sealed aad =
     (if length sealed < Overhead then None
      else let n = length sealed - Overhead; ct = take n sealed; tag = drop n sealed
           in if tag = gcm_tag key nonce aad ct then Some (gcm_crypt key nonce ct) else None)"

section \<open>What the tunnel relies on\<close>

text \<open>
  Authenticated encryption: opening undoes sealing, and only what sealing produces under the same key,
  nonce and additional data opens.
\<close>

locale aead =
  fixes seal :: "'k \<Rightarrow> 'n \<Rightarrow> byte list \<Rightarrow> 'a \<Rightarrow> byte list"
    and unseal :: "'k \<Rightarrow> 'n \<Rightarrow> byte list \<Rightarrow> 'a \<Rightarrow> byte list option"
    and overhead :: nat
  assumes open_seal: "unseal k n (seal k n p a) a = Some p"
    and open_only_sealed: "unseal k n s a = Some p \<Longrightarrow> s = seal k n p a"
    and seal_length: "length (seal k n p a) = length p + overhead"
begin

lemma open_iff: "unseal k n s a = Some p \<longleftrightarrow> s = seal k n p a"
  using open_seal open_only_sealed by blast

lemma seal_inj: "seal k n p a = seal k n q a \<longleftrightarrow> p = q"
  by (metis open_seal option.inject)

end

lemma length_aes_encrypt [simp]: "length (aes_encrypt key block) = 16"
  by (simp add: aes_encrypt_def Let_def add_round_key_def)

lemma length_gcm_tag [simp]: "length (gcm_tag key nonce aad ct) = 16"
  by (simp add: gcm_tag_def Let_def add_round_key_def)

lemma length_gcm_stream: "n \<le> length (gcm_stream key nonce n)"
proof -
  have "length (concat (map (\<lambda>i. aes_encrypt key (f i)) is)) = 16 * length is" for f :: "nat \<Rightarrow> byte list" and "is"
    by (induction "is") auto
  then show ?thesis unfolding gcm_stream_def by simp
qed

lemma length_gcm_crypt [simp]: "length (gcm_crypt key nonce xs) = length xs"
  using length_gcm_stream [of "length xs" key nonce] by (simp add: gcm_crypt_def xor_bytes_def)

lemma xor_bytes_twice: "length xs \<le> length ks \<Longrightarrow> xor_bytes (xor_bytes xs ks) ks = xs"
  unfolding xor_bytes_def
  by (induction xs arbitrary: ks) (auto simp: Suc_le_length_iff xor.assoc)

lemma gcm_crypt_twice [simp]: "gcm_crypt key nonce (gcm_crypt key nonce xs) = xs"
  using length_gcm_stream [of "length xs" key nonce] length_gcm_crypt [of key nonce xs]
  by (simp add: gcm_crypt_def xor_bytes_twice)

interpretation gcm: aead Seal Open Overhead
proof unfold_locales
  fix k n p a
  show "length (Seal k n p a) = length p + Overhead" by (simp add: Seal_def Let_def Overhead_def)
  show "Open k n (Seal k n p a) a = Some p" by (simp add: Open_def Seal_def Let_def Overhead_def)
next
  fix k n s a p
  assume "Open k n s a = Some p"
  then have len: "16 \<le> length s" and tag: "drop (length s - 16) s = gcm_tag k n a (take (length s - 16) s)"
    and "p = gcm_crypt k n (take (length s - 16) s)"
    by (auto simp: Open_def Overhead_def Let_def split: if_splits)
  then have "Seal k n p a = take (length s - 16) s @ drop (length s - 16) s"
    by (simp add: Seal_def Let_def)
  then show "s = Seal k n p a" by simp
qed

end
