(* ===== verification/Secure.thy ===== *)
theory Secure
  imports Protocol Aes_Gcm "HOL-Library.Sublist"
begin

text \<open>
  The encrypted tunnel connection (\<open>src/internal/tunnel/crypto.go\<close>): records of at most 64 KiB, each
  a length and a sealed chunk, under one AES-GCM key per direction and a counter as nonce. The network
  connection is the \<open>writer\<close> its bytes go to and the byte stream they are read from.
\<close>

section \<open>Operations\<close>

definition maxEncryptedRecord :: nat where
  "maxEncryptedRecord = 65536"

text \<open>A GCM cipher is the AES key it was made from.\<close>

record secureConn =
  sc_writeAEAD :: "byte list"
  sc_readAEAD :: "byte list"
  sc_writeAAD :: "byte list"
  sc_readAAD :: "byte list"
  sc_writeCounter :: "64 word"
  sc_readCounter :: "64 word"
  sc_readBuffer :: "byte list"

datatype secure_error =
    SecureIO io_error
  | InvalidRecordSize
  | RecordAuthenticationFailed
  | InvalidTunnelKey
  | InvalidTunnelRole
  | InvalidCipherKey

definition NewCipher :: "byte list \<Rightarrow> byte list option" where
  "NewCipher key = (if length key \<in> {16, 24, 32} then Some key else None)"

definition makeAEAD :: "byte list \<Rightarrow> string \<Rightarrow> string \<Rightarrow> string \<Rightarrow> byte list option" where
  "makeAEAD secret pairID streamID direction =
     NewCipher (hmac_sha256 secret (string_bytes (''aipool-tunnel-v1|'' @ pairID @ ''|'' @ streamID @ ''|'' @ direction)))"

definition wrapSecure :: "string \<Rightarrow> string \<Rightarrow> string \<Rightarrow> string \<Rightarrow> secure_error + secureConn" where
  "wrapSecure encodedKey pairID streamID role =
     (case b64_decode encodedKey of
        None \<Rightarrow> Inl InvalidTunnelKey
      | Some secret \<Rightarrow>
          if length secret < 32 then Inl InvalidTunnelKey
          else let peer = peerRole role
          in if peer = '''' then Inl InvalidTunnelRole
             else
               let writeLabel = role @ ''>'' @ peer; readLabel = peer @ ''>'' @ role
               in (case makeAEAD secret pairID streamID writeLabel of
                     None \<Rightarrow> Inl InvalidCipherKey
                   | Some writeAEAD \<Rightarrow>
                       (case makeAEAD secret pairID streamID readLabel of
                          None \<Rightarrow> Inl InvalidCipherKey
                        | Some readAEAD \<Rightarrow>
                            Inr \<lparr>sc_writeAEAD = writeAEAD, sc_readAEAD = readAEAD,
                                 sc_writeAAD = string_bytes (pairID @ ''|'' @ streamID @ ''|'' @ writeLabel),
                                 sc_readAAD = string_bytes (pairID @ ''|'' @ streamID @ ''|'' @ readLabel),
                                 sc_writeCounter = 0, sc_readCounter = 0, sc_readBuffer = []\<rparr>)))"

definition counterNonce :: "nat \<Rightarrow> 64 word \<Rightarrow> byte list" where
  "counterNonce sz counter = replicate (sz - 8) 0 @ PutUint64 counter"

function secure_Write :: "secureConn \<Rightarrow> writer \<Rightarrow> byte list \<Rightarrow> nat \<Rightarrow>
    (nat \<times> io_error option) \<times> secureConn \<times> writer" where
  "secure_Write c w data written =
     (if data = [] then ((written, None), c, w)
      else
        let sz = min (length data) maxEncryptedRecord;
            plain = take sz data;
            nonce = counterNonce NonceSize (sc_writeCounter c);
            sealed = Seal (sc_writeAEAD c) nonce plain (sc_writeAAD c);
            header = PutUint32 (word_of_nat (length sealed))
        in (case writeFull w header of
              (Some e, w1) \<Rightarrow> ((written, Some e), c, w1)
            | (None, w1) \<Rightarrow>
                (case writeFull w1 sealed of
                   (Some e, w2) \<Rightarrow> ((written, Some e), c, w2)
                 | (None, w2) \<Rightarrow>
                     secure_Write (c\<lparr>sc_writeCounter := sc_writeCounter c + 1\<rparr>) w2 (drop sz data) (written + sz))))"
  by pat_completeness auto
termination
  by (relation "measure (\<lambda>(c, w, data, written). length data)") (auto simp: maxEncryptedRecord_def)

declare secure_Write.simps [simp del]

text \<open>\<open>Read\<close> into a slice of \<open>n\<close> bytes: the bytes copied, the connection, and the rest of the stream.\<close>

definition secure_Read :: "secureConn \<Rightarrow> byte list \<Rightarrow> nat \<Rightarrow>
    (secure_error + byte list) \<times> secureConn \<times> byte list" where
  "secure_Read c s n =
     (if sc_readBuffer c \<noteq> []
      then (Inr (take n (sc_readBuffer c)), c\<lparr>sc_readBuffer := drop n (sc_readBuffer c)\<rparr>, s)
      else
        (case read_full 4 s of
           (Inl e, s1) \<Rightarrow> (Inl (SecureIO e), c, s1)
         | (Inr header, s1) \<Rightarrow>
             let sz = Uint32 header
             in if sz = 0 \<or> word_of_nat maxEncryptedRecord + word_of_nat Overhead < sz
                then (Inl InvalidRecordSize, c, s1)
                else
                  (case read_full (unat sz) s1 of
                     (Inl e, s2) \<Rightarrow> (Inl (SecureIO e), c, s2)
                   | (Inr sealed, s2) \<Rightarrow>
                       (case Open (sc_readAEAD c) (counterNonce NonceSize (sc_readCounter c)) sealed (sc_readAAD c) of
                          None \<Rightarrow> (Inl RecordAuthenticationFailed, c, s2)
                        | Some plain \<Rightarrow>
                            (Inr (take n plain),
                             c\<lparr>sc_readCounter := sc_readCounter c + 1, sc_readBuffer := drop n plain\<rparr>, s2)))))"

section \<open>Records\<close>

definition record_bytes :: "byte list \<Rightarrow> byte list \<Rightarrow> 64 word \<Rightarrow> byte list \<Rightarrow> byte list" where
  "record_bytes key aad counter plain =
     PutUint32 (word_of_nat (length plain + Overhead)) @ Seal key (counterNonce NonceSize counter) plain aad"

definition chunk :: "byte list \<Rightarrow> bool" where
  "chunk p \<longleftrightarrow> p \<noteq> [] \<and> length p \<le> maxEncryptedRecord"

fun records :: "byte list \<Rightarrow> byte list \<Rightarrow> 64 word \<Rightarrow> byte list list \<Rightarrow> byte list" where
  "records key aad counter [] = []"
| "records key aad counter (p # ps) = record_bytes key aad counter p @ records key aad (counter + 1) ps"

lemma records_append:
  "records key aad counter (ps @ qs) = records key aad counter ps @ records key aad (counter + of_nat (length ps)) qs"
  by (induction ps arbitrary: counter) (simp_all add: add.assoc)

text \<open>Part of a record, but not all of it.\<close>

definition cut_record :: "byte list \<Rightarrow> byte list \<Rightarrow> 64 word \<Rightarrow> byte list \<Rightarrow> bool" where
  "cut_record key aad counter bs \<longleftrightarrow> (\<exists>q. chunk q \<and> strict_prefix bs (record_bytes key aad counter q))"

lemma chunk_size:
  assumes "chunk p"
  shows "unat (word_of_nat (length p + Overhead) :: 32 word) = length p + Overhead"
    and "(word_of_nat (length p + Overhead) :: 32 word) \<noteq> 0"
    and "\<not> word_of_nat maxEncryptedRecord + word_of_nat Overhead < (word_of_nat (length p + Overhead) :: 32 word)"
proof -
  have len: "length p \<le> 65536" using assms by (simp add: chunk_def maxEncryptedRecord_def)
  show u: "unat (word_of_nat (length p + Overhead) :: 32 word) = length p + Overhead"
    using len by (simp add: Overhead_def unat_of_nat del: of_nat_add)
  then show "(word_of_nat (length p + Overhead) :: 32 word) \<noteq> 0"
    by (metis Overhead_def add_is_0 unsigned_0 zero_neq_numeral)
  show "\<not> word_of_nat maxEncryptedRecord + word_of_nat Overhead < (word_of_nat (length p + Overhead) :: 32 word)"
    unfolding word_less_nat_alt u using len by (simp add: maxEncryptedRecord_def Overhead_def)
qed

text \<open>Reading a whole record, and reading less than a record.\<close>

lemma secure_Read_record:
  assumes "sc_readBuffer c = []" and "chunk p"
  shows "secure_Read c (record_bytes (sc_readAEAD c) (sc_readAAD c) (sc_readCounter c) p @ s) n =
     (Inr (take n p), c\<lparr>sc_readCounter := sc_readCounter c + 1, sc_readBuffer := drop n p\<rparr>, s)"
  using assms chunk_size [OF assms(2)] gcm.seal_length
  by (simp add: secure_Read_def record_bytes_def read_full_exact Let_def gcm.open_seal del: of_nat_add)

lemma secure_Read_cut:
  assumes "sc_readBuffer c = []" and "cut_record (sc_readAEAD c) (sc_readAAD c) (sc_readCounter c) s"
  shows "\<exists>e s'. secure_Read c s n = (Inl (SecureIO e), c, s')"
proof -
  obtain q z zs where q: "chunk q" and s: "record_bytes (sc_readAEAD c) (sc_readAAD c) (sc_readCounter c) q = s @ z # zs"
    using assms(2) by (auto simp: cut_record_def elim: strict_prefixE')
  let ?h = "PutUint32 (word_of_nat (length q + Overhead))"
  let ?b = "Seal (sc_readAEAD c) (counterNonce NonceSize (sc_readCounter c)) q (sc_readAAD c)"
  have hb: "?h @ ?b = s @ z # zs" using s by (simp add: record_bytes_def)
  show ?thesis
  proof (cases "4 \<le> length s")
    case False
    with assms(1) show ?thesis by (simp add: secure_Read_def read_full_def)
  next
    case True
    then have h: "take 4 s = ?h" and b: "drop 4 s @ z # zs = ?b"
      using arg_cong [OF hb, of "take 4"] arg_cong [OF hb, of "drop 4"] by simp_all
    have "length (drop 4 s) < length q + Overhead" using arg_cong [OF b, of length] gcm.seal_length by simp
    with True h assms(1) chunk_size [OF q] show ?thesis
      by (simp add: secure_Read_def read_full_def Let_def del: of_nat_add length_drop)
  qed
qed

section \<open>Writing\<close>

lemma writeFull_two:
  assumes "writeFull w h = (e1, w1)" and "writeFull w1 b = (e2, w2)"
  shows "e1 \<noteq> None \<Longrightarrow> \<exists>bs. accepted w1 = accepted w @ bs \<and> prefix bs (h @ b)"
    and "e1 = None \<Longrightarrow> e2 \<noteq> None \<Longrightarrow> \<exists>bs. accepted w2 = accepted w @ bs \<and> prefix bs (h @ b)"
    and "e1 = None \<Longrightarrow> e2 = None \<Longrightarrow> accepted w2 = accepted w @ h @ b"
proof -
  from writeFull_spec [OF assms(1)] obtain m1 where m1: "accepted w1 = accepted w @ take m1 h"
    "e1 = None \<longrightarrow> m1 = length h" by blast
  from writeFull_spec [OF assms(2)] obtain m2 where m2: "accepted w2 = accepted w1 @ take m2 b"
    "e2 = None \<longrightarrow> m2 = length b" by blast
  have "prefix (take m1 h) (h @ b)" by (metis append_take_drop_id append.assoc prefixI)
  with m1 show "\<exists>bs. accepted w1 = accepted w @ bs \<and> prefix bs (h @ b)" by blast
  show "\<exists>bs. accepted w2 = accepted w @ bs \<and> prefix bs (h @ b)" if "e1 = None"
    using m1 m2 that by (intro exI [of _ "h @ take m2 b"]) (simp add: take_is_prefix)
  show "accepted w2 = accepted w @ h @ b" if "e1 = None" "e2 = None" using m1 m2 that by simp
qed

text \<open>
  What a call leaves on the wire: whole records for the chunks \<open>ps\<close> of the data, and after a failure
  part of one more record.
\<close>

definition wrote :: "secureConn \<Rightarrow> writer \<Rightarrow> byte list \<Rightarrow> nat \<Rightarrow> nat \<times> io_error option \<Rightarrow> secureConn \<Rightarrow> writer \<Rightarrow>
    byte list list \<Rightarrow> byte list \<Rightarrow> byte list \<Rightarrow> bool" where
  "wrote c w data k r c' w' ps t left \<longleftrightarrow>
     data = concat ps @ left \<and> list_all chunk ps \<and>
     accepted w' = accepted w @ records (sc_writeAEAD c) (sc_writeAAD c) (sc_writeCounter c) ps @ t \<and>
     (if snd r = None
      then t = [] \<and> left = [] \<and> fst r = k + length data \<and>
        c' = c\<lparr>sc_writeCounter := sc_writeCounter c + of_nat (length ps)\<rparr>
      else cut_record (sc_writeAEAD c) (sc_writeAAD c) (sc_writeCounter c + of_nat (length ps)) t)"

lemma cut_record_Nil: "cut_record key aad counter []"
proof -
  have "chunk [0]" by (simp add: chunk_def maxEncryptedRecord_def)
  moreover have "record_bytes key aad counter [0] \<noteq> []"
    using PutUint_length(1) by (metis append_is_Nil_conv length_0_conv record_bytes_def zero_neq_numeral)
  ultimately show ?thesis by (auto simp: cut_record_def strict_prefix_def)
qed

lemma wrote_failed:
  assumes "snd r \<noteq> None" and "chunk p" and "data = p @ rest"
    and "accepted w' = accepted w @ bs" and "prefix bs (record_bytes (sc_writeAEAD c) (sc_writeAAD c) (sc_writeCounter c) p)"
  shows "\<exists>ps t left. wrote c w data k r c' w' ps t left"
proof (cases "bs = record_bytes (sc_writeAEAD c) (sc_writeAAD c) (sc_writeCounter c) p")
  case True
  then have "wrote c w data k r c' w' [p] [] rest" using assms by (auto simp: wrote_def cut_record_Nil)
  then show ?thesis by blast
next
  case False
  then have "wrote c w data k r c' w' [] bs data" using assms by (auto simp: wrote_def cut_record_def strict_prefix_def)
  then show ?thesis by blast
qed

lemma wrote_step:
  assumes "wrote (c\<lparr>sc_writeCounter := sc_writeCounter c + 1\<rparr>) w2 rest (k + length p) r c' w' ps t left"
    and "chunk p" and "data = p @ rest"
    and "accepted w2 = accepted w @ record_bytes (sc_writeAEAD c) (sc_writeAAD c) (sc_writeCounter c) p"
  shows "wrote c w data k r c' w' (p # ps) t left"
  using assms by (auto simp: wrote_def add.assoc split: if_splits)

lemma secure_Write_records:
  "secure_Write c w data k = (r, c', w') \<Longrightarrow> \<exists>ps t left. wrote c w data k r c' w' ps t left"
proof (induction c w data k arbitrary: r c' w' rule: secure_Write.induct)
  case (1 c w data k)
  show ?case
  proof (cases "data = []")
    case True
    then have "wrote c w data k r c' w' [] [] []" using "1.prems" by (auto simp: secure_Write.simps wrote_def)
    then show ?thesis by blast
  next
    case False
    define sz where "sz = min (length data) maxEncryptedRecord"
    define p where "p = take sz data"
    define sealed where "sealed = Seal (sc_writeAEAD c) (counterNonce NonceSize (sc_writeCounter c)) p (sc_writeAAD c)"
    define header where "header = PutUint32 (word_of_nat (length sealed))"
    note defs = header_def sealed_def p_def sz_def
    have p: "chunk p" and data: "data = p @ drop sz data" and len: "length p = sz"
      using False by (auto simp: chunk_def maxEncryptedRecord_def p_def sz_def)
    have rec: "record_bytes (sc_writeAEAD c) (sc_writeAAD c) (sc_writeCounter c) p = header @ sealed"
      using gcm.seal_length by (simp add: record_bytes_def header_def sealed_def)
    obtain e1 w1 where w1: "writeFull w header = (e1, w1)" by fastforce
    obtain e2 w2 where w2: "writeFull w1 sealed = (e2, w2)" by fastforce
    have run: "secure_Write c w data k =
        (case e1 of Some e \<Rightarrow> ((k, Some e), c, w1)
         | None \<Rightarrow> (case e2 of Some e \<Rightarrow> ((k, Some e), c, w2)
             | None \<Rightarrow> secure_Write (c\<lparr>sc_writeCounter := sc_writeCounter c + 1\<rparr>) w2 (drop sz data) (k + sz)))"
      using False w1 w2 unfolding defs by (simp add: secure_Write.simps [of c w data] Let_def split: option.splits)
    note two = writeFull_two [OF w1 w2, folded rec]
    consider (header) "e1 \<noteq> None" | (body) "e1 = None" "e2 \<noteq> None" | (ok) "e1 = None" "e2 = None" by blast
    then show ?thesis
    proof cases
      case header
      then have "w' = w1" "snd r \<noteq> None" using run "1.prems" by auto
      with two(1) [OF header] wrote_failed [OF _ p data] show ?thesis by blast
    next
      case body
      then have "w' = w2" "snd r \<noteq> None" using run "1.prems" by auto
      with two(2) [OF body] wrote_failed [OF _ p data] show ?thesis by blast
    next
      case ok
      then have "secure_Write (c\<lparr>sc_writeCounter := sc_writeCounter c + 1\<rparr>) w2 (drop sz data) (k + sz) = (r, c', w')"
        using run "1.prems" by simp
      from "1.IH" [OF False refl refl refl refl refl w1 [unfolded defs ok(1), symmetric] refl
          w2 [unfolded defs ok(2), symmetric] refl this [unfolded sz_def]]
      obtain ps t left where "wrote (c\<lparr>sc_writeCounter := sc_writeCounter c + 1\<rparr>) w2 (drop sz data) (k + length p) r c' w' ps t left"
        unfolding len sz_def by blast
      from wrote_step [OF this p data two(3) [OF ok]] show ?thesis by blast
    qed
  qed
qed

section \<open>A channel between the two ends of a stream\<close>

text \<open>
  One direction of a stream: the sending end, the network with the bytes under way, the receiving end,
  and what was handed to \<open>Write\<close> and returned by \<open>Read\<close> so far. After a failed write the sender
  stops (as \<open>io.Copy\<close> does); a \<open>Read\<close> that lacks bytes waits.
\<close>

record channel =
  ch_send :: secureConn
  ch_net :: writer
  ch_recv :: secureConn
  ch_sent :: "byte list"
  ch_received :: "byte list"
  ch_broken :: bool
  ch_rejected :: bool

datatype channel_op = Send "byte list" | Receive nat

fun channel_step :: "channel \<Rightarrow> channel_op \<Rightarrow> channel" where
  "channel_step ch (Send data) =
     (if ch_broken ch then ch
      else (case secure_Write (ch_send ch) (ch_net ch) data 0 of
              ((n, e), c, w) \<Rightarrow>
                ch\<lparr>ch_send := c, ch_net := w, ch_sent := ch_sent ch @ data, ch_broken := e \<noteq> None\<rparr>))"
| "channel_step ch (Receive n) =
     (case secure_Read (ch_recv ch) (accepted (ch_net ch)) n of
        (Inr bs, c, s) \<Rightarrow>
          ch\<lparr>ch_recv := c, ch_net := (ch_net ch)\<lparr>accepted := s\<rparr>, ch_received := ch_received ch @ bs\<rparr>
      | (Inl (SecureIO e), c, s) \<Rightarrow> ch
      | (Inl e, c, s) \<Rightarrow> ch\<lparr>ch_rejected := True\<rparr>)"

definition open_channel :: "secureConn \<Rightarrow> secureConn \<Rightarrow> write_step list \<Rightarrow> channel" where
  "open_channel cw cr steps =
     \<lparr>ch_send = cw, ch_net = \<lparr>accepted = [], script = steps\<rparr>, ch_recv = cr, ch_sent = [], ch_received = [],
      ch_broken = False, ch_rejected = False\<rparr>"

definition run_channel :: "channel_op list \<Rightarrow> channel \<Rightarrow> channel" where
  "run_channel ops ch = foldl channel_step ch ops"

definition in_flight :: "channel \<Rightarrow> byte list list \<Rightarrow> byte list \<Rightarrow> byte list \<Rightarrow> bool" where
  "in_flight ch ps t left \<longleftrightarrow>
     (let w = ch_send ch; r = ch_recv ch in
      \<not> ch_rejected ch \<and> list_all chunk ps \<and>
      accepted (ch_net ch) = records (sc_readAEAD r) (sc_readAAD r) (sc_readCounter r) ps @ t \<and>
      ch_sent ch = ch_received ch @ sc_readBuffer r @ concat ps @ left \<and>
      (if ch_broken ch then cut_record (sc_readAEAD r) (sc_readAAD r) (sc_readCounter r + of_nat (length ps)) t
       else t = [] \<and> left = [] \<and> sc_writeAEAD w = sc_readAEAD r \<and> sc_writeAAD w = sc_readAAD r \<and>
         sc_writeCounter w = sc_readCounter r + of_nat (length ps)))"

definition channel_ok :: "channel \<Rightarrow> bool" where
  "channel_ok ch \<longleftrightarrow> (\<exists>ps t left. in_flight ch ps t left)"

text \<open>A write appends to what is under way, whatever part of it the writer still holds.\<close>

lemma in_flight_wrote:
  assumes "in_flight ch ps t left" and "\<not> ch_broken ch" and "secure_Write (ch_send ch) w data 0 = ((n, e), c, w')"
  shows "\<exists>z ps' t' left'. accepted w' = accepted w @ z \<and>
    in_flight (ch\<lparr>ch_send := c, ch_net := \<lparr>accepted = accepted (ch_net ch) @ z, script = sc\<rparr>, ch_sent := ch_sent ch @ data,
      ch_broken := e \<noteq> None\<rparr>) ps' t' left'"
proof -
  from secure_Write_records [OF assms(3)] obtain qs t' left'
    where wr: "wrote (ch_send ch) w data 0 (n, e) c w' qs t' left'" by blast
  let ?z = "records (sc_writeAEAD (ch_send ch)) (sc_writeAAD (ch_send ch)) (sc_writeCounter (ch_send ch)) qs @ t'"
  have "in_flight (ch\<lparr>ch_send := c, ch_net := \<lparr>accepted = accepted (ch_net ch) @ ?z, script = sc\<rparr>, ch_sent := ch_sent ch @ data,
      ch_broken := e \<noteq> None\<rparr>) (ps @ qs) t' left'"
    using assms(1,2) wr by (cases e) (simp_all add: in_flight_def wrote_def Let_def records_append add.assoc)
  moreover have "accepted w' = accepted w @ ?z" using wr by (simp add: wrote_def)
  ultimately show ?thesis by blast
qed

lemma in_flight_send:
  assumes "in_flight ch ps t left"
  shows "\<exists>ps' t' left'. in_flight (channel_step ch (Send data)) ps' t' left'"
proof (cases "ch_broken ch")
  case True
  with assms show ?thesis by auto
next
  case False
  obtain n e c w where run: "secure_Write (ch_send ch) (ch_net ch) data 0 = ((n, e), c, w)" by (metis surj_pair)
  from in_flight_wrote [OF assms False run, of "script w"] obtain ps' t' left' where
    "in_flight (ch\<lparr>ch_send := c, ch_net := w, ch_sent := ch_sent ch @ data, ch_broken := e \<noteq> None\<rparr>) ps' t' left'"
    by (metis writer.surjective old.unit.exhaust)
  then show ?thesis using False run by auto
qed

lemma in_flight_receive:
  assumes "in_flight ch ps t left"
  shows "\<exists>ps'. in_flight (channel_step ch (Receive n)) ps' t left"
    and "\<not> ch_broken ch \<Longrightarrow> ch_received ch \<noteq> ch_sent ch \<Longrightarrow> 0 < n \<Longrightarrow>
      length (ch_received ch) < length (ch_received (channel_step ch (Receive n)))"
proof -
  note inv = assms [unfolded in_flight_def Let_def]
  have "(\<exists>ps'. in_flight (channel_step ch (Receive n)) ps' t left) \<and>
    (\<not> ch_broken ch \<longrightarrow> ch_received ch \<noteq> ch_sent ch \<longrightarrow> 0 < n \<longrightarrow>
      length (ch_received ch) < length (ch_received (channel_step ch (Receive n))))"
  proof (cases "sc_readBuffer (ch_recv ch) = []")
    case False
    then have "in_flight (channel_step ch (Receive n)) ps t left"
      using inv by (simp add: in_flight_def Let_def secure_Read_def)
    with False show ?thesis by (auto simp: secure_Read_def)
  next
    case empty: True
    show ?thesis
    proof (cases ps)
      case (Cons p qs)
      with inv have "chunk p" by simp
      from secure_Read_record [OF empty this]
      have "in_flight (channel_step ch (Receive n)) qs t left"
        using inv empty Cons by (cases "ch_broken ch") (simp_all add: in_flight_def Let_def add.assoc)
      with Cons empty inv secure_Read_record [OF empty \<open>chunk p\<close>] show ?thesis by (auto simp: chunk_def)
    next
      case Nil
      have "cut_record (sc_readAEAD (ch_recv ch)) (sc_readAAD (ch_recv ch)) (sc_readCounter (ch_recv ch)) t"
        using inv Nil by (auto simp: cut_record_Nil split: if_splits)
      from secure_Read_cut [OF empty this] obtain e s' where
        "secure_Read (ch_recv ch) (accepted (ch_net ch)) n = (Inl (SecureIO e), ch_recv ch, s')"
        using inv Nil by (metis append_Nil records.simps(1))
      then have "channel_step ch (Receive n) = ch" by simp
      with assms inv Nil empty show ?thesis by auto
    qed
  qed
  then show "\<exists>ps'. in_flight (channel_step ch (Receive n)) ps' t left"
    and "\<not> ch_broken ch \<Longrightarrow> ch_received ch \<noteq> ch_sent ch \<Longrightarrow> 0 < n \<Longrightarrow>
      length (ch_received ch) < length (ch_received (channel_step ch (Receive n)))" by blast+
qed

lemma channel_ok_step: "channel_ok ch \<Longrightarrow> channel_ok (channel_step ch op)"
  unfolding channel_ok_def using in_flight_send in_flight_receive(1) by (cases op) blast+

lemma channel_ok_run: "channel_ok ch \<Longrightarrow> channel_ok (run_channel ops ch)"
  by (induction ops arbitrary: ch) (auto simp: run_channel_def channel_ok_step)

section \<open>The two ends agree\<close>

lemma peerRole_twice: "peerRole role \<noteq> '''' \<Longrightarrow> peerRole (peerRole role) = role"
  by (auto simp: peerRole_def split: if_splits)

lemma NewCipher_hmac [simp]: "NewCipher (hmac_sha256 key msg) = Some (hmac_sha256 key msg)"
  by (simp add: NewCipher_def)

lemma wrapSecure_ends:
  assumes "wrapSecure key pairID streamID role = Inr cw" and "wrapSecure key pairID streamID (peerRole role) = Inr cr"
  shows "channel_ok (open_channel cw cr steps)"
proof -
  have "in_flight (open_channel cw cr steps) [] [] []"
    using assms
    by (auto simp: wrapSecure_def makeAEAD_def Let_def in_flight_def open_channel_def peerRole_twice
        split: option.splits if_splits)
  then show ?thesis by (auto simp: channel_ok_def)
qed

lemma wrapSecure_role:
  "wrapSecure key pairID streamID role = Inr c \<Longrightarrow> \<exists>c'. wrapSecure key pairID streamID (peerRole role) = Inr c'"
  by (auto simp: wrapSecure_def makeAEAD_def Let_def peerRole_def split: option.splits if_splits)

section \<open>Properties\<close>

lemma script_writeFull: "script w = [] \<Longrightarrow> script (snd (writeFull w bs)) = [] \<and> fst (writeFull w bs) = None"
  by (simp add: writeFull_ready)

lemma secure_Write_ready:
  "script w = [] \<Longrightarrow> snd (fst (secure_Write c w data k)) = None \<and> script (snd (snd (secure_Write c w data k))) = []"
proof (induction c w data k rule: secure_Write.induct)
  case (1 c w data k)
  show ?case
  proof (cases "data = []")
    case True
    with 1 show ?thesis by (simp add: secure_Write.simps)
  next
    case False
    note ih = "1.IH" [OF False refl refl refl refl refl _ refl _ refl]
    show ?thesis
      using 1(2) False ih by (subst (1 2) secure_Write.simps) (simp add: Let_def writeFull_ready)
  qed
qed

lemma unbroken_run: "script (ch_net ch) = [] \<Longrightarrow> \<not> ch_broken ch \<Longrightarrow> \<not> ch_broken (run_channel ops ch)"
proof (induction ops arbitrary: ch)
  case (Cons op ops)
  have "script (ch_net (channel_step ch op)) = [] \<and> \<not> ch_broken (channel_step ch op)"
  proof (cases op)
    case (Send data)
    with Cons.prems secure_Write_ready [of "ch_net ch" "ch_send ch" data 0] show ?thesis
      by (auto split: prod.splits)
  next
    case (Receive n)
    with Cons.prems show ?thesis by (auto split: prod.splits sum.splits secure_error.splits)
  qed
  with Cons.IH show ?case by (simp add: run_channel_def)
qed (simp add: run_channel_def)

definition sample_tunnel_key :: string where
  "sample_tunnel_key = b64_encode (replicate 32 7)"

text \<open>
  C24. The encrypted stream is a byte pipe. Whatever the network does with short or failing writes,
  and however the two ends interleave their calls and size their buffers: what the receiver has read
  is a prefix of what the sender wrote, no record is rejected, and as long as no write failed, any
  unread byte makes the next \<open>Read\<close> deliver something. On a network that never fails no write fails.
\<close>

theorem secure_channel_fifo:
  assumes "wrapSecure key pairID streamID role = Inr cw"
    and "wrapSecure key pairID streamID (peerRole role) = Inr cr"
    and "ch = run_channel ops (open_channel cw cr steps)"
  shows "prefix (ch_received ch) (ch_sent ch) \<and> \<not> ch_rejected ch \<and>
    (\<not> ch_broken ch \<and> ch_received ch \<noteq> ch_sent ch \<and> 0 < n \<longrightarrow>
       length (ch_received ch) < length (ch_received (channel_step ch (Receive n)))) \<and>
    (steps = [] \<longrightarrow> \<not> ch_broken ch)"
proof -
  have "channel_ok ch" unfolding assms(3) by (rule channel_ok_run, rule wrapSecure_ends [OF assms(1,2)])
  then obtain ps t left where fl: "in_flight ch ps t left" by (auto simp: channel_ok_def)
  then have "prefix (ch_received ch) (ch_sent ch)" "\<not> ch_rejected ch" by (auto simp: in_flight_def Let_def)
  moreover have "steps = [] \<longrightarrow> \<not> ch_broken ch"
    unfolding assms(3) using unbroken_run by (simp add: open_channel_def)
  ultimately show ?thesis using in_flight_receive(2) [OF fl] by blast
qed

text \<open>Two ends of one key: three bytes are sent and a read of one byte delivers a part of them.\<close>

theorem secure_channel_fifo_witness:
  "\<exists>cw cr ch. wrapSecure sample_tunnel_key ''aa'' ''s'' ''requester'' = Inr cw \<and>
     wrapSecure sample_tunnel_key ''aa'' ''s'' ''provider'' = Inr cr \<and>
     run_channel [Send [1, 2, 3], Receive 1] (open_channel cw cr []) = ch \<and>
     ch_sent ch = [1, 2, 3] \<and> prefix (ch_received ch) [1, 2, 3] \<and> ch_received ch \<noteq> [] \<and> \<not> ch_rejected ch \<and> \<not> ch_broken ch"
proof -
  have key: "b64_decode sample_tunnel_key = Some (replicate 32 7)"
    by (simp add: sample_tunnel_key_def base64url.dec_enc)
  obtain cw where cw: "wrapSecure sample_tunnel_key ''aa'' ''s'' ''requester'' = Inr cw"
    by (simp add: wrapSecure_def key makeAEAD_def peerRole_def Let_def)
  then obtain cr where cr: "wrapSecure sample_tunnel_key ''aa'' ''s'' (peerRole ''requester'') = Inr cr"
    using wrapSecure_role by blast
  define ch0 where "ch0 = run_channel [Send [1, 2, 3]] (open_channel cw cr [])"
  define ch where "ch = run_channel [Send [1, 2, 3], Receive 1] (open_channel cw cr [])"
  have step: "ch = channel_step ch0 (Receive 1)" by (simp add: ch_def ch0_def run_channel_def)
  have sent0: "ch_sent ch0 = [1, 2, 3]" "ch_received ch0 = []"
    by (simp_all add: ch0_def run_channel_def open_channel_def split: prod.splits)
  then have sent: "ch_sent ch = [1, 2, 3]"
    by (simp add: step split: prod.splits sum.splits secure_error.splits)
  have "ch_received ch \<noteq> []"
    using secure_channel_fifo [OF cw cr ch0_def, of 1] sent0 step by auto
  moreover have "prefix (ch_received ch) [1, 2, 3]" "\<not> ch_rejected ch" "\<not> ch_broken ch"
    using secure_channel_fifo [OF cw cr ch_def, of 1] sent by simp_all
  moreover have "wrapSecure sample_tunnel_key ''aa'' ''s'' ''provider'' = Inr cr" using cr by (simp add: peerRole_def)
  ultimately show ?thesis using cw sent ch_def [symmetric] by blast
qed

lemma secure_Read_accepts:
  assumes "secure_Read c s n = (Inr bs, c', s')" and "sc_readBuffer c = []"
  shows "\<exists>plain. s = record_bytes (sc_readAEAD c) (sc_readAAD c) (sc_readCounter c) plain @ s' \<and>
    length plain \<le> maxEncryptedRecord \<and> bs @ sc_readBuffer c' = plain \<and> sc_readCounter c' = sc_readCounter c + 1"
proof -
  obtain header s1 sealed plain where h: "read_full 4 s = (Inr header, s1)"
    and sz: "\<not> word_of_nat maxEncryptedRecord + word_of_nat Overhead < Uint32 header"
    and b: "read_full (unat (Uint32 header)) s1 = (Inr sealed, s')"
    and o: "Open (sc_readAEAD c) (counterNonce NonceSize (sc_readCounter c)) sealed (sc_readAAD c) = Some plain"
    and r: "bs = take n plain" "c' = c\<lparr>sc_readCounter := sc_readCounter c + 1, sc_readBuffer := drop n plain\<rparr>"
    using assms by (auto simp: secure_Read_def Let_def split: prod.splits sum.splits if_splits option.splits)
  have sealed: "sealed = Seal (sc_readAEAD c) (counterNonce NonceSize (sc_readCounter c)) plain (sc_readAAD c)"
    using o by (simp add: gcm.open_iff)
  have len: "unat (Uint32 header) = length plain + Overhead"
    using b by (simp add: read_full_Inr sealed gcm.seal_length)
  then have "Uint32 header = word_of_nat (length plain + Overhead)"
    by (metis of_nat_unat ucast_id)
  then have "header = PutUint32 (word_of_nat (length plain + Overhead))"
    using h Put_Uint32 [of header] by (simp add: read_full_Inr)
  moreover have "length plain \<le> maxEncryptedRecord"
    using sz len by (simp add: word_less_nat_alt maxEncryptedRecord_def Overhead_def)
  ultimately show ?thesis using h b r by (simp add: read_full_Inr record_bytes_def sealed)
qed

text \<open>
  The receiver accepts nothing but the sealed record of the next counter: whenever \<open>Read\<close> takes a
  record from the stream, its bytes are exactly the record that sealing some data of at most 64 KiB
  under the key, the direction and this counter gives; the bytes returned and buffered are this data,
  and no other data has this record.
\<close>

theorem secure_record_authentic:
  assumes "secure_Read c s n = (Inr bs, c', s')" and "sc_readBuffer c = []"
  shows "\<exists>plain. s = record_bytes (sc_readAEAD c) (sc_readAAD c) (sc_readCounter c) plain @ s' \<and>
    length plain \<le> maxEncryptedRecord \<and> bs @ sc_readBuffer c' = plain \<and> sc_readCounter c' = sc_readCounter c + 1 \<and>
    (\<forall>q. s = record_bytes (sc_readAEAD c) (sc_readAAD c) (sc_readCounter c) q @ s' \<longrightarrow> q = plain)"
proof -
  obtain plain where p: "s = record_bytes (sc_readAEAD c) (sc_readAAD c) (sc_readCounter c) plain @ s'"
    "length plain \<le> maxEncryptedRecord" "bs @ sc_readBuffer c' = plain" "sc_readCounter c' = sc_readCounter c + 1"
    using secure_Read_accepts [OF assms] by blast
  have "q = plain" if "s = record_bytes (sc_readAEAD c) (sc_readAAD c) (sc_readCounter c) q @ s'" for q
    using that p(1) gcm.seal_inj by (simp add: record_bytes_def)
  with p show ?thesis by blast
qed

theorem secure_record_authentic_witness:
  "\<exists>c s bs c' s'. secure_Read c s 2 = (Inr bs, c', s') \<and> bs = [5, 6] \<and> sc_readCounter c' = sc_readCounter c + 1"
proof -
  let ?c = "\<lparr>sc_writeAEAD = replicate 32 1, sc_readAEAD = replicate 32 2, sc_writeAAD = [], sc_readAAD = [9],
    sc_writeCounter = 0, sc_readCounter = 4, sc_readBuffer = []\<rparr>"
  have r: "secure_Read ?c (record_bytes (replicate 32 2) [9] 4 [5, 6] @ []) 2 =
      (Inr [5, 6], ?c\<lparr>sc_readCounter := 5, sc_readBuffer := []\<rparr>, [])"
    using secure_Read_record [of ?c "[5, 6]" "[]" 2] by (simp add: chunk_def maxEncryptedRecord_def)
  from secure_record_authentic [OF r] r show ?thesis
    by (intro exI conjI) (rule r, simp_all)
qed

end
