(* ===== verification/Agent.thy ===== *)
theory Agent
  imports Relay Secure
begin

text \<open>
  The tunnel agent (\<open>src/internal/tunnel/agent.go\<close>): the checks on its configuration, its half of the
  authentication with the relay, the handshakes it sends, how it opens the encrypted end of a stream,
  which messages of its control session start a stream, and its reconnection delays. Dialling
  is in theory \<open>Agent_Dial\<close>, the loops are in \<open>Agent_Loop\<close> and the copying between connections in \<open>Bridge\<close>.
\<close>

section \<open>Configuration\<close>

record AgentConfig =
  ag_Role :: string
  ag_PairID :: string
  ag_RelayAddress :: string
  ag_RelayToken :: string
  ag_TunnelKey :: string
  ag_Forwards :: "(string, string) gomap"
  ag_Targets :: "(string, string) gomap"

datatype agent_error =
    MissingSetting
  | BadRelayToken
  | BadTunnelKey
  | PairMismatch
  | UnsupportedTarget string
  | BadChallenge
  | RelayIO line_error
  | NotPaired
  | NotWrapped secure_error

definition NewAgent :: "ed25519 \<Rightarrow> AgentConfig \<Rightarrow> agent_error + AgentConfig" where
  "NewAgent ed cfg =
     (if peerRole (ag_Role cfg) = '''' \<or> ag_PairID cfg = '''' \<or> ag_RelayAddress cfg = '''' \<or> ag_RelayToken cfg = '''' \<or>
         ag_TunnelKey cfg = '''' then Inl MissingSetting
      else if \<not> ValidPairToken (ag_RelayToken cfg) then Inl BadRelayToken
      else if \<not> ValidPairToken (ag_TunnelKey cfg) then Inl BadTunnelKey
      else if ag_PairID cfg \<noteq> PairIDFromToken ed (ag_RelayToken cfg) then Inl PairMismatch
      else (case filter (\<lambda>t. \<not> known_target t) (map snd (ag_Forwards cfg)) of
              t # _ \<Rightarrow> Inl (UnsupportedTarget t)
            | [] \<Rightarrow>
                (case filter (\<lambda>t. \<not> known_target t) (map fst (ag_Targets cfg)) of
                   t # _ \<Rightarrow> Inl (UnsupportedTarget t)
                 | [] \<Rightarrow> Inr cfg)))"

section \<open>Talking to the relay\<close>

definition control_hello :: "AgentConfig \<Rightarrow> handshake" where
  "control_hello cfg = \<lparr>hs_Type = ''control'', hs_Role = ag_Role cfg, hs_PairID = ag_PairID cfg, hs_StreamID = '''', hs_Target = ''''\<rparr>"

definition stream_hello :: "AgentConfig \<Rightarrow> string \<Rightarrow> string \<Rightarrow> handshake" where
  "stream_hello cfg streamID target =
     \<lparr>hs_Type = ''stream'', hs_Role = ag_Role cfg, hs_PairID = ag_PairID cfg, hs_StreamID = streamID, hs_Target = target\<rparr>"

text \<open>The answer to the challenge that \<open>authenticate\<close> reads after sending \<open>hello\<close>.\<close>

definition agent_authenticate :: "ed25519 \<Rightarrow> AgentConfig \<Rightarrow> handshake \<Rightarrow> line_error + authChallenge \<Rightarrow> agent_error + authResponse" where
  "agent_authenticate ed cfg hello challenge =
     (case challenge of
        Inl _ \<Rightarrow> Inl BadChallenge
      | Inr c \<Rightarrow>
          if ac_Type c \<noteq> ''auth_challenge'' \<or> ac_Nonce c = '''' then Inl BadChallenge
          else Inr \<lparr>ar_Type = ''auth_response'', ar_Signature = signChallenge ed (ag_RelayToken cfg) hello (ac_Nonce c)\<rparr>)"

text \<open>\<open>openStream\<close> after a successful authentication, with the relay's next message.\<close>

definition openStream :: "AgentConfig \<Rightarrow> string \<Rightarrow> line_error + controlMessage \<Rightarrow> agent_error + secureConn" where
  "openStream cfg streamID response =
     (case response of
        Inl _ \<Rightarrow> Inl NotPaired
      | Inr m \<Rightarrow>
          if cm_Type m \<noteq> ''ready'' then Inl NotPaired
          else (case wrapSecure (ag_TunnelKey cfg) (ag_PairID cfg) streamID (ag_Role cfg) of
                  Inl e \<Rightarrow> Inl (NotWrapped e)
                | Inr c \<Rightarrow> Inr c))"

text \<open>The stream and local address a control message makes the agent open (\<open>controlSession\<close>, \<open>openTarget\<close>).\<close>

definition openTarget :: "AgentConfig \<Rightarrow> controlMessage \<Rightarrow> (string \<times> string \<times> string) option" where
  "openTarget cfg m =
     (if cm_Type m \<noteq> ''open'' then None
      else map_option (\<lambda>address. (cm_StreamID m, cm_Target m, address)) (map_of (ag_Targets cfg) (cm_Target m)))"

text \<open>\<open>randomID\<close>: the hexadecimal form of 16 random bytes.\<close>

definition randomID :: "byte list option \<Rightarrow> string option" where
  "randomID rnd = map_option hex_encode rnd"

text \<open>The delay before the next control session, after one that ended with or without an error.\<close>

definition next_backoff :: "int \<Rightarrow> bool \<Rightarrow> int \<times> int" where
  "next_backoff backoff ok =
     (let b = (if ok then 1000000000 else backoff) in (b, if b < 30000000000 then b * 2 else b))"

section \<open>Lemmas\<close>

lemma NewAgent_Inr:
  "NewAgent ed cfg = Inr a \<Longrightarrow> a = cfg \<and> peerRole (ag_Role cfg) \<noteq> '''' \<and> ag_PairID cfg = PairIDFromToken ed (ag_RelayToken cfg) \<and>
     ag_PairID cfg \<noteq> '''' \<and> (\<exists>secret. b64_decode (ag_TunnelKey cfg) = Some secret \<and> 32 \<le> length secret)"
  by (auto simp: NewAgent_def ValidPairToken_def split: if_splits list.splits option.splits)


lemma hex_encode_nonempty: "bs \<noteq> [] \<Longrightarrow> hex_encode bs \<noteq> []"
  by (cases bs) (simp_all add: hex_encode_def)

lemma agent_admitted:
  assumes "ed25519_ok ed" and "NewAgent ed cfg = Inr a" and "nonce \<noteq> []" and "hs_PairID hello = ag_PairID cfg"
  shows "\<exists>resp. agent_authenticate ed cfg hello (Inr \<lparr>ac_Type = ''auth_challenge'', ac_Nonce = b64_encode nonce\<rparr>) = Inr resp \<and>
    relay_authenticate ed hello (Some nonce) True (Some resp)"
  using assms NewAgent_Inr [OF assms(2)] verify_signChallenge [OF assms(1), of hello "ag_RelayToken cfg"] b64_encode_nonempty [OF assms(3)]
  by (simp add: agent_authenticate_def relay_authenticate_def)

lemma agent_wraps:
  assumes "NewAgent ed cfg = Inr a"
  shows "\<exists>c. wrapSecure (ag_TunnelKey cfg) (ag_PairID cfg) streamID (ag_Role cfg) = Inr c"
  using NewAgent_Inr [OF assms] by (auto simp: wrapSecure_def makeAEAD_def Let_def)

text \<open>
  Two configured agents of a pair reach each other through the relay: each passes the relay's
  authentication for its control session and for every stream, whatever challenge is drawn; and when
  both are told that a stream is ready, their encrypted ends match, so that from the first byte on what
  one has read is a prefix of what the other wrote.
\<close>

theorem agents_meet_through_relay:
  assumes "ed25519_ok ed" and "NewAgent ed a = Inr a'" and "NewAgent ed b = Inr b'"
    and "ag_Role b = peerRole (ag_Role a)" and "ag_RelayToken b = ag_RelayToken a" and "ag_TunnelKey b = ag_TunnelKey a"
    and "nonce \<noteq> []"
  shows "(\<forall>cfg\<in>{a, b}. \<forall>hello\<in>{control_hello cfg, stream_hello cfg streamID target}.
       \<exists>resp. agent_authenticate ed cfg hello (Inr \<lparr>ac_Type = ''auth_challenge'', ac_Nonce = b64_encode nonce\<rparr>) = Inr resp \<and>
         peerRole (hs_Role hello) \<noteq> '''' \<and> relay_authenticate ed hello (Some nonce) True (Some resp)) \<and>
    (\<exists>ca cb. openStream a streamID (Inr (control_message ''ready'')) = Inr ca \<and>
       openStream b streamID (Inr (control_message ''ready'')) = Inr cb \<and>
       prefix (ch_received (run_channel ops (open_channel ca cb steps))) (ch_sent (run_channel ops (open_channel ca cb steps))) \<and>
       \<not> ch_rejected (run_channel ops (open_channel ca cb steps)))"
proof -
  note na = NewAgent_Inr [OF assms(2)] and nb = NewAgent_Inr [OF assms(3)]
  have same: "ag_PairID b = ag_PairID a" using na nb assms(5) by simp
  obtain ca where ca: "wrapSecure (ag_TunnelKey a) (ag_PairID a) streamID (ag_Role a) = Inr ca"
    using agent_wraps [OF assms(2)] by blast
  obtain cb where cb: "wrapSecure (ag_TunnelKey b) (ag_PairID b) streamID (ag_Role b) = Inr cb"
    using agent_wraps [OF assms(3)] by blast
  have "channel_ok (run_channel ops (open_channel ca cb steps))"
    using cb by (intro channel_ok_run wrapSecure_ends [OF ca]) (simp add: same assms(4,6))
  then have "prefix (ch_received (run_channel ops (open_channel ca cb steps))) (ch_sent (run_channel ops (open_channel ca cb steps))) \<and>
      \<not> ch_rejected (run_channel ops (open_channel ca cb steps))"
    by (auto simp: channel_ok_def in_flight_def Let_def)
  moreover have "openStream a streamID (Inr (control_message ''ready'')) = Inr ca" "openStream b streamID (Inr (control_message ''ready'')) = Inr cb"
    using ca cb by (simp_all add: openStream_def control_message_def)
  moreover have "\<exists>resp. agent_authenticate ed cfg hello (Inr \<lparr>ac_Type = ''auth_challenge'', ac_Nonce = b64_encode nonce\<rparr>) = Inr resp \<and>
      peerRole (hs_Role hello) \<noteq> '''' \<and> relay_authenticate ed hello (Some nonce) True (Some resp)"
    if "cfg \<in> {a, b}" "hello \<in> {control_hello cfg, stream_hello cfg streamID target}" for cfg hello
    using that agent_admitted [OF assms(1,2,7)] agent_admitted [OF assms(1,3,7)] na nb
    by (auto simp: control_hello_def stream_hello_def)
  ultimately show ?thesis by blast
qed

definition sample_agent :: "string \<Rightarrow> AgentConfig" where
  "sample_agent role = \<lparr>ag_Role = role, ag_PairID = hex_encode (replicate 32 0), ag_RelayAddress = ''r:1'',
     ag_RelayToken = b64_encode (replicate 32 1), ag_TunnelKey = b64_encode (replicate 32 2), ag_Forwards = [], ag_Targets = []\<rparr>"

definition constant_ed :: ed25519 where
  "constant_ed = \<lparr>NewKeyFromSeed = (\<lambda>s. s), Public = (\<lambda>k. replicate 32 0), ed_Sign = (\<lambda>k m. m), ed_Verify = (\<lambda>k m s. s = m)\<rparr>"

lemma constant_ed_ok: "ed25519_ok constant_ed"
  by (simp add: ed25519_ok_def constant_ed_def PublicKeySize_def)

lemma sample_agent_ok: "peerRole role \<noteq> '''' \<Longrightarrow> NewAgent constant_ed (sample_agent role) = Inr (sample_agent role)"
  by (simp add: NewAgent_def sample_agent_def ValidPairToken_def base64url.dec_enc PairIDFromToken_def constant_ed_def
      b64_encode_nonempty hex_encode_nonempty)

theorem agents_meet_through_relay_witness:
  "\<exists>ca cb. openStream (sample_agent ''requester'') ''s'' (Inr (control_message ''ready'')) = Inr ca \<and>
     openStream (sample_agent ''provider'') ''s'' (Inr (control_message ''ready'')) = Inr cb"
proof -
  have ok: "NewAgent constant_ed (sample_agent ''requester'') = Inr (sample_agent ''requester'')"
    "NewAgent constant_ed (sample_agent ''provider'') = Inr (sample_agent ''provider'')"
    by (simp_all add: sample_agent_ok peerRole_def)
  have "ag_Role (sample_agent ''provider'') = peerRole (ag_Role (sample_agent ''requester''))"
    "ag_RelayToken (sample_agent ''provider'') = ag_RelayToken (sample_agent ''requester'')"
    "ag_TunnelKey (sample_agent ''provider'') = ag_TunnelKey (sample_agent ''requester'')" "[1 :: byte] \<noteq> []"
    by (simp_all add: sample_agent_def peerRole_def)
  from agents_meet_through_relay [OF constant_ed_ok ok this, of "''s''" "''provider-host''" "[]" "[]"] show ?thesis by blast
qed

end
