(* ===== verification/Agent_Loop.thy ===== *)
theory Agent_Loop
  imports Agent
begin

text \<open>
  The loops of the tunnel agent (\<open>src/internal/tunnel/agent.go\<close>): a control session from dialling to its
  error, the reconnecting loop of \<open>Run\<close> with its delays, and the retries of \<open>openForward\<close>. What the network
  and the clock do comes as scripts. Times are in nanoseconds.
\<close>

section \<open>A control session\<close>

text \<open>
  What a session meets: whether dialling and the two writes succeed, what the reads give, and the messages
  after the relay's ready, up to a read error. A script that ends leaves the session waiting.
\<close>

record session_script =
  se_dialled :: bool
  se_hello_sent :: bool
  se_challenge :: "line_error + authChallenge"
  se_answer_sent :: bool
  se_ready :: "line_error + controlMessage"
  se_messages :: "(line_error + controlMessage) list"

datatype control_error = DialError | WriteError | SessionError agent_error | NotReady | ReadError line_error

text \<open>\<open>Ended None\<close> is the error value nil.\<close>

datatype session_end = Waiting | Ended "control_error option"

fun message_loop :: "AgentConfig \<Rightarrow> (line_error + controlMessage) list \<Rightarrow> session_end \<times> (string \<times> string \<times> string) list" where
  "message_loop cfg [] = (Waiting, [])"
| "message_loop cfg (Inl e # ms) = (Ended (Some (ReadError e)), [])"
| "message_loop cfg (Inr m # ms) =
     (case message_loop cfg ms of (r, opened) \<Rightarrow> (r, case openTarget cfg m of None \<Rightarrow> opened | Some t \<Rightarrow> t # opened))"

text \<open>\<open>controlSession\<close>: how it ends, and the streams it starts with their local addresses.\<close>

definition controlSession :: "ed25519 \<Rightarrow> AgentConfig \<Rightarrow> session_script \<Rightarrow> session_end \<times> (string \<times> string \<times> string) list" where
  "controlSession ed cfg sc =
     (if \<not> se_dialled sc then (Ended (Some DialError), [])
      else if \<not> se_hello_sent sc then (Ended (Some WriteError), [])
      else
        (case agent_authenticate ed cfg (control_hello cfg) (se_challenge sc) of
           Inl e \<Rightarrow> (Ended (Some (SessionError e)), [])
         | Inr _ \<Rightarrow>
             if \<not> se_answer_sent sc then (Ended (Some WriteError), [])
             else
               (case se_ready sc of
                  Inl _ \<Rightarrow> (Ended (Some NotReady), [])
                | Inr ready \<Rightarrow>
                    if cm_Type ready \<noteq> ''ready'' then (Ended (Some NotReady), [])
                    else message_loop cfg (se_messages sc))))"

section \<open>Running\<close>

text \<open>What the select after a session takes: the context ended, the agent was closed, or the delay passed.\<close>

datatype wake = ContextDone | AgentClosed | DelayPassed

datatype run_end = StillRunning | ContextError | ClosedNil | ListenFailed string

text \<open>The delays that passed, and how the loop ends.\<close>

fun run_loop :: "ed25519 \<Rightarrow> AgentConfig \<Rightarrow> int \<Rightarrow> (session_script \<times> wake) list \<Rightarrow> int list \<times> run_end" where
  "run_loop ed cfg backoff [] = ([], StillRunning)"
| "run_loop ed cfg backoff ((sc, wake) # rest) =
     (case fst (controlSession ed cfg sc) of
        Waiting \<Rightarrow> ([], StillRunning)
      | Ended err \<Rightarrow>
          (case next_backoff backoff (err = None) of
             (delay, backoff') \<Rightarrow>
               (case wake of
                  ContextDone \<Rightarrow> ([], ContextError)
                | AgentClosed \<Rightarrow> ([], ClosedNil)
                | DelayPassed \<Rightarrow> (case run_loop ed cfg backoff' rest of (delays, r) \<Rightarrow> (delay # delays, r)))))"

text \<open>Opening the listeners; on a failure the ones opened before are closed again.\<close>

fun listen_all :: "(string \<Rightarrow> bool) \<Rightarrow> (string \<times> string) list \<Rightarrow> string list \<Rightarrow> string + string list" where
  "listen_all can_listen [] listeners = Inr listeners"
| "listen_all can_listen ((address, target) # rest) listeners =
     (if can_listen address then listen_all can_listen rest (listeners @ [address]) else Inl address)"

text \<open>\<open>Run\<close>: the delays, how it ends, and the listeners that are open then; every return closes them.\<close>

definition agent_Run :: "ed25519 \<Rightarrow> AgentConfig \<Rightarrow> (string \<Rightarrow> bool) \<Rightarrow> (session_script \<times> wake) list \<Rightarrow>
    int list \<times> run_end \<times> string list" where
  "agent_Run ed cfg can_listen sessions =
     (case listen_all can_listen (ag_Forwards cfg) [] of
        Inl address \<Rightarrow> ([], ListenFailed address, [])
      | Inr listeners \<Rightarrow>
          (case run_loop ed cfg 1000000000 sessions of
             (delays, r) \<Rightarrow> (delays, r, if r = StillRunning then listeners else [])))"

section \<open>Forwarding a local connection\<close>

text \<open>
  The retry loop of \<open>openForward\<close>: an attempt takes some time and gives the remote end or an error. A
  failed attempt is repeated after 100 ms, unless the 15 seconds of the context are over by then (or the
  agent is closed: then the script of attempts ends).
\<close>

fun forward_loop :: "int \<Rightarrow> (int \<times> (agent_error + secureConn)) list \<Rightarrow> int list \<times> secureConn option" where
  "forward_loop now [] = ([], None)"
| "forward_loop now ((duration, result) # attempts) =
     (case result of
        Inr remote \<Rightarrow> ([now], Some remote)
      | Inl _ \<Rightarrow>
          if now + duration + 100000000 < 15000000000
          then (case forward_loop (now + duration + 100000000) attempts of (started, r) \<Rightarrow> (now # started, r))
          else ([now], None))"

definition openForward :: "byte list option \<Rightarrow> (string \<Rightarrow> (int \<times> (agent_error + secureConn)) list) \<Rightarrow> int list \<times> secureConn option" where
  "openForward rnd attempts = (case randomID rnd of None \<Rightarrow> ([], None) | Some streamID \<Rightarrow> forward_loop 0 (attempts streamID))"

section \<open>Lemmas\<close>

text \<open>No path through \<open>controlSession\<close> returns nil.\<close>

lemma message_loop_error: "fst (message_loop cfg ms) \<noteq> Ended None"
  by (induction cfg ms rule: message_loop.induct) (auto split: prod.splits)

lemma controlSession_error: "fst (controlSession ed cfg sc) \<noteq> Ended None"
  by (simp add: controlSession_def message_loop_error split: sum.splits)

lemma next_backoff_power:
  "next_backoff (min (2 ^ k) 32 * 1000000000) False = (min (2 ^ k) 32 * 1000000000, min (2 ^ Suc k) 32 * 1000000000)"
proof (cases "k < 5")
  case True
  then have "k \<in> {0, 1, 2, 3, 4}" by auto
  then show ?thesis by (auto simp: next_backoff_def)
next
  case False
  then have "(2 :: int) ^ 5 \<le> 2 ^ k" by (intro power_increasing) simp_all
  then show ?thesis by (simp add: next_backoff_def)
qed

lemma run_loop_delays:
  assumes "\<forall>(sc, wake)\<in>set sessions. fst (controlSession ed cfg sc) \<noteq> Waiting \<and> wake = DelayPassed"
  shows "run_loop ed cfg (min (2 ^ k) 32 * 1000000000) sessions =
    (map (\<lambda>i. min (2 ^ (k + i)) 32 * 1000000000) [0..<length sessions], StillRunning)"
  using assms
proof (induction sessions arbitrary: k)
  case (Cons p sessions)
  obtain sc wake where p: "p = (sc, wake)" by (cases p)
  with Cons.prems obtain err where "fst (controlSession ed cfg sc) = Ended (Some err)" "wake = DelayPassed"
    using controlSession_error [of ed cfg sc] by (cases "fst (controlSession ed cfg sc)") auto
  moreover have step: "map f [0..<Suc n] = f 0 # map (\<lambda>i. f (Suc i)) [0..<n]" for f :: "nat \<Rightarrow> int" and n
    by (simp add: upt_conv_Cons map_Suc_upt [symmetric] del: upt_Suc)
  then have "map (\<lambda>i. min (2 ^ (k + i)) 32 * 1000000000) [0..<length (p # sessions)] =
      (min (2 ^ k) 32 * 1000000000 :: int) # map (\<lambda>i. min (2 ^ (Suc k + i)) 32 * 1000000000) [0..<length sessions]"
    by (simp del: upt_Suc)
  ultimately show ?case using Cons.IH [of "Suc k"] Cons.prems
    by (simp add: p next_backoff_power [unfolded power_Suc] del: upt_Suc)
qed simp

lemma forward_loop_started:
  "0 \<le> now \<Longrightarrow> now < 15000000000 \<Longrightarrow> \<forall>(d, r)\<in>set attempts. 0 \<le> d \<Longrightarrow>
     \<forall>i<length (fst (forward_loop now attempts)). now + 100000000 * int i \<le> fst (forward_loop now attempts) ! i \<and>
       fst (forward_loop now attempts) ! i < 15000000000"
proof (induction now attempts rule: forward_loop.induct)
  case (2 now duration result attempts)
  show ?case
  proof (cases "(\<exists>e. result = Inl e) \<and> now + duration + 100000000 < 15000000000")
    case True
    obtain started r where f: "forward_loop (now + duration + 100000000) attempts = (started, r)" by fastforce
    from True 2 f have IH: "\<forall>i<length started. now + duration + 100000000 + 100000000 * int i \<le> started ! i \<and> started ! i < 15000000000"
      by auto
    have d: "0 \<le> duration" using 2 by simp
    have "now + 100000000 * int i \<le> (now # started) ! i \<and> (now # started) ! i < 15000000000" if "i < Suc (length started)" for i
      using IH d 2 that by (cases i) (auto simp: algebra_simps dest: spec [of _ "i - 1"])
    then show ?thesis using True f by auto
  next
    case False
    with 2 show ?thesis by (auto split: sum.splits)
  qed
qed simp

text \<open>A forwarded connection is attempted at most 150 times, and no attempt starts after 15 seconds.\<close>

lemma openForward_bounded:
  assumes "\<forall>streamID. \<forall>(d, r)\<in>set (attempts streamID). 0 \<le> d"
  shows "length (fst (openForward rnd attempts)) \<le> 150 \<and> (\<forall>t\<in>set (fst (openForward rnd attempts)). t < 15000000000)"
proof (cases "randomID rnd")
  case (Some streamID)
  let ?ts = "fst (forward_loop 0 (attempts streamID))"
  have ts: "\<forall>i<length ?ts. 100000000 * int i \<le> ?ts ! i \<and> ?ts ! i < 15000000000"
    using forward_loop_started [of 0 "attempts streamID"] assms by auto
  have "length ?ts \<le> 150"
  proof (rule ccontr)
    assume "\<not> length ?ts \<le> 150"
    with ts have "100000000 * int 150 \<le> ?ts ! 150 \<and> ?ts ! 150 < 15000000000" by (metis not_le)
    then show False by linarith
  qed
  with ts Some show ?thesis by (auto simp: openForward_def in_set_conv_nth)
qed (simp add: openForward_def)

section \<open>Properties\<close>

text \<open>
  C38. The agent reconnects for ever, and after one, two, four seconds and so on, but never later than after
  32 seconds. The delay depends only on how many sessions there were: because \<open>controlSession\<close> never
  returns nil, a session that worked for days does not bring the delay back to one second.
\<close>

theorem agent_reconnects_with_growing_delay:
  assumes "listen_all can_listen (ag_Forwards cfg) [] = Inr listeners"
    and "\<forall>(sc, wake)\<in>set sessions. fst (controlSession ed cfg sc) \<noteq> Waiting \<and> wake = DelayPassed"
  shows "agent_Run ed cfg can_listen sessions =
    (map (\<lambda>k. min (2 ^ k) 32 * 1000000000) [0..<length sessions], StillRunning, listeners)"
  using assms run_loop_delays [of sessions ed cfg 0] by (simp add: agent_Run_def)

text \<open>A session that was admitted, was told of a stream, and then lost its connection.\<close>

definition good_session :: session_script where
  "good_session = \<lparr>se_dialled = True, se_hello_sent = True, se_challenge = Inr \<lparr>ac_Type = ''auth_challenge'', ac_Nonce = ''n''\<rparr>,
     se_answer_sent = True, se_ready = Inr (control_message ''ready''),
     se_messages = [Inr (control_message ''open''), Inl (LineIO UnexpectedEOF)]\<rparr>"

theorem agent_reconnects_with_growing_delay_witness:
  "agent_Run constant_ed (sample_agent ''provider'') (\<lambda>_. True) (replicate 3 (good_session, DelayPassed)) =
     ([1000000000, 2000000000, 4000000000], StillRunning, [])"
proof -
  have "fst (controlSession constant_ed (sample_agent ''provider'') good_session) \<noteq> Waiting"
    by (simp add: controlSession_def good_session_def agent_authenticate_def control_message_def split: prod.splits)
  then have "\<forall>(sc, wake)\<in>set (replicate 3 (good_session, DelayPassed)).
      fst (controlSession constant_ed (sample_agent ''provider'') sc) \<noteq> Waiting \<and> wake = DelayPassed" by simp
  moreover have "listen_all (\<lambda>_. True) (ag_Forwards (sample_agent ''provider'')) [] = Inr []" by (simp add: sample_agent_def)
  ultimately show ?thesis
    using agent_reconnects_with_growing_delay by (simp add: upt_rec numeral_3_eq_3)
qed

end
