(* ===== verification/Tensorwire.thy ===== *)
theory Tensorwire
  imports Sha256
begin

text \<open>
  Tensor frames (\<open>src/internal/tensorwire/frame.go\<close>): a 40 byte header, the values as big-endian
  float bit patterns, and an HMAC over both. A \<open>float32\<close> is its bit pattern, a \<open>32 word\<close>.
\<close>

section \<open>Data and operations\<close>

record Frame =
  fr_SessionID :: "64 word"
  fr_Sequence :: "64 word"
  fr_Position :: "32 word"
  fr_Values :: "32 word list"

datatype wire_error =
    ShortKey
  | InvalidValueCount
  | UnsupportedFrame
  | InvalidPayloadSize
  | AuthenticationFailed
  | WireIO io_error

definition wire_magic :: "byte list" where
  "wire_magic = string_bytes ''AIPT''"

definition wire_version :: byte where
  "wire_version = 1"

definition headerSize :: nat where
  "headerSize = 40"

definition maxValues :: nat where
  "maxValues = 16777216"

text \<open>The header that \<open>WriteFrame\<close> builds: what it does not set stays zero.\<close>

definition frame_header :: "Frame \<Rightarrow> byte list" where
  "frame_header frame =
     wire_magic @ [wire_version, 1, 0, 0] @ PutUint64 (fr_SessionID frame) @ PutUint64 (fr_Sequence frame) @
     PutUint32 (fr_Position frame) @ PutUint32 (word_of_nat (length (fr_Values frame))) @
     PutUint32 (word_of_nat (length (fr_Values frame) * 4)) @ [0, 0, 0, 0]"

definition frame_payload :: "Frame \<Rightarrow> byte list" where
  "frame_payload frame = concat (map PutUint32 (fr_Values frame))"

definition WriteFrame :: "writer \<Rightarrow> byte list \<Rightarrow> Frame \<Rightarrow> wire_error option \<times> writer" where
  "WriteFrame w key frame =
     (if length key < 32 then (Some ShortKey, w)
      else if fr_Values frame = [] \<or> maxValues < length (fr_Values frame) then (Some InvalidValueCount, w)
      else
        let header = frame_header frame;
            payload = frame_payload frame;
            mac = hmac_sha256 key (header @ payload)
        in (case writeFull w header of
              (Some e, w1) \<Rightarrow> (Some (WireIO e), w1)
            | (None, w1) \<Rightarrow>
                (case writeFull w1 payload of
                   (Some e, w2) \<Rightarrow> (Some (WireIO e), w2)
                 | (None, w2) \<Rightarrow>
                     (case writeFull w2 mac of
                        (Some e, w3) \<Rightarrow> (Some (WireIO e), w3)
                      | (None, w3) \<Rightarrow> (None, w3)))))"

text \<open>\<open>header[a:b]\<close> and the values of a payload.\<close>

definition slice :: "nat \<Rightarrow> nat \<Rightarrow> 'a list \<Rightarrow> 'a list" where
  "slice a b xs = take (b - a) (drop a xs)"

fun float_values :: "byte list \<Rightarrow> 32 word list" where
  "float_values (a # b # c # d # rest) = Uint32 [a, b, c, d] # float_values rest"
| "float_values _ = []"

definition ReadFrame :: "byte list \<Rightarrow> byte list \<Rightarrow> (wire_error + Frame) \<times> byte list" where
  "ReadFrame r key =
     (if length key < 32 then (Inl ShortKey, r)
      else
        (case read_full headerSize r of
           (Inl e, r1) \<Rightarrow> (Inl (WireIO e), r1)
         | (Inr header, r1) \<Rightarrow>
             if slice 0 4 header \<noteq> wire_magic \<or> header ! 4 \<noteq> wire_version \<or> header ! 5 \<noteq> 1
             then (Inl UnsupportedFrame, r1)
             else
               let cnt = Uint32 (slice 28 32 header); sz = Uint32 (slice 32 36 header)
               in if cnt = 0 \<or> word_of_nat maxValues < cnt \<or> sz \<noteq> cnt * 4 then (Inl InvalidPayloadSize, r1)
                  else
                    (case read_full (unat sz) r1 of
                       (Inl e, r2) \<Rightarrow> (Inl (WireIO e), r2)
                     | (Inr payload, r2) \<Rightarrow>
                         (case read_full 32 r2 of
                            (Inl e, r3) \<Rightarrow> (Inl (WireIO e), r3)
                          | (Inr sig, r3) \<Rightarrow>
                              if sig \<noteq> hmac_sha256 key (header @ payload) then (Inl AuthenticationFailed, r3)
                              else (Inr \<lparr>fr_SessionID = Uint64 (slice 8 16 header), fr_Sequence = Uint64 (slice 16 24 header),
                                      fr_Position = Uint32 (slice 24 28 header), fr_Values = float_values payload\<rparr>, r3)))))"

section \<open>Layout of the header\<close>

definition frame_ok :: "Frame \<Rightarrow> bool" where
  "frame_ok frame \<longleftrightarrow> fr_Values frame \<noteq> [] \<and> length (fr_Values frame) \<le> maxValues"

lemma length_frame_header [simp]: "length (frame_header frame) = 40"
  by (simp add: frame_header_def wire_magic_def string_bytes_def)

lemma length_frame_payload [simp]: "length (frame_payload frame) = 4 * length (fr_Values frame)"
proof -
  have "length (concat (map PutUint32 ws)) = 4 * length ws" for ws by (induction ws) auto
  then show ?thesis by (simp add: frame_payload_def)
qed

lemma frame_header_fields:
  "slice 0 4 (frame_header f) = wire_magic" "frame_header f ! 4 = wire_version" "frame_header f ! 5 = 1"
  "slice 8 16 (frame_header f) = PutUint64 (fr_SessionID f)" "slice 16 24 (frame_header f) = PutUint64 (fr_Sequence f)"
  "slice 24 28 (frame_header f) = PutUint32 (fr_Position f)"
  "slice 28 32 (frame_header f) = PutUint32 (word_of_nat (length (fr_Values f)))"
  "slice 32 36 (frame_header f) = PutUint32 (word_of_nat (length (fr_Values f) * 4))"
  by (simp_all add: slice_def frame_header_def wire_magic_def string_bytes_def nth_append)

lemma float_values_payload: "float_values (concat (map PutUint32 ws)) = ws"
proof (induction ws)
  case (Cons w ws)
  have "length (PutUint32 w) = Suc (Suc (Suc (Suc 0)))" by simp
  then obtain a b c d where "PutUint32 w = [a, b, c, d]"
    by (auto simp: length_Suc_conv simp del: PutUint_length)
  with Cons Uint32_Put [of w] show ?case by simp
qed simp

lemma value_count_words:
  assumes "frame_ok f"
  shows "word_of_nat (length (fr_Values f)) \<noteq> (0 :: 32 word)"
    and "\<not> (word_of_nat maxValues :: 32 word) < word_of_nat (length (fr_Values f))"
    and "word_of_nat (length (fr_Values f) * 4) = (word_of_nat (length (fr_Values f)) * 4 :: 32 word)"
    and "unat (word_of_nat (length (fr_Values f) * 4) :: 32 word) = 4 * length (fr_Values f)"
proof -
  let ?n = "length (fr_Values f)"
  from assms have n: "0 < ?n" "?n \<le> 16777216" by (auto simp: frame_ok_def maxValues_def)
  then have u: "unat (word_of_nat ?n :: 32 word) = ?n" "unat (word_of_nat (?n * 4) :: 32 word) = ?n * 4"
    by (simp_all add: unat_of_nat del: of_nat_mult)
  from u(1) n show "word_of_nat ?n \<noteq> (0 :: 32 word)" by (metis neq0_conv unat_0)
  show "\<not> (word_of_nat maxValues :: 32 word) < word_of_nat ?n"
    using n by (simp add: word_less_nat_alt u maxValues_def)
  show "word_of_nat (?n * 4) = (word_of_nat ?n * 4 :: 32 word)" by simp
  show "unat (word_of_nat (?n * 4) :: 32 word) = 4 * ?n" using u by simp
qed

text \<open>The bytes of a frame on the wire, and reading them back.\<close>

definition frame_bytes :: "byte list \<Rightarrow> Frame \<Rightarrow> byte list" where
  "frame_bytes key f = frame_header f @ frame_payload f @ hmac_sha256 key (frame_header f @ frame_payload f)"

lemma ReadFrame_bytes:
  assumes "32 \<le> length key" "frame_ok f"
  shows "ReadFrame (frame_bytes key f @ rest) key = (Inr f, rest)"
proof -
  have "read_full headerSize (frame_bytes key f @ rest) =
      (Inr (frame_header f), frame_payload f @ hmac_sha256 key (frame_header f @ frame_payload f) @ rest)"
    using read_full_exact [of "frame_header f" 40] by (simp add: frame_bytes_def headerSize_def)
  moreover have "read_full (4 * length (fr_Values f)) (frame_payload f @ hmac_sha256 key (frame_header f @ frame_payload f) @ rest) =
      (Inr (frame_payload f), hmac_sha256 key (frame_header f @ frame_payload f) @ rest)"
    by (rule read_full_exact) simp
  moreover have "read_full 32 (hmac_sha256 key (frame_header f @ frame_payload f) @ rest) =
      (Inr (hmac_sha256 key (frame_header f @ frame_payload f)), rest)"
    by (rule read_full_exact) simp
  moreover have "float_values (frame_payload f) = fr_Values f" by (simp add: frame_payload_def float_values_payload)
  ultimately show ?thesis
    using assms(1) value_count_words [OF assms(2)]
    by (simp add: ReadFrame_def frame_header_fields del: of_nat_mult)
qed

lemma WriteFrame_None:
  assumes "WriteFrame w key f = (None, w')"
  shows "accepted w' = accepted w @ frame_bytes key f" "32 \<le> length key" "frame_ok f"
  using assms
  by (auto simp: WriteFrame_def Let_def frame_bytes_def frame_ok_def split: if_splits prod.splits option.splits
      dest!: writeFull_spec)

section \<open>Properties\<close>

definition sample_key :: "byte list" where
  "sample_key = replicate 32 7"

definition sample_frame :: Frame where
  "sample_frame = \<lparr>fr_SessionID = 5, fr_Sequence = 1, fr_Position = 9, fr_Values = [1, 2, 3]\<rparr>"

lemma sample_frame_ok: "frame_ok sample_frame" "32 \<le> length sample_key"
  by (simp_all add: frame_ok_def sample_frame_def maxValues_def sample_key_def)

text \<open>
  C16. Frames survive the wire: whenever \<open>WriteFrame\<close> reports success, however the connection took
  the bytes apart, reading what it added with the same key gives the frame back and stops exactly
  at its end; and on a connection that takes all bytes every frame of 1 to 2^24 values is written.
\<close>

theorem frame_round_trip:
  shows "(WriteFrame w key frame = (None, w') \<longrightarrow>
      (\<exists>sent. accepted w' = accepted w @ sent \<and> ReadFrame (sent @ rest) key = (Inr frame, rest))) \<and>
    (script w = [] \<and> 32 \<le> length key \<and> fr_Values frame \<noteq> [] \<and> length (fr_Values frame) \<le> maxValues \<longrightarrow>
      fst (WriteFrame w key frame) = None)"
proof (intro conjI impI)
  assume "WriteFrame w key frame = (None, w')"
  from WriteFrame_None [OF this] ReadFrame_bytes [of key frame rest]
  show "\<exists>sent. accepted w' = accepted w @ sent \<and> ReadFrame (sent @ rest) key = (Inr frame, rest)" by blast
next
  assume "script w = [] \<and> 32 \<le> length key \<and> fr_Values frame \<noteq> [] \<and> length (fr_Values frame) \<le> maxValues"
  then show "fst (WriteFrame w key frame) = None" by (simp add: WriteFrame_def Let_def writeFull_ready)
qed

theorem frame_round_trip_witness:
  "\<exists>sent. ReadFrame (sent @ [1]) sample_key = (Inr sample_frame, [1])"
proof -
  let ?w = "\<lparr>accepted = [], script = []\<rparr>"
  obtain e w' where w: "WriteFrame ?w sample_key sample_frame = (e, w')" by fastforce
  have "fst (WriteFrame ?w sample_key sample_frame) = None"
    using frame_round_trip [of ?w sample_key sample_frame] sample_frame_ok by (simp add: frame_ok_def)
  with w have "WriteFrame ?w sample_key sample_frame = (None, w')" by simp
  with frame_round_trip [of ?w sample_key sample_frame w' "[1]"] show ?thesis by blast
qed

definition same_but_reserved :: "byte list \<Rightarrow> byte list \<Rightarrow> bool" where
  "same_but_reserved h h' \<longleftrightarrow> length h = 40 \<and> length h' = 40 \<and>
     slice 0 6 h = slice 0 6 h' \<and> slice 8 36 h = slice 8 36 h'"

lemma slice_split: "a \<le> b \<Longrightarrow> b \<le> c \<Longrightarrow> slice a c xs = slice a b xs @ slice b c xs"
proof -
  assume "a \<le> b" "b \<le> c"
  then have "c - a = (b - a) + (c - b)" "drop (b - a) (drop a xs) = drop b xs" by simp_all
  then show ?thesis unfolding slice_def by (metis take_add)
qed

lemma slice_length [simp]: "b \<le> length xs \<Longrightarrow> length (slice a b xs) = b - a"
  by (simp add: slice_def)

lemma slice_single: "Suc a \<le> length xs \<Longrightarrow> slice a (Suc a) xs = [xs ! a]"
  by (simp add: slice_def Cons_nth_drop_Suc [symmetric])

lemma float_payload: "length bs = 4 * n \<Longrightarrow> concat (map PutUint32 (float_values bs)) = bs \<and> length (float_values bs) = n"
proof (induction n arbitrary: bs)
  case (Suc n)
  then have "length bs = Suc (Suc (Suc (Suc (4 * n))))" by simp
  then obtain a b c d rest where bs: "bs = a # b # c # d # rest" "length rest = 4 * n"
    by (auto simp: length_Suc_conv)
  with Suc.IH [of rest] Put_Uint32 [of "[a, b, c, d]"] show ?case by simp
qed simp

lemma header_of_fields:
  assumes len: "length h = 40" and fixed: "slice 0 4 h = wire_magic" "h ! 4 = wire_version" "h ! 5 = 1"
    and f: "fr_SessionID f = Uint64 (slice 8 16 h)" "fr_Sequence f = Uint64 (slice 16 24 h)"
      "fr_Position f = Uint32 (slice 24 28 h)"
      "word_of_nat (length (fr_Values f)) = Uint32 (slice 28 32 h)"
      "word_of_nat (length (fr_Values f) * 4) = Uint32 (slice 32 36 h)"
  shows "same_but_reserved h (frame_header f)"
proof -
  let ?g = "frame_header f"
  have parts: "slice 0 6 xs = slice 0 4 xs @ [xs ! 4, xs ! 5]"
    "slice 8 36 xs = slice 8 16 xs @ slice 16 24 xs @ slice 24 28 xs @ slice 28 32 xs @ slice 32 36 xs"
    if "length xs = 40" for xs :: "byte list"
    using that slice_split [of 0 4 6 xs] slice_split [of 4 5 6 xs] slice_single [of 4 xs] slice_single [of 5 xs]
      slice_split [of 8 16 36 xs] slice_split [of 16 24 36 xs] slice_split [of 24 28 36 xs] slice_split [of 28 32 36 xs]
    by simp_all
  have "PutUint64 (Uint64 (slice 8 16 h)) = slice 8 16 h" "PutUint64 (Uint64 (slice 16 24 h)) = slice 16 24 h"
    "PutUint32 (Uint32 (slice 24 28 h)) = slice 24 28 h" "PutUint32 (Uint32 (slice 28 32 h)) = slice 28 32 h"
    "PutUint32 (Uint32 (slice 32 36 h)) = slice 32 36 h"
    using len by (simp_all add: Put_Uint32 Put_Uint64)
  with parts(1) [OF len] parts(2) [OF len] parts(1) [of ?g] parts(2) [of ?g] len fixed show ?thesis
    by (simp add: same_but_reserved_def frame_header_fields f del: of_nat_mult)
qed

text \<open>
  C17. Only authenticated, well-formed frames are accepted: what \<open>ReadFrame\<close> accepts starts with 40
  header bytes and the values, followed by the HMAC of exactly these bytes under the key; the frame
  has between 1 and 2^24 values; and the bytes are those \<open>WriteFrame\<close> sends for this frame, but for
  the six reserved header bytes.
\<close>

theorem accepted_frame_authentic:
  assumes "ReadFrame r key = (Inr frame, rest)"
  shows "\<exists>header. r = header @ frame_payload frame @ hmac_sha256 key (header @ frame_payload frame) @ rest \<and>
    same_but_reserved header (frame_header frame) \<and> 32 \<le> length key \<and>
    1 \<le> length (fr_Values frame) \<and> length (fr_Values frame) \<le> maxValues"
proof -
  from assms obtain h r1 p r2 where key: "32 \<le> length key" and
    h: "read_full headerSize r = (Inr h, r1)" "slice 0 4 h = wire_magic" "h ! 4 = wire_version" "h ! 5 = 1" and
    c: "Uint32 (slice 28 32 h) \<noteq> 0" "\<not> word_of_nat maxValues < Uint32 (slice 28 32 h)"
      "Uint32 (slice 32 36 h) = Uint32 (slice 28 32 h) * 4" and
    p: "read_full (unat (Uint32 (slice 32 36 h))) r1 = (Inr p, r2)" and
    s: "read_full 32 r2 = (Inr (hmac_sha256 key (h @ p)), rest)" and
    f: "frame = \<lparr>fr_SessionID = Uint64 (slice 8 16 h), fr_Sequence = Uint64 (slice 16 24 h),
       fr_Position = Uint32 (slice 24 28 h), fr_Values = float_values p\<rparr>"
    by (auto simp: ReadFrame_def Let_def split: if_splits prod.splits sum.splits)
  let ?c = "Uint32 (slice 28 32 h)"
  have bound: "unat ?c \<le> 16777216" using c(2) by (simp add: word_less_nat_alt maxValues_def)
  have sz: "unat (Uint32 (slice 32 36 h)) = 4 * unat ?c" unfolding c(3) using bound by (simp add: unat_word_ariths)
  from h(1) p s have r: "r = h @ p @ hmac_sha256 key (h @ p) @ rest" "length h = 40" "length p = 4 * unat ?c"
    unfolding sz by (auto simp: read_full_Inr headerSize_def)
  note fp = float_payload [OF r(3)]
  then have pay: "frame_payload frame = p" "length (fr_Values frame) = unat ?c"
    by (simp_all add: frame_payload_def f)
  have "same_but_reserved h (frame_header frame)"
    by (rule header_of_fields [OF r(2) h(2-4)]) (use fp in \<open>simp_all add: f c(3)\<close>)
  moreover have "1 \<le> unat ?c" using c(1) by (simp add: unat_gt_0 Suc_le_eq)
  ultimately show ?thesis
    using r key bound pay by (intro exI [of _ h]) (simp add: maxValues_def)
qed

theorem accepted_frame_authentic_witness:
  "ReadFrame (frame_bytes sample_key sample_frame) sample_key = (Inr sample_frame, []) \<and>
   (\<exists>header. same_but_reserved header (frame_header sample_frame))"
proof -
  have run: "ReadFrame (frame_bytes sample_key sample_frame) sample_key = (Inr sample_frame, [])"
    using ReadFrame_bytes [OF sample_frame_ok(2,1), of "[]"] by simp
  from accepted_frame_authentic [OF this] run show ?thesis by blast
qed

end
