(* ===== verification/Stage.thy ===== *)
theory Stage
  imports Tensorwire Prelude
begin

text \<open>
  Pipeline stages (\<open>src/internal/stage/runtime.go\<close>, \<open>client.go\<close>, \<open>server.go\<close>) and the session that
  drives them (\<open>src/internal/distributed/session.go\<close>). The \<open>Backend\<close> interface is a function of the
  layer range, the position and the values; \<open>None\<close> is an error. \<open>float32\<close> values are bit patterns; the
  float operations of the deterministic backend, which the hardware does, are a record \<open>float_ops\<close>,
  applied as the expression is written, without fusing.
\<close>

section \<open>Runtime\<close>

type_synonym activation = "32 word list"

type_synonym backend = "int \<Rightarrow> int \<Rightarrow> 32 word \<Rightarrow> activation \<Rightarrow> activation option"

record Runtime =
  sr_LayerStart :: int
  sr_LayerEnd :: int
  sr_HiddenSize :: int
  sr_Backend :: backend
  sr_sequence :: "(64 word, 64 word) gomap"

datatype stage_error =
    WidthMismatch int int
  | OutOfOrder "64 word"
  | BackendFailed
  | RuntimeRequired
  | MismatchedFrame
  | DialFailed
  | StageWire wire_error

definition NewRuntime :: "int \<Rightarrow> int \<Rightarrow> int \<Rightarrow> backend option \<Rightarrow> Runtime option" where
  "NewRuntime layerStart layerEnd hiddenSize backend =
     (case backend of
        None \<Rightarrow> None
      | Some b \<Rightarrow>
          if layerStart < 0 \<or> layerEnd \<le> layerStart \<or> hiddenSize \<le> 0 then None
          else Some \<lparr>sr_LayerStart = layerStart, sr_LayerEnd = layerEnd, sr_HiddenSize = hiddenSize,
                     sr_Backend = b, sr_sequence = []\<rparr>)"

text \<open>\<open>r.sequence[id]\<close>: zero for a session that is not in the map.\<close>

definition expected_sequence :: "Runtime \<Rightarrow> 64 word \<Rightarrow> 64 word" where
  "expected_sequence r sid = (case map_of (sr_sequence r) sid of None \<Rightarrow> 0 | Some n \<Rightarrow> n)"

definition Process :: "Runtime \<Rightarrow> Frame \<Rightarrow> (stage_error + Frame) \<times> Runtime" where
  "Process r frame =
     (if int (length (fr_Values frame)) \<noteq> sr_HiddenSize r
      then (Inl (WidthMismatch (int (length (fr_Values frame))) (sr_HiddenSize r)), r)
      else
        let expected = expected_sequence r (fr_SessionID frame)
        in if fr_Sequence frame \<noteq> expected then (Inl (OutOfOrder expected), r)
           else (case sr_Backend r (sr_LayerStart r) (sr_LayerEnd r) (fr_Position frame) (fr_Values frame) of
                   None \<Rightarrow> (Inl BackendFailed, r)
                 | Some values \<Rightarrow>
                     (Inr (frame\<lparr>fr_Values := values\<rparr>),
                      r\<lparr>sr_sequence := AList.update (fr_SessionID frame) (expected + 1) (sr_sequence r)\<rparr>)))"

definition LocalClient_Process :: "Runtime option \<Rightarrow> Frame \<Rightarrow> (stage_error + Frame) \<times> Runtime option" where
  "LocalClient_Process c frame =
     (case c of
        None \<Rightarrow> (Inl RuntimeRequired, None)
      | Some r \<Rightarrow> (case Process r frame of (res, r') \<Rightarrow> (res, Some r')))"

section \<open>The deterministic backend\<close>

record float_ops =
  f_mul :: "32 word \<Rightarrow> 32 word \<Rightarrow> 32 word"
  f_add :: "32 word \<Rightarrow> 32 word \<Rightarrow> 32 word"
  f_int :: "int \<Rightarrow> 32 word"
  f_const :: "rat \<Rightarrow> 32 word"

definition layer_bias :: "float_ops \<Rightarrow> int \<Rightarrow> 32 word \<Rightarrow> 32 word" where
  "layer_bias fl layer position =
     f_add fl (f_mul fl (f_int fl (layer + 1)) (f_const fl (1 / 1000)))
       (f_mul fl (f_int fl (uint position)) (f_const fl (1 / 100000)))"

definition apply_layer :: "float_ops \<Rightarrow> 32 word \<Rightarrow> int \<Rightarrow> activation \<Rightarrow> activation" where
  "apply_layer fl position layer values =
     map (\<lambda>(i, v). f_add fl (f_add fl (f_mul fl v (f_const fl (10001 / 10000))) (layer_bias fl layer position))
            (f_mul fl (f_int fl (int i)) (f_const fl (1 / 1000000)))) (enumerate 0 values)"

definition DeterministicBackend :: "float_ops \<Rightarrow> backend" where
  "DeterministicBackend fl start end' position values =
     Some (foldl (\<lambda>vs layer. apply_layer fl position layer vs) values [start..end' - 1])"

section \<open>The stage server\<close>

lemma read_full_shorter: "read_full n s = (Inr a, s') \<Longrightarrow> length s' + n = length s"
  by (auto simp: read_full_Inr)

lemma ReadFrame_shorter: "ReadFrame r key = (Inr frame, rest) \<Longrightarrow> length rest < length r"
  by (auto simp: ReadFrame_def Let_def headerSize_def split: if_splits prod.splits sum.splits
      dest!: read_full_shorter)

text \<open>
  The loop of \<open>handle\<close> over what the connection delivers before it ends or fails; \<open>w\<close> is the
  connection's writing side. The deadline that \<open>handle\<close> sets for the whole connection, five minutes
  after it is accepted, makes reads and writes fail from then on: \<open>conn\<close> ends there, and \<open>w\<close> fails.
\<close>

function handle :: "byte list \<Rightarrow> Runtime \<Rightarrow> byte list \<Rightarrow> writer \<Rightarrow> Runtime \<times> writer" where
  "handle key r conn w =
     (case ReadFrame conn key of
        (Inl _, _) \<Rightarrow> (r, w)
      | (Inr frame, rest) \<Rightarrow>
          (case Process r frame of
             (Inl _, r') \<Rightarrow> (r', w)
           | (Inr output, r') \<Rightarrow>
               (case WriteFrame w key output of
                  (Some _, w') \<Rightarrow> (r', w')
                | (None, w') \<Rightarrow> handle key r' rest w')))"
  by pat_completeness auto
termination
  by (relation "measure (\<lambda>(key, r, conn, w). length conn)") (auto dest: ReadFrame_shorter [OF sym])

declare handle.simps [simp del]

section \<open>The TCP client\<close>

text \<open>
  A connection: its writing side, what the peer has sent by the time it has got the bytes written so
  far, and how many of these have been read.
\<close>

record connection =
  cn_out :: writer
  cn_peer :: "byte list \<Rightarrow> byte list"
  cn_read :: nat

record TCPClient =
  tc_Key :: "byte list"
  tc_conn :: "connection option"

definition TCPClient_Process :: "connection option \<Rightarrow> TCPClient \<Rightarrow> Frame \<Rightarrow> (stage_error + Frame) \<times> TCPClient" where
  "TCPClient_Process dial c frame =
     (case (case tc_conn c of None \<Rightarrow> dial | Some conn \<Rightarrow> Some conn) of
        None \<Rightarrow> (Inl DialFailed, c)
      | Some conn \<Rightarrow>
          (case WriteFrame (cn_out conn) (tc_Key c) frame of
             (Some e, w) \<Rightarrow> (Inl (StageWire e), c\<lparr>tc_conn := None\<rparr>)
           | (None, w) \<Rightarrow>
               let input = drop (cn_read conn) (cn_peer conn (accepted w))
               in (case ReadFrame input (tc_Key c) of
                     (Inl e, _) \<Rightarrow> (Inl (StageWire e), c\<lparr>tc_conn := None\<rparr>)
                   | (Inr output, rest) \<Rightarrow>
                       if fr_SessionID output \<noteq> fr_SessionID frame \<or> fr_Sequence output \<noteq> fr_Sequence frame \<or>
                          fr_Position output \<noteq> fr_Position frame
                       then (Inl MismatchedFrame, c\<lparr>tc_conn := None\<rparr>)
                       else (Inr output, c\<lparr>tc_conn := Some (conn\<lparr>cn_out := w,
                               cn_read := cn_read conn + (length input - length rest)\<rparr>)\<rparr>))))"

text \<open>\<open>Close\<close>: the next call of \<open>Process\<close> dials again.\<close>

definition TCPClient_Close :: "TCPClient \<Rightarrow> TCPClient" where
  "TCPClient_Close c = c\<lparr>tc_conn := None\<rparr>"

section \<open>Sessions\<close>

text \<open>The two implementations of the \<open>Client\<close> interface; \<open>TCP\<close> comes with what its next dial gives.\<close>

datatype Client = Local "Runtime option" | TCP "connection option" TCPClient

fun client_process :: "Client \<Rightarrow> Frame \<Rightarrow> (stage_error + Frame) \<times> Client" where
  "client_process (Local r) frame = (case LocalClient_Process r frame of (res, r') \<Rightarrow> (res, Local r'))"
| "client_process (TCP dial c) frame = (case TCPClient_Process dial c frame of (res, c') \<Rightarrow> (res, TCP dial c'))"

record Session =
  ss_ID :: "64 word"
  ss_Stages :: "Client option list"
  ss_next :: "64 word"

datatype session_error =
    BadSession
  | StageUnavailable nat
  | StageFailed nat stage_error

text \<open>The loop over the stages: the last frame or the error, and the stages afterwards.\<close>

fun run_stages :: "nat \<Rightarrow> Client option list \<Rightarrow> Frame \<Rightarrow> (session_error + Frame) \<times> Client option list" where
  "run_stages index [] frame = (Inr frame, [])"
| "run_stages index (None # cs) frame = (Inl (StageUnavailable index), None # cs)"
| "run_stages index (Some c # cs) frame =
     (case client_process c frame of
        (Inl e, c') \<Rightarrow> (Inl (StageFailed index e), Some c' # cs)
      | (Inr output, c') \<Rightarrow>
          (case run_stages (Suc index) cs output of (res, cs') \<Rightarrow> (res, Some c' # cs')))"

definition Run :: "Session \<Rightarrow> 32 word \<Rightarrow> activation \<Rightarrow> (session_error + activation) \<times> Session" where
  "Run s position activation =
     (if ss_ID s = 0 \<or> length (ss_Stages s) < 2 \<or> activation = [] then (Inl BadSession, s)
      else
        let frame = \<lparr>fr_SessionID = ss_ID s, fr_Sequence = ss_next s, fr_Position = position, fr_Values = activation\<rparr>
        in (case run_stages 0 (ss_Stages s) frame of
              (Inl e, cs) \<Rightarrow> (Inl e, s\<lparr>ss_Stages := cs\<rparr>)
            | (Inr out, cs) \<Rightarrow> (Inr (fr_Values out), s\<lparr>ss_Stages := cs, ss_next := ss_next s + 1\<rparr>)))"

end
