(* ===== verification/Stage_Correct.thy ===== *)
theory Stage_Correct
  imports Stage
begin

text \<open>
  Correctness of the pipeline: every stage takes the frames of a session in order and each once, a
  session over stages that split the layers computes what one stage over all layers computes, the
  TCP client with the stage server behaves like the local runtime, and a failure in the middle of
  the pipeline is permanent.
\<close>

section \<open>The client interface\<close>

text \<open>
  What a session relies on: a stage that succeeds answers with the frame it was sent, but for the
  values. Both clients, and the dispatch between them, promise it.
\<close>

definition same_frame :: "Frame \<Rightarrow> Frame \<Rightarrow> bool" where
  "same_frame f g \<longleftrightarrow> fr_SessionID g = fr_SessionID f \<and> fr_Sequence g = fr_Sequence f \<and> fr_Position g = fr_Position f"

text \<open>Frame after frame until the first error: the outputs.\<close>

fun outputs :: "('c \<Rightarrow> Frame \<Rightarrow> (stage_error + Frame) \<times> 'c) \<Rightarrow> 'c \<Rightarrow> Frame list \<Rightarrow> Frame list" where
  "outputs proc c [] = []"
| "outputs proc c (f # fs) = (case proc c f of (Inl _, _) \<Rightarrow> [] | (Inr g, c') \<Rightarrow> g # outputs proc c' fs)"

locale stage_client =
  fixes proc :: "'c \<Rightarrow> Frame \<Rightarrow> (stage_error + Frame) \<times> 'c"
  assumes answers_frame: "proc c f = (Inr g, c') \<Longrightarrow> same_frame f g"
begin

lemma outputs_answer: "i < length (outputs proc c fs) \<Longrightarrow> i < length fs \<and> same_frame (fs ! i) (outputs proc c fs ! i)"
proof (induction fs arbitrary: c i)
  case (Cons f fs)
  then show ?case
    by (cases i) (auto split: prod.splits sum.splits dest: answers_frame)
qed simp

end

lemma Process_Inr:
  "Process r f = (Inr g, r') \<longleftrightarrow> int (length (fr_Values f)) = sr_HiddenSize r \<and>
     fr_Sequence f = expected_sequence r (fr_SessionID f) \<and>
     (\<exists>vs. sr_Backend r (sr_LayerStart r) (sr_LayerEnd r) (fr_Position f) (fr_Values f) = Some vs \<and> g = f\<lparr>fr_Values := vs\<rparr>) \<and>
     r' = r\<lparr>sr_sequence := AList.update (fr_SessionID f) (fr_Sequence f + 1) (sr_sequence r)\<rparr>"
  by (auto simp: Process_def Let_def split: option.splits)

lemma Process_Inl: "Process r f = (Inl e, r') \<Longrightarrow> r' = r"
  by (auto simp: Process_def Let_def split: option.splits if_splits)

interpretation runtime_client: stage_client Process
  by unfold_locales (auto simp: Process_Inr same_frame_def)

interpretation local_client: stage_client LocalClient_Process
  by unfold_locales (auto simp: LocalClient_Process_def Process_Inr same_frame_def split: option.splits prod.splits)

interpretation tcp_client: stage_client "TCPClient_Process dial" for dial
  by unfold_locales (auto simp: TCPClient_Process_def same_frame_def Let_def split: option.splits prod.splits sum.splits if_splits)

interpretation any_client: stage_client client_process
proof unfold_locales
  fix c f g c' assume "client_process c f = (Inr g, c')"
  then show "same_frame f g"
    by (cases c) (auto split: prod.splits dest: local_client.answers_frame tcp_client.answers_frame)
qed

lemma run_stages_same: "run_stages i cs f = (Inr g, cs') \<Longrightarrow> same_frame f g"
proof (induction i cs f arbitrary: g cs' rule: run_stages.induct)
  case (3 i c cs f)
  then obtain h c1 where h: "client_process c f = (Inr h, c1)" by (auto split: prod.splits sum.splits)
  with "3.prems" obtain cs1 where "run_stages (Suc i) cs h = (Inr g, cs1)" by (auto split: prod.splits)
  with "3.IH" [OF h [symmetric] refl] any_client.answers_frame [OF h] show ?case by (auto simp: same_frame_def)
qed (auto simp: same_frame_def)

section \<open>In order, each once\<close>

lemma expected_update:
  "expected_sequence (r\<lparr>sr_sequence := AList.update sid n (sr_sequence r)\<rparr>) t = (if t = sid then n else expected_sequence r t)"
  by (simp add: expected_sequence_def update_conv')

text \<open>All results of a sequence of calls, from whatever sessions, in their order.\<close>

fun process_each :: "Runtime \<Rightarrow> Frame list \<Rightarrow> (stage_error + Frame) list \<times> Runtime" where
  "process_each r [] = ([], r)"
| "process_each r (f # fs) =
     (case Process r f of (res, r1) \<Rightarrow> (case process_each r1 fs of (rs, r2) \<Rightarrow> (res # rs, r2)))"

definition session_outputs :: "64 word \<Rightarrow> (stage_error + Frame) list \<Rightarrow> Frame list" where
  "session_outputs sid rs = filter (\<lambda>g. fr_SessionID g = sid) (concat (map (case_sum (\<lambda>_. []) (\<lambda>g. [g])) rs))"

lemma session_outputs_simps [simp]:
  "session_outputs sid [] = []"
  "session_outputs sid (Inl e # rs) = session_outputs sid rs"
  "session_outputs sid (Inr g # rs) = (if fr_SessionID g = sid then g # session_outputs sid rs else session_outputs sid rs)"
  by (simp_all add: session_outputs_def)

text \<open>
  A stage takes the frames of a session in order and each exactly once: whatever frames of
  whatever sessions arrive, repeated, skipped or failing ones included, the frames of a session that
  it answers carry consecutive sequence numbers from the one it expects, and it expects the next one
  afterwards.
\<close>

theorem stage_in_order_once:
  "process_each r frames = (results, r') \<Longrightarrow>
     map fr_Sequence (session_outputs sid results) =
       map (\<lambda>k. expected_sequence r sid + of_nat k) [0..<length (session_outputs sid results)] \<and>
     expected_sequence r' sid = expected_sequence r sid + of_nat (length (session_outputs sid results))"
proof (induction frames arbitrary: r results)
  case (Cons f fs)
  obtain res r1 where p: "Process r f = (res, r1)" by fastforce
  obtain rs where rest: "process_each r1 fs = (rs, r')" and results: "results = res # rs"
    using Cons.prems p by (auto split: prod.splits)
  note IH = Cons.IH [OF rest]
  show ?case
  proof (cases res)
    case (Inl e)
    with Process_Inl p IH results show ?thesis by auto
  next
    case (Inr g)
    with p have g: "fr_Sequence f = expected_sequence r (fr_SessionID f)" "fr_SessionID g = fr_SessionID f"
      "fr_Sequence g = fr_Sequence f"
      "expected_sequence r1 t = (if t = fr_SessionID f then fr_Sequence f + 1 else expected_sequence r t)" for t
      by (auto simp: Process_Inr expected_update)
    show ?thesis
    proof (cases "fr_SessionID f = sid")
      case True
      let ?n = "length (session_outputs sid rs)"
      have "map (\<lambda>k. expected_sequence r sid + of_nat k) [0..<Suc ?n] =
          expected_sequence r sid # map (\<lambda>k. expected_sequence r sid + 1 + of_nat k) [0..<?n]"
        by (simp add: upt_conv_Cons map_Suc_upt [symmetric] comp_def ac_simps del: upt_Suc)
      with True IH results Inr g show ?thesis by (simp del: upt_Suc add: ac_simps)
    next
      case False
      with IH results Inr g show ?thesis by simp
    qed
  qed
qed simp

definition echo_runtime :: Runtime where
  "echo_runtime = \<lparr>sr_LayerStart = 0, sr_LayerEnd = 2, sr_HiddenSize = 3,
     sr_Backend = (\<lambda>_ _ _ vs. Some (rev vs)), sr_sequence = [(5, 1)]\<rparr>"

theorem stage_in_order_once_witness:
  "fst (process_each echo_runtime [sample_frame, sample_frame, sample_frame\<lparr>fr_Sequence := 2\<rparr>]) =
     [Inr (sample_frame\<lparr>fr_Values := [3, 2, 1]\<rparr>), Inl (OutOfOrder 2),
      Inr (sample_frame\<lparr>fr_Sequence := 2, fr_Values := [3, 2, 1]\<rparr>)] \<and>
   expected_sequence (snd (process_each echo_runtime [sample_frame, sample_frame, sample_frame\<lparr>fr_Sequence := 2\<rparr>])) 5 = 3"
proof -
  let ?fs = "[sample_frame, sample_frame, sample_frame\<lparr>fr_Sequence := 2\<rparr>]"
  let ?out = "[Inr (sample_frame\<lparr>fr_Values := [3, 2, 1]\<rparr>), Inl (OutOfOrder 2),
      Inr (sample_frame\<lparr>fr_Sequence := 2, fr_Values := [3, 2, 1]\<rparr>)]"
  have out: "fst (process_each echo_runtime ?fs) = ?out"
    by (simp add: Process_def echo_runtime_def sample_frame_def expected_sequence_def)
  then have "process_each echo_runtime ?fs = (?out, snd (process_each echo_runtime ?fs))"
    by (metis prod.collapse)
  from stage_in_order_once [OF this, of 5] out show ?thesis
    by (simp add: sample_frame_def expected_sequence_def echo_runtime_def)
qed

section \<open>Splitting the layers over stages\<close>

definition det_stage :: "float_ops \<Rightarrow> int \<Rightarrow> 64 word \<Rightarrow> 64 word \<Rightarrow> Runtime \<Rightarrow> bool" where
  "det_stage fl h sid n r \<longleftrightarrow> sr_HiddenSize r = h \<and> sr_Backend r = DeterministicBackend fl \<and> expected_sequence r sid = n"

definition layers_of :: "Runtime \<Rightarrow> int list" where
  "layers_of r = [sr_LayerStart r..sr_LayerEnd r - 1]"

definition apply_layers :: "float_ops \<Rightarrow> 32 word \<Rightarrow> int list \<Rightarrow> activation \<Rightarrow> activation" where
  "apply_layers fl position layers values = foldl (\<lambda>vs layer. apply_layer fl position layer vs) values layers"

lemma length_apply_layers [simp]: "length (apply_layers fl p ls vs) = length vs"
  unfolding apply_layers_def by (induction ls arbitrary: vs) (auto simp: apply_layer_def)

lemma apply_layers_append: "apply_layers fl p (ls @ ms) vs = apply_layers fl p ms (apply_layers fl p ls vs)"
  by (simp add: apply_layers_def)

definition advance :: "64 word \<Rightarrow> 64 word \<Rightarrow> Runtime \<Rightarrow> Runtime" where
  "advance sid n r = r\<lparr>sr_sequence := AList.update sid (n + 1) (sr_sequence r)\<rparr>"

lemma Process_det:
  assumes "det_stage fl h (fr_SessionID f) (fr_Sequence f) r" "int (length (fr_Values f)) = h"
  shows "Process r f = (Inr (f\<lparr>fr_Values := apply_layers fl (fr_Position f) (layers_of r) (fr_Values f)\<rparr>),
     advance (fr_SessionID f) (fr_Sequence f) r)"
  using assms by (simp add: Process_def det_stage_def DeterministicBackend_def apply_layers_def layers_of_def advance_def)

lemma det_stage_advance: "det_stage fl h sid n r \<Longrightarrow> det_stage fl h sid (n + 1) (advance sid n r)"
  by (simp add: det_stage_def advance_def expected_update)

lemma layers_of_advance [simp]: "layers_of (advance sid n r) = layers_of r"
  by (simp add: layers_of_def advance_def)

abbreviation local_stage :: "Runtime \<Rightarrow> Client option" where
  "local_stage r \<equiv> Some (Local (Some r))"

lemma run_stages_det:
  assumes "\<forall>r\<in>set rs. det_stage fl h (fr_SessionID f) (fr_Sequence f) r" "int (length (fr_Values f)) = h"
  shows "run_stages i (map local_stage rs) f =
    (Inr (f\<lparr>fr_Values := apply_layers fl (fr_Position f) (concat (map layers_of rs)) (fr_Values f)\<rparr>),
     map (\<lambda>r. local_stage (advance (fr_SessionID f) (fr_Sequence f) r)) rs)"
  using assms
proof (induction rs arbitrary: i f)
  case Nil
  then show ?case by (simp add: apply_layers_def)
next
  case (Cons r rs)
  let ?g = "f\<lparr>fr_Values := apply_layers fl (fr_Position f) (layers_of r) (fr_Values f)\<rparr>"
  from Cons.prems Process_det [of fl h f r]
  have "client_process (Local (Some r)) f = (Inr ?g, Local (Some (advance (fr_SessionID f) (fr_Sequence f) r)))"
    by (simp add: LocalClient_Process_def)
  with Cons.IH [of ?g "Suc i"] Cons.prems show ?case by (simp add: apply_layers_append)
qed

text \<open>A session fed with inputs one after the other, and a single runtime fed with the same.\<close>

fun run_inputs :: "Session \<Rightarrow> (32 word \<times> activation) list \<Rightarrow> (session_error + activation) list" where
  "run_inputs s [] = []"
| "run_inputs s ((p, vs) # ins) = (case Run s p vs of (res, s') \<Rightarrow> res # run_inputs s' ins)"

fun single_inputs :: "64 word \<Rightarrow> 64 word \<Rightarrow> Runtime \<Rightarrow> (32 word \<times> activation) list \<Rightarrow> (session_error + activation) list" where
  "single_inputs sid n r [] = []"
| "single_inputs sid n r ((p, vs) # ins) =
     (case Process r \<lparr>fr_SessionID = sid, fr_Sequence = n, fr_Position = p, fr_Values = vs\<rparr> of
        (Inl e, r') \<Rightarrow> [Inl (StageFailed 0 e)]
      | (Inr g, r') \<Rightarrow> Inr (fr_Values g) # single_inputs sid (n + 1) r' ins)"

lemma session_inputs:
  assumes "ss_Stages s = map local_stage rs" "ss_ID s \<noteq> 0" "2 \<le> length rs" "0 < h"
    "\<forall>r\<in>set rs. det_stage fl h (ss_ID s) (ss_next s) r" "\<forall>(p, vs)\<in>set ins. int (length vs) = h"
  shows "run_inputs s ins = map (\<lambda>(p, vs). Inr (apply_layers fl p (concat (map layers_of rs)) vs)) ins"
  using assms
proof (induction ins arbitrary: s rs)
  case (Cons i ins)
  obtain p vs where i: "i = (p, vs)" by fastforce
  let ?f = "\<lparr>fr_SessionID = ss_ID s, fr_Sequence = ss_next s, fr_Position = p, fr_Values = vs\<rparr>"
  let ?adv = "map (advance (ss_ID s) (ss_next s)) rs"
  let ?s = "s\<lparr>ss_Stages := map local_stage ?adv, ss_next := ss_next s + 1\<rparr>"
  have "vs \<noteq> []" using Cons.prems i by auto
  with run_stages_det [of rs fl h ?f 0] Cons.prems i
  have "Run s p vs = (Inr (apply_layers fl p (concat (map layers_of rs)) vs), ?s)"
    by (simp add: Run_def comp_def)
  moreover have "run_inputs ?s ins = map (\<lambda>(p, vs). Inr (apply_layers fl p (concat (map layers_of ?adv)) vs)) ins"
    by (rule Cons.IH) (use Cons.prems in \<open>auto simp: det_stage_advance\<close>)
  moreover have "layers_of \<circ> advance (ss_ID s) (ss_next s) = layers_of" by (simp add: fun_eq_iff)
  ultimately show ?case by (simp add: i)
qed simp

lemma single_inputs_det:
  "det_stage fl h sid n r \<Longrightarrow> \<forall>(p, vs)\<in>set ins. int (length vs) = h \<Longrightarrow>
     single_inputs sid n r ins = map (\<lambda>(p, vs). Inr (apply_layers fl p (layers_of r) vs)) ins"
proof (induction ins arbitrary: n r)
  case (Cons i ins)
  obtain p vs where i: "i = (p, vs)" by fastforce
  let ?f = "\<lparr>fr_SessionID = sid, fr_Sequence = n, fr_Position = p, fr_Values = vs\<rparr>"
  from Cons.prems i Process_det [of fl h ?f r] Cons.IH [OF det_stage_advance [OF Cons.prems(1)]]
  show ?case by simp
qed simp

text \<open>
  C18. Distributed equals local, bit for bit: a session over local stages with the deterministic
  backend whose layer ranges, one after another, are the layers of a single runtime gives for every
  sequence of inputs of the right width exactly the outputs of that runtime, whatever the float
  operations are; none of them fails.
\<close>

theorem distributed_equals_single:
  assumes stages: "ss_Stages s = map local_stage rs" "ss_ID s \<noteq> 0" "2 \<le> length rs" "0 < h"
    and rs: "\<forall>r\<in>set rs. det_stage fl h (ss_ID s) (ss_next s) r" and one: "det_stage fl h (ss_ID s) (ss_next s) single"
    and split: "concat (map layers_of rs) = layers_of single"
    and inputs: "\<forall>(position, activation)\<in>set ins. int (length activation) = h"
  shows "run_inputs s ins = single_inputs (ss_ID s) (ss_next s) single ins \<and> (\<forall>res\<in>set (run_inputs s ins). \<exists>out. res = Inr out)"
  using session_inputs [OF stages rs inputs] single_inputs_det [OF one inputs] split by auto

definition det_runtime :: "float_ops \<Rightarrow> int \<Rightarrow> int \<Rightarrow> Runtime" where
  "det_runtime fl a b = \<lparr>sr_LayerStart = a, sr_LayerEnd = b, sr_HiddenSize = 2, sr_Backend = DeterministicBackend fl, sr_sequence = []\<rparr>"

definition word_ops :: float_ops where
  "word_ops = \<lparr>f_mul = (*), f_add = (+), f_int = of_int, f_const = (\<lambda>_. 3)\<rparr>"

definition two_stage_session :: Session where
  "two_stage_session = \<lparr>ss_ID = 7, ss_Stages = map local_stage [det_runtime word_ops 0 1, det_runtime word_ops 1 3], ss_next = 0\<rparr>"

theorem distributed_equals_single_witness:
  "run_inputs two_stage_session [(1, [4, 5]), (2, [6, 7])] =
     single_inputs 7 0 (det_runtime word_ops 0 3) [(1, [4, 5]), (2, [6, 7])]"
proof -
  let ?rs = "[det_runtime word_ops 0 1, det_runtime word_ops 1 3]"
  have "concat (map layers_of ?rs) = layers_of (det_runtime word_ops 0 3)"
    by (simp add: layers_of_def det_runtime_def upto.simps)
  moreover have "\<forall>r\<in>set ?rs. det_stage word_ops 2 7 0 r" "det_stage word_ops 2 7 0 (det_runtime word_ops 0 3)"
    by (simp_all add: det_stage_def det_runtime_def expected_sequence_def)
  ultimately show ?thesis
    using distributed_equals_single [of two_stage_session ?rs 2 word_ops "det_runtime word_ops 0 3" "[(1, [4, 5]), (2, [6, 7])]"]
    by (simp add: two_stage_session_def)
qed

section \<open>The TCP client and the stage server\<close>

lemma handle_step:
  assumes "32 \<le> length key" "frame_ok f"
  shows "handle key r (frame_bytes key f @ rest) w =
    (case Process r f of
       (Inl _, r') \<Rightarrow> (r', w)
     | (Inr output, r') \<Rightarrow>
         (case WriteFrame w key output of (Some _, w') \<Rightarrow> (r', w') | (None, w') \<Rightarrow> handle key r' rest w'))"
  by (subst handle.simps) (simp add: ReadFrame_bytes [OF assms])

lemma handle_end: "handle key r [] w = (r, w)"
  by (subst handle.simps) (simp add: ReadFrame_def read_full_def headerSize_def)

lemma WriteFrame_ready:
  "script w = [] \<Longrightarrow> 32 \<le> length key \<Longrightarrow> frame_ok f \<Longrightarrow>
     WriteFrame w key f = (None, w\<lparr>accepted := accepted w @ frame_bytes key f\<rparr>)"
  by (simp add: WriteFrame_def Let_def writeFull_ready frame_ok_def frame_bytes_def)

abbreviation open_writer :: writer where
  "open_writer \<equiv> \<lparr>accepted = [], script = []\<rparr>"

text \<open>A connection to a stage server with this runtime: the peer answers what \<open>handle\<close> writes.\<close>

definition server_connection :: "byte list \<Rightarrow> Runtime \<Rightarrow> connection" where
  "server_connection key r =
     \<lparr>cn_out = open_writer, cn_peer = (\<lambda>sent. accepted (snd (handle key r sent open_writer))), cn_read = 0\<rparr>"

definition keeps_width :: "backend \<Rightarrow> bool" where
  "keeps_width b \<longleftrightarrow> (\<forall>l m p vs ws. b l m p vs = Some ws \<longrightarrow> length ws = length vs)"

text \<open>The client's connection when the server that started with \<open>r0\<close> has come to \<open>r\<close>.\<close>

definition served :: "byte list \<Rightarrow> Runtime \<Rightarrow> Runtime \<Rightarrow> connection \<Rightarrow> bool" where
  "served key r0 r conn \<longleftrightarrow> script (cn_out conn) = [] \<and>
     cn_peer conn = (\<lambda>sent. accepted (snd (handle key r0 sent open_writer))) \<and>
     (\<exists>w. script w = [] \<and> cn_read conn = length (accepted w) \<and>
        (\<forall>more. handle key r0 (accepted (cn_out conn) @ more) open_writer = handle key r more w))"

lemma served_start: "served key r r (server_connection key r)"
  unfolding served_def by (rule conjI, simp add: server_connection_def, rule conjI, simp add: server_connection_def,
      rule exI [of _ open_writer]) (simp add: server_connection_def)

lemma TCP_step:
  assumes key: "32 \<le> length key" and f: "frame_ok f" and srv: "served key r0 r conn" and bk: "keeps_width (sr_Backend r)"
    and conn: "(case tc_conn c of None \<Rightarrow> dial | Some k \<Rightarrow> Some k) = Some conn" "tc_Key c = key"
  shows "case Process r f of
      (Inl _, _) \<Rightarrow> \<exists>e c'. TCPClient_Process dial c f = (Inl e, c')
    | (Inr g, r') \<Rightarrow> \<exists>conn'. TCPClient_Process dial c f = (Inr g, c\<lparr>tc_conn := Some conn'\<rparr>) \<and> served key r0 r' conn'"
proof -
  from srv obtain w where w: "script w = []" "cn_read conn = length (accepted w)" "script (cn_out conn) = []"
    "cn_peer conn = (\<lambda>sent. accepted (snd (handle key r0 sent open_writer)))"
    "\<And>more. handle key r0 (accepted (cn_out conn) @ more) open_writer = handle key r more w"
    by (auto simp: served_def)
  let ?out = "(cn_out conn)\<lparr>accepted := accepted (cn_out conn) @ frame_bytes key f\<rparr>"
  have sent: "WriteFrame (cn_out conn) key f = (None, ?out)" by (rule WriteFrame_ready [OF w(3) key f])
  have peer: "cn_peer conn (accepted ?out) = accepted (snd (handle key r (frame_bytes key f) w))"
    using w(5) [of "frame_bytes key f"] by (simp add: w(4))
  note step = handle_step [OF key f, of r _ w]
  show ?thesis
  proof (cases "Process r f")
    case (Pair res r')
    show ?thesis
    proof (cases res)
      case (Inl e)
      with Pair step [of "[]"] peer have "cn_peer conn (accepted ?out) = accepted w" by simp
      with conn sent w(2) Inl Pair show ?thesis
        by (simp add: TCPClient_Process_def ReadFrame_def read_full_def headerSize_def Let_def key)
    next
      case (Inr g)
      from Pair Inr have same: "same_frame f g" using runtime_client.answers_frame [of r f g r'] by simp
      from Pair Inr bk have "length (fr_Values g) = length (fr_Values f)" by (auto simp: Process_Inr keeps_width_def)
      with f have g: "frame_ok g" by (auto simp: frame_ok_def)
      let ?w' = "w\<lparr>accepted := accepted w @ frame_bytes key g\<rparr>"
      have wr: "WriteFrame w key g = (None, ?w')" by (rule WriteFrame_ready [OF w(1) key g])
      with Pair Inr step have onward: "handle key r (frame_bytes key f @ rest) w = handle key r' rest ?w'" for rest by simp
      let ?conn = "conn\<lparr>cn_out := ?out, cn_read := cn_read conn + length (frame_bytes key g)\<rparr>"
      from onward [of "[]"] peer have "drop (cn_read conn) (cn_peer conn (accepted ?out)) = frame_bytes key g"
        by (simp add: handle_end w(2))
      with ReadFrame_bytes [OF key g, of "[]"] conn sent same
      have "TCPClient_Process dial c f = (Inr g, c\<lparr>tc_conn := Some ?conn\<rparr>)"
        by (simp add: TCPClient_Process_def Let_def same_frame_def)
      moreover have "served key r0 r' ?conn"
        unfolding served_def using w onward by (intro conjI exI [of _ ?w']) simp_all
      ultimately show ?thesis using Pair Inr by auto
    qed
  qed
qed

lemma TCP_outputs:
  assumes "32 \<le> length key" "\<forall>f\<in>set fs. frame_ok f" "keeps_width (sr_Backend r)" "served key r0 r conn"
    "(case tc_conn c of None \<Rightarrow> dial | Some k \<Rightarrow> Some k) = Some conn" "tc_Key c = key"
  shows "outputs (TCPClient_Process dial) c fs = outputs Process r fs"
  using assms
proof (induction fs arbitrary: r c conn)
  case (Cons f fs)
  from Cons.prems(2) have "frame_ok f" by simp
  note step = TCP_step [OF Cons.prems(1) this Cons.prems(4,3,5,6)]
  show ?case
  proof (cases "Process r f")
    case (Pair res r')
    show ?thesis
    proof (cases res)
      case (Inl e)
      with step Pair show ?thesis by auto
    next
      case (Inr g)
      with step Pair obtain conn' where t: "TCPClient_Process dial c f = (Inr g, c\<lparr>tc_conn := Some conn'\<rparr>)"
        "served key r0 r' conn'" by auto
      have "sr_Backend r' = sr_Backend r" using Pair Inr by (auto simp: Process_Inr)
      with Cons.IH [OF Cons.prems(1) _ _ t(2), of "c\<lparr>tc_conn := Some conn'\<rparr>"] Cons.prems Pair Inr t(1)
      show ?thesis by simp
    qed
  qed
qed simp

text \<open>
  C19. A stage behind TCP is a stage: a client that dials a stage server gets for every sequence of
  frames, until the first error, exactly the answers of the server's runtime called directly, when
  the key has 32 bytes, the frames are within the wire format's limits and the backend keeps the
  number of values.
\<close>

theorem tcp_stage_refines_local:
  assumes "32 \<le> length key" and "\<forall>f\<in>set frames. fr_Values f \<noteq> [] \<and> length (fr_Values f) \<le> maxValues"
    and "keeps_width (sr_Backend r)"
  shows "outputs (TCPClient_Process (Some (server_connection key r))) \<lparr>tc_Key = key, tc_conn = None\<rparr> frames =
    outputs Process r frames"
  using TCP_outputs [OF assms(1) _ assms(3) served_start, of frames "Some (server_connection key r)"] assms(2)
  by (simp add: frame_ok_def)

theorem tcp_stage_refines_local_witness:
  "outputs (TCPClient_Process (Some (server_connection sample_key echo_runtime))) \<lparr>tc_Key = sample_key, tc_conn = None\<rparr>
     [sample_frame, sample_frame] = [sample_frame\<lparr>fr_Values := [3, 2, 1]\<rparr>]"
proof -
  have "outputs Process echo_runtime [sample_frame, sample_frame] = [sample_frame\<lparr>fr_Values := [3, 2, 1]\<rparr>]"
    by (simp add: Process_def echo_runtime_def sample_frame_def expected_sequence_def)
  moreover have "\<forall>f\<in>set [sample_frame, sample_frame]. fr_Values f \<noteq> [] \<and> length (fr_Values f) \<le> maxValues"
    using sample_frame_ok by (simp add: frame_ok_def)
  moreover have "keeps_width (sr_Backend echo_runtime)" by (auto simp: keeps_width_def echo_runtime_def)
  ultimately show ?thesis using tcp_stage_refines_local [OF sample_frame_ok(2)] by metis
qed

section \<open>A failure in the middle of the pipeline\<close>

lemma run_stages_first:
  assumes "run_stages 0 (Some c # cs) f = (Inl (StageFailed (Suc k) e), cs')"
  obtains g c' ds where "client_process c f = (Inr g, c')" "cs' = Some c' # ds"
  using assms by (auto split: prod.splits sum.splits)

text \<open>
  C20. In a session whose first stage runs in the process itself (a LocalClient over a runtime), a
  failure of any stage but the first is permanent: the first stage has already counted the frame
  and the session has not, so from then on every run of the session with inputs of the first
  stage's width fails there as out of order, whatever state the failed stage comes to be in. A
  first stage that is reached over TCP is not the subject: its server answers the frame it does
  not expect by closing the connection, so later runs fail there too, but not with this error.
\<close>

theorem midpipeline_failure_is_permanent:
  assumes first: "ss_Stages s = Some (Local (Some r)) # cs"
    and failed: "Run s position activation = (Inl (StageFailed (Suc k) e), s')"
    and inputs: "\<forall>(p, vs)\<in>set ins. vs \<noteq> [] \<and> int (length vs) = sr_HiddenSize r"
  shows "run_inputs s' ins = replicate (length ins) (Inl (StageFailed 0 (OutOfOrder (ss_next s + 1))))"
proof -
  let ?f = "\<lparr>fr_SessionID = ss_ID s, fr_Sequence = ss_next s, fr_Position = position, fr_Values = activation\<rparr>"
  from failed first have guard: "ss_ID s \<noteq> 0" "2 \<le> length (ss_Stages s)"
    by (auto simp: Run_def Suc_le_eq split: if_splits)
  with failed first obtain cs' where rs: "run_stages 0 (Some (Local (Some r)) # cs) ?f = (Inl (StageFailed (Suc k) e), cs')"
    and s': "s' = s\<lparr>ss_Stages := cs'\<rparr>"
    by (auto simp: Run_def Let_def simp del: run_stages.simps split: if_splits prod.splits sum.splits)
  have len: "length (snd (run_stages i ds f)) = length ds" for i ds f
    by (induction i ds f rule: run_stages.induct) (auto split: prod.splits sum.splits)
  from rs obtain g c' ds where g: "client_process (Local (Some r)) ?f = (Inr g, c')" "cs' = Some c' # ds"
    by (rule run_stages_first)
  then obtain r' where r': "Process r ?f = (Inr g, r')" "c' = Local (Some r')"
    by (auto simp: LocalClient_Process_def split: prod.splits)
  then have ex: "expected_sequence r' (ss_ID s) = ss_next s + 1" "sr_HiddenSize r' = sr_HiddenSize r"
    by (auto simp: Process_Inr expected_update)
  have "length cs' = length (ss_Stages s)" using len [of 0 "ss_Stages s" ?f] rs first by simp
  with guard have two: "2 \<le> length cs'" by simp
  have stuck: "Run s' p vs = (Inl (StageFailed 0 (OutOfOrder (ss_next s + 1))), s')"
    if "vs \<noteq> []" "int (length vs) = sr_HiddenSize r" for p vs
  proof -
    let ?h = "\<lparr>fr_SessionID = ss_ID s, fr_Sequence = ss_next s, fr_Position = p, fr_Values = vs\<rparr>"
    have "Process r' ?h = (Inl (OutOfOrder (ss_next s + 1)), r')"
      using that ex by (simp add: Process_def)
    with g(2) r'(2) two guard that(1) s' show ?thesis
      by (auto simp: Run_def LocalClient_Process_def)
  qed
  show ?thesis using inputs
  proof (induction ins)
    case (Cons i ins)
    then show ?case by (cases i) (auto simp: stuck)
  qed simp
qed

definition broken_session :: Session where
  "broken_session = \<lparr>ss_ID = 7, ss_Stages = [local_stage (det_runtime word_ops 0 1), Some (Local None)], ss_next = 0\<rparr>"

theorem midpipeline_failure_is_permanent_witness:
  "run_inputs (snd (Run broken_session 1 [4, 5])) [(1, [4, 5]), (1, [4, 5])] =
     [Inl (StageFailed 0 (OutOfOrder 1)), Inl (StageFailed 0 (OutOfOrder 1))]"
proof -
  have "Run broken_session 1 [4, 5] = (Inl (StageFailed (Suc 0) RuntimeRequired), snd (Run broken_session 1 [4, 5]))"
    by (simp add: Run_def broken_session_def LocalClient_Process_def Process_def det_runtime_def expected_sequence_def
        DeterministicBackend_def upto.simps)
  from midpipeline_failure_is_permanent [OF _ this, of "det_runtime word_ops 0 1" "[Some (Local None)]" "[(1, [4, 5]), (1, [4, 5])]"]
  show ?thesis by (simp add: broken_session_def det_runtime_def numeral_2_eq_2)
qed

end
