(* ===== verification/Pipeline.thy ===== *)
theory Pipeline
  imports Planner_Correct Stage_Correct
begin

text \<open>
  The planner and the stages together: the stages that a plan of \<open>PlanLayers\<close> describes, each served
  by \<open>stage.Server\<close> and reached by a \<open>stage.TCPClient\<close>, driven by \<open>distributed.Session\<close>. No code of its own
  is modelled here; the theory composes the definitions of \<open>Planner\<close> and \<open>Stage\<close>.
\<close>

section \<open>A client that stands for a runtime\<close>

definition stands_for :: "byte list \<Rightarrow> Client option \<Rightarrow> Runtime \<Rightarrow> bool" where
  "stands_for key client r \<longleftrightarrow> client = local_stage r \<or>
     (\<exists>dial c r0 conn. client = Some (TCP dial c) \<and> tc_Key c = key \<and> served key r0 r conn \<and>
        (case tc_conn c of None \<Rightarrow> dial | Some k \<Rightarrow> Some k) = Some conn)"

lemma DeterministicBackend_width [simp]: "keeps_width (DeterministicBackend fl)"
proof -
  have "length (foldl (\<lambda>vs layer. apply_layer fl p layer vs) vs ls) = length vs" for p vs ls
    by (induction ls arbitrary: vs) (simp_all add: apply_layer_def)
  then show ?thesis by (auto simp: keeps_width_def DeterministicBackend_def)
qed

lemma stands_for_step:
  assumes "32 \<le> length key" "frame_ok f" "stands_for key client r" "keeps_width (sr_Backend r)" "Process r f = (Inr g, r')"
  obtains c c' where "client = Some c" "client_process c f = (Inr g, c')" "stands_for key (Some c') r'"
proof (cases "client = local_stage r")
  case True
  with assms(5) that [of "Local (Some r)" "Local (Some r')"] show ?thesis
    by (simp add: LocalClient_Process_def stands_for_def)
next
  case False
  with assms(3) obtain dial c r0 conn where c: "client = Some (TCP dial c)" "tc_Key c = key" "served key r0 r conn"
    "(case tc_conn c of None \<Rightarrow> dial | Some k \<Rightarrow> Some k) = Some conn" by (auto simp: stands_for_def)
  from TCP_step [OF assms(1,2) c(3) assms(4) c(4,2)] assms(5) obtain conn' where
    t: "TCPClient_Process dial c f = (Inr g, c\<lparr>tc_conn := Some conn'\<rparr>)" "served key r0 r' conn'" by auto
  then have "stands_for key (Some (TCP dial (c\<lparr>tc_conn := Some conn'\<rparr>))) r'"
    using c(2) unfolding stands_for_def
    by (intro disjI2 exI [of _ dial] exI [of _ "c\<lparr>tc_conn := Some conn'\<rparr>"] exI [of _ r0] exI [of _ conn']) simp
  with that [OF c(1)] t(1) show ?thesis by simp
qed

lemma stands_for_pipeline:
  assumes "32 \<le> length key" "list_all2 (stands_for key) clients rs"
    "\<forall>r\<in>set rs. det_stage fl h (fr_SessionID f) (fr_Sequence f) r" "int (length (fr_Values f)) = h" "frame_ok f"
  shows "\<exists>clients'. run_stages i clients f =
      (Inr (f\<lparr>fr_Values := apply_layers fl (fr_Position f) (concat (map layers_of rs)) (fr_Values f)\<rparr>), clients') \<and>
    list_all2 (stands_for key) clients' (map (advance (fr_SessionID f) (fr_Sequence f)) rs)"
  using assms(2-5)
proof (induction clients rs arbitrary: i f rule: list_all2_induct)
  case (Cons client clients r rs)
  let ?g = "f\<lparr>fr_Values := apply_layers fl (fr_Position f) (layers_of r) (fr_Values f)\<rparr>"
  from Cons.prems have "Process r f = (Inr ?g, advance (fr_SessionID f) (fr_Sequence f) r)"
    using Process_det [of fl h f r] by simp
  moreover have "keeps_width (sr_Backend r)" using Cons.prems(1) by (simp add: det_stage_def)
  ultimately obtain c c' where c: "client = Some c" "client_process c f = (Inr ?g, c')"
      "stands_for key (Some c') (advance (fr_SessionID f) (fr_Sequence f) r)"
    using stands_for_step [OF assms(1) Cons.prems(3) Cons.hyps(1)] by metis
  have "frame_ok ?g" using Cons.prems(3) by (simp add: frame_ok_def length_greater_0_conv [symmetric] del: length_greater_0_conv)
  with Cons.IH [of ?g "Suc i"] Cons.prems obtain clients' where
    "run_stages (Suc i) clients ?g = (Inr (?g\<lparr>fr_Values := apply_layers fl (fr_Position f) (concat (map layers_of rs)) (fr_Values ?g)\<rparr>), clients')"
    "list_all2 (stands_for key) clients' (map (advance (fr_SessionID f) (fr_Sequence f)) rs)"
    by auto
  with c show ?case by (simp add: apply_layers_append)
qed (simp add: apply_layers_def)

lemma stands_for_session:
  assumes "32 \<le> length key" "0 < h" "h \<le> int maxValues" "2 \<le> length rs"
    "list_all2 (stands_for key) (ss_Stages s) rs" "ss_ID s \<noteq> 0"
    "\<forall>r\<in>set rs. det_stage fl h (ss_ID s) (ss_next s) r" "\<forall>(p, vs)\<in>set ins. int (length vs) = h"
  shows "run_inputs s ins = map (\<lambda>(p, vs). Inr (apply_layers fl p (concat (map layers_of rs)) vs)) ins"
  using assms(4-8)
proof (induction ins arbitrary: s rs)
  case (Cons i ins)
  obtain p vs where i: "i = (p, vs)" by fastforce
  let ?f = "\<lparr>fr_SessionID = ss_ID s, fr_Sequence = ss_next s, fr_Position = p, fr_Values = vs\<rparr>"
  have vs: "int (length vs) = h" "vs \<noteq> []" using Cons.prems(5) i assms(2) by auto
  then have ok: "frame_ok ?f" using assms(3) by (simp add: frame_ok_def)
  have more: "\<not> length (ss_Stages s) < 2" using Cons.prems(1) list_all2_lengthD [OF Cons.prems(2)] by simp
  from stands_for_pipeline [OF assms(1) Cons.prems(2), of fl h ?f 0] Cons.prems(4) vs(1) ok obtain clients' where
    run: "run_stages 0 (ss_Stages s) ?f =
        (Inr (?f\<lparr>fr_Values := apply_layers fl p (concat (map layers_of rs)) vs\<rparr>), clients')"
      "list_all2 (stands_for key) clients' (map (advance (ss_ID s) (ss_next s)) rs)" by auto
  let ?s = "s\<lparr>ss_Stages := clients', ss_next := ss_next s + 1\<rparr>" and ?rs = "map (advance (ss_ID s) (ss_next s)) rs"
  have "Run s p vs = (Inr (apply_layers fl p (concat (map layers_of rs)) vs), ?s)"
    using run(1) vs(2) Cons.prems(3) more by (simp add: Run_def Let_def)
  moreover have "run_inputs ?s ins = map (\<lambda>(p, vs). Inr (apply_layers fl p (concat (map layers_of ?rs)) vs)) ins"
    by (rule Cons.IH) (use Cons.prems run(2) det_stage_advance in auto)
  ultimately show ?case using i by (simp add: comp_def)
qed simp

section \<open>The stages of a plan\<close>

definition planned_runtime :: "float_ops \<Rightarrow> int \<Rightarrow> StageAssignment \<Rightarrow> Runtime option" where
  "planned_runtime fl h st = NewRuntime (sa_LayerStart st) (sa_LayerEnd st) h (Some (DeterministicBackend fl))"

text \<open>For each stage a client that has not dialled yet, of a server that has just started.\<close>

definition dialled_stages :: "byte list \<Rightarrow> float_ops \<Rightarrow> int \<Rightarrow> StageAssignment list \<Rightarrow> Client option list" where
  "dialled_stages key fl h plan =
     map (\<lambda>st. map_option (\<lambda>r. TCP (Some (server_connection key r)) \<lparr>tc_Key = key, tc_conn = None\<rparr>) (planned_runtime fl h st)) plan"

lemma upto_upt: "0 \<le> a \<Longrightarrow> [a..b - 1] = map int [nat a..<nat b]"
  by (rule nth_equalityI) (auto simp: nat_diff_distrib)

lemma planned_runtime_ok:
  assumes "0 < h" "stage_ok lb st"
  obtains r where "planned_runtime fl h st = Some r" "det_stage fl h sid 0 r" "layers_of r = map int (stage_layers st)"
  using assms upto_upt [of "sa_LayerStart st" "sa_LayerEnd st"]
  by (auto simp: planned_runtime_def NewRuntime_def stage_ok_def det_stage_def expected_sequence_def layers_of_def stage_layers_def)

lemma planned_stages:
  assumes "0 < h" "\<forall>st\<in>set plan. stage_ok lb st"
  shows "\<exists>rs. list_all2 (stands_for key) (dialled_stages key fl h plan) rs \<and> (\<forall>r\<in>set rs. det_stage fl h sid 0 r) \<and>
    concat (map layers_of rs) = map int (concat (map stage_layers plan)) \<and> length rs = length plan"
  using assms(2)
proof (induction plan)
  case (Cons st plan)
  then obtain rs where rs: "list_all2 (stands_for key) (dialled_stages key fl h plan) rs" "\<forall>r\<in>set rs. det_stage fl h sid 0 r"
    "concat (map layers_of rs) = map int (concat (map stage_layers plan))" "length rs = length plan" by auto
  from Cons.prems have "stage_ok lb st" by simp
  then obtain r where r: "planned_runtime fl h st = Some r" "det_stage fl h sid 0 r" "layers_of r = map int (stage_layers st)"
    using planned_runtime_ok [OF assms(1)] by blast
  have "stands_for key (Some (TCP (Some (server_connection key r)) \<lparr>tc_Key = key, tc_conn = None\<rparr>)) r"
    unfolding stands_for_def using served_start [of key r] by auto
  with rs r show ?case by (intro exI [of _ "r # rs"]) (simp add: dialled_stages_def)
qed (simp add: dialled_stages_def)

text \<open>
  C2. A planned pipeline computes the model: for every plan the planner returns, a session over stage
  servers for exactly the planned layer ranges, each reached over an authenticated TCP connection,
  answers every sequence of inputs of the model's width with the outputs of one runtime over all
  layers, and never with an error.
\<close>

theorem planned_pipeline_equals_single:
  assumes plan: "PlanLayers candidates layerBytes minNodes maxNodes = Inr plan"
    and key: "32 \<le> length key" and width: "0 < h" "h \<le> int maxValues" and session: "sid \<noteq> 0"
    and inputs: "\<forall>(position, activation)\<in>set ins. int (length activation) = h"
  shows "\<exists>single. NewRuntime 0 (int (length layerBytes)) h (Some (DeterministicBackend fl)) = Some single \<and>
    run_inputs \<lparr>ss_ID = sid, ss_Stages = dialled_stages key fl h plan, ss_next = 0\<rparr> ins = single_inputs sid 0 single ins \<and>
    (\<forall>res\<in>set (single_inputs sid 0 single ins). \<exists>out. res = Inr out)"
proof -
  note st = PlanLayers_stages [OF plan]
  obtain rs where rs: "list_all2 (stands_for key) (dialled_stages key fl h plan) rs" "\<forall>r\<in>set rs. det_stage fl h sid 0 r"
    "concat (map layers_of rs) = map int [0..<length layerBytes]" "length rs = length plan"
    using planned_stages [OF width(1) st(2)] st(1) by metis
  have n: "0 < length layerBytes" using st(1,2,6) by (cases plan) (auto simp: stage_ok_def)
  let ?single = "\<lparr>sr_LayerStart = 0, sr_LayerEnd = int (length layerBytes), sr_HiddenSize = h,
    sr_Backend = DeterministicBackend fl, sr_sequence = []\<rparr>"
  have single: "NewRuntime 0 (int (length layerBytes)) h (Some (DeterministicBackend fl)) = Some ?single"
    using n width(1) by (simp add: NewRuntime_def)
  have det: "det_stage fl h sid 0 ?single" by (simp add: det_stage_def expected_sequence_def)
  have "layers_of ?single = map int [0..<length layerBytes]"
    using upto_upt [of 0 "int (length layerBytes)"] by (simp add: layers_of_def)
  with single_inputs_det [OF det inputs] rs(3)
    stands_for_session [OF key width, of rs "\<lparr>ss_ID = sid, ss_Stages = dialled_stages key fl h plan, ss_next = 0\<rparr>" fl ins]
    rs(1,2,4) st(6) session inputs single
  show ?thesis by (intro exI [of _ ?single]) auto
qed

theorem planned_pipeline_equals_single_witness:
  "run_inputs \<lparr>ss_ID = 7, ss_Stages = dialled_stages sample_key word_ops 2 sample_plan, ss_next = 0\<rparr> [(1, [4, 5])] =
     single_inputs 7 0 \<lparr>sr_LayerStart = 0, sr_LayerEnd = int (length sample_layers), sr_HiddenSize = 2,
       sr_Backend = DeterministicBackend word_ops, sr_sequence = []\<rparr> [(1, [4, 5])]"
proof -
  have k: "32 \<le> length sample_key" by (simp add: sample_key_def)
  have "int 2 \<le> int maxValues" by (simp add: maxValues_def)
  then have "(0 :: int) < 2" "2 \<le> int maxValues" "(7 :: 64 word) \<noteq> 0"
    "\<forall>(position, activation)\<in>set [(1 :: 32 word, [4, 5 :: 32 word])]. int (length activation) = 2" by simp_all
  from planned_pipeline_equals_single [OF sample_plan_eval k this, of word_ops] show ?thesis
    by (auto simp: NewRuntime_def sample_layers_def)
qed

end
