(* ===== verification/Float64.thy ===== *)
theory Float64
  imports Prelude
begin

text \<open>
  The \<open>float64\<close> arithmetic of the scheduler: \<open>float64(active) / float64(maxConcurrency)\<close> with
  \<open>0 \<le> active < maxConcurrency\<close>. A finite float is the rational number it denotes; conversion and
  division round to 53 significant bits, to nearest with ties to even.
\<close>

definition rne_div :: "nat \<Rightarrow> nat \<Rightarrow> nat" where
  "rne_div n d =
     (let q = n div d; r = n mod d
      in if 2 * r < d then q else if d < 2 * r then Suc q else if even q then q else Suc q)"

text \<open>Conversion of an integer: drop low bits until 53 are left.\<close>

function f64_drop :: "nat \<Rightarrow> nat \<Rightarrow> nat" where
  "f64_drop n k = (if 9007199254740992 * 2 ^ k \<le> n then f64_drop n (Suc k) else k)"
  by pat_completeness auto
termination
proof (relation "measure (\<lambda>(n, k). n - k)")
  fix n k :: nat
  assume "9007199254740992 * 2 ^ k \<le> n"
  moreover have "k < 2 ^ k" by (rule less_exp)
  ultimately have "k < n" by linarith
  then show "((n, Suc k), n, k) \<in> measure (\<lambda>(n, k). n - k)" by auto
qed auto

declare f64_drop.simps [simp del]

definition f64_of_nat :: "nat \<Rightarrow> nat" where
  "f64_of_nat n = (let k = f64_drop n 0 in rne_div n (2 ^ k) * 2 ^ k)"

text \<open>The exponent that brings a positive quotient below one to 53 bits, and the quotient.\<close>

function f64_scale :: "nat \<Rightarrow> nat \<Rightarrow> nat \<Rightarrow> nat" where
  "f64_scale a b k =
     (if 0 < a \<and> a < 4503599627370496 * b then f64_scale (2 * a) b (Suc k) else k)"
  by pat_completeness auto
termination
  by (relation "measure (\<lambda>(a, b, k). 4503599627370496 * b - a)") auto

declare f64_scale.simps [simp del]

definition f64_quot :: "nat \<Rightarrow> nat \<Rightarrow> rat" where
  "f64_quot a b =
     (if a = 0 then 0
      else let k = f64_scale a b 0 in of_nat (rne_div (a * 2 ^ k) b) / 2 ^ k)"

definition load_of :: "int \<Rightarrow> int \<Rightarrow> rat" where
  "load_of active maxConcurrency = f64_quot (f64_of_nat (nat active)) (f64_of_nat (nat maxConcurrency))"

lemma f64_of_nat_small: "n < 9007199254740992 \<Longrightarrow> f64_of_nat n = n"
  by (simp add: f64_of_nat_def f64_drop.simps rne_div_def)

lemma load_of_zero [simp]: "load_of 0 m = 0"
  by (simp add: load_of_def f64_of_nat_small f64_quot_def)

lemma load_of_nonneg: "0 \<le> load_of a m"
  by (simp add: load_of_def f64_quot_def Let_def)

end
