(* ===== verification/Control.thy ===== *)
theory Control
  imports Planner_Correct Auth Float64
begin

text \<open>
  The control plane (\<open>src/internal/control/server.go\<close>): the node registry, leases on single nodes
  and distributed groups. Every handler is a function from the server state, the request (header
  secret, decoded body or \<open>None\<close> for a body that does not decode, path value), the readings of the
  clock and what \<open>rand.Read\<close> delivers, to the reply and the new state.
\<close>

section \<open>State\<close>

record reservation =
  rv_nodeID :: string
  rv_expiresAt :: int

record groupReservation =
  gv_reservationIDs :: "string list"
  gv_expiresAt :: int

record NodeCredential =
  nc_RegistrationSecret :: string
  nc_LeaseSecret :: string
  nc_Scope :: string

text \<open>
  \<open>sv_mu\<close> is true once a handler has panicked between \<open>mu.Lock\<close> and \<open>mu.Unlock\<close>: the HTTP server
  recovers the panic, nobody unlocks, and every later \<open>mu.Lock\<close> waits forever.
\<close>

record Server =
  sv_hostSecret :: string
  sv_clientSecret :: string
  sv_leaseSecret :: "byte list"
  sv_ttl :: int
  sv_mu :: bool
  sv_nodes :: "(string, Node) gomap"
  sv_reservations :: "(string, reservation) gomap"
  sv_groups :: "(string, groupReservation) gomap"
  sv_nodeCredentials :: "(string, NodeCredential) gomap"

text \<open>The replies of a handler; \<open>Aborted\<close> is a panic, \<open>Blocked\<close> a wait for the lost lock.\<close>

datatype 'a outcome = Reply "'a reply" | Aborted | Blocked

definition lock_mu :: "Server \<Rightarrow> 'a outcome \<times> Server \<Rightarrow> 'a outcome \<times> Server" where
  "lock_mu s k = (if sv_mu s then (Blocked, s) else k)"

definition NewWithNodeCredentials :: "string \<Rightarrow> string \<Rightarrow> string \<Rightarrow> int \<Rightarrow> (string, NodeCredential) gomap \<Rightarrow> Server" where
  "NewWithNodeCredentials hostSecret clientSecret leaseSecret ttl credentials =
     \<lparr>sv_hostSecret = hostSecret, sv_clientSecret = clientSecret, sv_leaseSecret = string_bytes leaseSecret,
      sv_ttl = ttl, sv_mu = False, sv_nodes = [], sv_reservations = [], sv_groups = [],
      sv_nodeCredentials = credentials\<rparr>"

definition NewWithSecrets :: "string \<Rightarrow> string \<Rightarrow> string \<Rightarrow> int \<Rightarrow> Server" where
  "NewWithSecrets hostSecret clientSecret leaseSecret ttl =
     NewWithNodeCredentials hostSecret clientSecret leaseSecret ttl []"

definition New :: "string \<Rightarrow> int \<Rightarrow> Server" where
  "New secret ttl = NewWithSecrets secret secret secret ttl"

section \<open>Helpers\<close>

definition seconds :: "int \<Rightarrow> int" where
  "seconds n = n * 1000000000"

definition minutes :: "int \<Rightarrow> int" where
  "minutes n = n * 60000000000"

definition authorizeClient :: "Server \<Rightarrow> string \<Rightarrow> bool" where
  "authorizeClient s secret = EqualSecret secret (sv_clientSecret s)"

definition expireReservationsLocked :: "int \<Rightarrow> Server \<Rightarrow> Server" where
  "expireReservationsLocked now s =
     s\<lparr>sv_reservations := filter (\<lambda>(leaseID, item). now < rv_expiresAt item) (sv_reservations s),
       sv_groups := filter (\<lambda>(groupID, grp). now < gv_expiresAt grp) (sv_groups s)\<rparr>"

definition reservedForNodeLocked :: "Server \<Rightarrow> string \<Rightarrow> int" where
  "reservedForNodeLocked s nodeID =
     int (gomap_count (\<lambda>(leaseID, item). rv_nodeID item = nodeID) (sv_reservations s))"

definition availableVRAM :: "Node \<Rightarrow> int" where
  "availableVRAM node =
     foldl (\<lambda>maximum gpu. if maximum < gpu_MemoryFreeMB gpu then gpu_MemoryFreeMB gpu else maximum)
       0 (hw_GPUDevices (nd_Hardware node))"

definition hasVRAM :: "Node \<Rightarrow> int \<Rightarrow> bool" where
  "hasVRAM node minimum =
     (minimum \<le> 0 \<or> (\<exists>gpu\<in>set (hw_GPUDevices (nd_Hardware node)). minimum \<le> gpu_MemoryFreeMB gpu))"

definition nodeMemoryCapacity :: "Node \<Rightarrow> int" where
  "nodeMemoryCapacity node =
     (let capacity = availableVRAM node
      in if capacity = 0 then
           let capacity' = i64 (hw_MemoryFreeMB (nd_Hardware node))
           in if capacity' = 0 then i64 (hw_MemoryMB (nd_Hardware node)) else capacity'
         else capacity)"

definition leaseTTL :: "Server \<Rightarrow> int \<Rightarrow> int" where
  "leaseTTL s modelSize =
     (let ttl = sv_ttl s
      in if 0 < modelSize then
           let uploadTTL = i64 (i64 (modelSize div 524288 * seconds 1) + minutes 10);
               uploadTTL' = (if minutes 360 < uploadTTL then minutes 360 else uploadTTL)
           in if ttl < uploadTTL' then uploadTTL' else ttl
         else ttl)"

definition randomIdentifier :: "byte list option \<Rightarrow> string option" where
  "randomIdentifier rnd = map_option b64_encode rnd"

definition lease_secret_for :: "Server \<Rightarrow> string \<Rightarrow> byte list" where
  "lease_secret_for s nodeID =
     (case map_of (sv_nodeCredentials s) nodeID of
        Some credential \<Rightarrow> string_bytes (nc_LeaseSecret credential)
      | None \<Rightarrow> sv_leaseSecret s)"

definition valid_scope :: "string \<Rightarrow> bool" where
  "valid_scope scope \<longleftrightarrow> scope = ''local'' \<or> scope = ''remote''"

text \<open>The model metadata check that lease and group requests share.\<close>

definition bad_model_metadata :: "string \<Rightarrow> int \<Rightarrow> string \<Rightarrow> bool" where
  "bad_model_metadata digest modelSize format =
     (digest \<noteq> '''' \<and> (length digest \<noteq> 64 \<or> modelSize \<le> 0 \<or> format \<noteq> ''gguf''))"

section \<open>Registering and listing nodes\<close>

text \<open>The secret a registration must present and the scope it gets, or \<open>None\<close> for an unknown node.\<close>

definition registration_terms :: "Server \<Rightarrow> NodeRegistration \<Rightarrow> (string \<times> string) option" where
  "registration_terms s req =
     (if sv_nodeCredentials s \<noteq> [] then
        (case map_of (sv_nodeCredentials s) (reg_NodeID req) of
           None \<Rightarrow> None
         | Some credential \<Rightarrow>
             Some (nc_RegistrationSecret credential,
                   if nc_Scope credential \<noteq> '''' then nc_Scope credential else ''remote''))
      else Some (sv_hostSecret s, reg_Scope req))"

definition registered_node :: "NodeRegistration \<Rightarrow> string \<Rightarrow> int \<Rightarrow> int \<Rightarrow> Node" where
  "registered_node req scope maxConcurrency now =
     \<lparr>nd_NodeID = reg_NodeID req, nd_Endpoint = reg_Endpoint req, nd_Models = reg_Models req,
      nd_Hardware = reg_Hardware req, nd_Runtime = reg_Runtime req, nd_LastSeen = now,
      nd_Available = reg_Available req, nd_AcceptsModelUploads = reg_AcceptsModelUploads req,
      nd_Scope = scope, nd_MaxConcurrency = maxConcurrency, nd_ActiveTasks = reg_ActiveTasks req,
      nd_ReservedTasks = 0, nd_DistributedReady = reg_DistributedReady req,
      nd_StageEndpoint = reg_StageEndpoint req\<rparr>"

definition register :: "Server \<Rightarrow> string \<Rightarrow> NodeRegistration option \<Rightarrow> int \<Rightarrow> Node outcome \<times> Server" where
  "register s secret body now =
     (case body of
        None \<Rightarrow> (Reply (Error 400 ''node_id, endpoint and either models or model upload support are required''), s)
      | Some req \<Rightarrow>
          if reg_NodeID req = '''' \<or> reg_Endpoint req = '''' \<or>
             (reg_Models req = [] \<and> \<not> reg_AcceptsModelUploads req)
          then (Reply (Error 400 ''node_id, endpoint and either models or model upload support are required''), s)
          else
            (case registration_terms s req of
               None \<Rightarrow> (Reply (Error 401 ''node is not authorized in this pool''), s)
             | Some (expectedSecret, scope0) \<Rightarrow>
                 if \<not> EqualSecret secret expectedSecret
                 then (Reply (Error 401 ''host registration secret is invalid''), s)
                 else
                   let scope = (if scope0 = '''' then ''remote'' else scope0)
                   in if \<not> valid_scope scope then (Reply (Error 400 ''scope must be local or remote''), s)
                      else
                        let maxConcurrency = (if reg_MaxConcurrency req \<le> 0 then 1 else reg_MaxConcurrency req)
                        in if reg_ActiveTasks req < 0 \<or> maxConcurrency < reg_ActiveTasks req
                           then (Reply (Error 400 ''active_tasks must be within max_concurrency''), s)
                           else if reg_DistributedReady req \<and> reg_StageEndpoint req = ''''
                           then (Reply (Error 400 ''stage_endpoint is required for distributed nodes''), s)
                           else
                             let node = registered_node req scope maxConcurrency now
                             in lock_mu s
                                  (Reply (JSON 200 node),
                                   s\<lparr>sv_nodes := AList.update (nd_NodeID node) node (sv_nodes s)\<rparr>)))"

definition listNodes :: "Server \<Rightarrow> string \<Rightarrow> int \<Rightarrow> (Node list) outcome \<times> Server" where
  "listNodes s secret now =
     (if \<not> authorizeClient s secret then (Reply (Error 401 ''requester secret is invalid''), s)
      else lock_mu s
        (let s1 = expireReservationsLocked now s;
             nodes = map (\<lambda>(_, node). node\<lparr>nd_Runtime := (nd_Runtime node)\<lparr>rt_URL := ''''\<rparr>,
                            nd_ReservedTasks := reservedForNodeLocked s1 (nd_NodeID node)\<rparr>) (sv_nodes s1)
         in (Reply (JSON 200 (sort_slice (\<lambda>a b. nd_NodeID a < nd_NodeID b) nodes)), s1)))"

section \<open>Leases\<close>

text \<open>
  The clock readings of a handler: at expiry, for node ages, when issuing, when booking. One reading stands for those
  a loop makes in its rounds.
\<close>

record clock =
  at_expire :: int
  at_since :: int
  at_issue :: int
  at_book :: int

definition active_tasks :: "Server \<Rightarrow> Node \<Rightarrow> int" where
  "active_tasks s node = max (nd_ActiveTasks node) (reservedForNodeLocked s (nd_NodeID node))"

definition node_load :: "Server \<Rightarrow> Node \<Rightarrow> rat" where
  "node_load s node = load_of (active_tasks s node) (nd_MaxConcurrency node)"

definition lease_eligible :: "Server \<Rightarrow> LeaseRequest \<Rightarrow> int \<Rightarrow> Node \<Rightarrow> bool" where
  "lease_eligible s req now node =
     (let modelSupported =
            (if lr_ModelDigest req \<noteq> '''' then nd_AcceptsModelUploads node
             else lr_Model req \<in> set (nd_Models node))
      in nd_Available node \<and> rt_Ready (nd_Runtime node) \<and> modelSupported \<and>
         now - nd_LastSeen node < seconds 90 \<and> hasVRAM node (lr_MinVRAMMB req) \<and>
         (lr_NodeID req = '''' \<or> nd_NodeID node = lr_NodeID req) \<and>
         (lr_Scope req = '''' \<or> nd_Scope node = lr_Scope req) \<and>
         nd_NodeID node \<notin> set (lr_ExcludeNodeIDs req) \<and>
         active_tasks s node < nd_MaxConcurrency node)"

text \<open>One turn of the selection loop; the accumulator is \<open>(selected, selectedLoad)\<close>.\<close>

definition select_step :: "Server \<Rightarrow> LeaseRequest \<Rightarrow> int \<Rightarrow> Node \<times> rat \<Rightarrow> Node \<Rightarrow> Node \<times> rat" where
  "select_step s req now acc node =
     (let (selected, selectedLoad) = acc in
      if lease_eligible s req now node then
        let load = node_load s node
        in if nd_NodeID selected = '''' \<or> load < selectedLoad \<or>
              (load = selectedLoad \<and> availableVRAM selected < availableVRAM node) \<or>
              (load = selectedLoad \<and> availableVRAM node = availableVRAM selected \<and>
                 nd_NodeID node < nd_NodeID selected)
           then (node, load) else (selected, selectedLoad)
      else (selected, selectedLoad))"

definition select_node :: "Server \<Rightarrow> LeaseRequest \<Rightarrow> int \<Rightarrow> Node" where
  "select_node s req now = fst (foldl (select_step s req now) (zero_node, 2) (map snd (sv_nodes s)))"

definition reservation_expiry :: "int \<Rightarrow> int \<Rightarrow> int" where
  "reservation_expiry now claimExpiresAt =
     (let expiry = now + minutes 15; claimExpiry = seconds claimExpiresAt
      in if claimExpiry < expiry then claimExpiry else expiry)"

definition createLease :: "json_codec \<Rightarrow> Server \<Rightarrow> string \<Rightarrow> LeaseRequest option \<Rightarrow> clock \<Rightarrow> byte list option \<Rightarrow>
    Lease outcome \<times> Server" where
  "createLease lib s secret body clk rnd =
     (if \<not> authorizeClient s secret then (Reply (Error 401 ''requester secret is invalid''), s)
      else
        (case body of
           None \<Rightarrow> (Reply (Error 400 ''valid model metadata is required''), s)
         | Some req \<Rightarrow>
             if lr_Model req = '''' \<or> bad_model_metadata (lr_ModelDigest req) (lr_ModelSize req) (lr_ModelFormat req)
             then (Reply (Error 400 ''valid model metadata is required''), s)
             else if lr_Scope req \<noteq> '''' \<and> \<not> valid_scope (lr_Scope req)
             then (Reply (Error 400 ''scope must be local or remote''), s)
             else lock_mu s
               (let s1 = expireReservationsLocked (at_expire clk) s;
                    selected = select_node s1 req (at_since clk)
                in if nd_NodeID selected = ''''
                   then (Reply (Error 503 ''no authorized host is available for this model''), s1)
                   else
                     (case IssueModel lib rnd (at_issue clk) (lease_secret_for s1 (nd_NodeID selected))
                             (nd_NodeID selected) (lr_Model req) (lr_ModelDigest req) (lr_ModelSize req)
                             (leaseTTL s1 (lr_ModelSize req)) of
                        Inl _ \<Rightarrow> (Reply (Error 500 ''could not issue lease''), s1)
                      | Inr (token, claims) \<Rightarrow>
                          let expiry = reservation_expiry (at_book clk) (cl_ExpiresAt claims)
                          in (Reply (JSON 201
                                \<lparr>ls_LeaseID = cl_Nonce claims, ls_NodeID = nd_NodeID selected,
                                 ls_Endpoint = nd_Endpoint selected, ls_Model = lr_Model req,
                                 ls_Token = token, ls_ExpiresAt = cl_ExpiresAt claims,
                                 ls_ModelDigest = lr_ModelDigest req, ls_ModelSize = lr_ModelSize req,
                                 ls_ModelFormat = lr_ModelFormat req\<rparr>),
                              s1\<lparr>sv_reservations := AList.update (cl_Nonce claims)
                                   \<lparr>rv_nodeID = nd_NodeID selected, rv_expiresAt = expiry\<rparr>
                                   (sv_reservations s1)\<rparr>)))))"

definition releaseLease :: "Server \<Rightarrow> string \<Rightarrow> string \<Rightarrow> bool outcome \<times> Server" where
  "releaseLease s secret leaseID =
     (if \<not> authorizeClient s secret then (Reply (Error 401 ''requester secret is invalid''), s)
      else if leaseID = '''' then (Reply (Error 400 ''lease ID is required''), s)
      else lock_mu s
        (Reply (JSON 200 (map_of (sv_reservations s) leaseID \<noteq> None)),
         s\<lparr>sv_reservations := AList.delete leaseID (sv_reservations s)\<rparr>))"

section \<open>Distributed groups\<close>

definition group_candidate :: "Server \<Rightarrow> DistributedGroupRequest \<Rightarrow> int \<Rightarrow> Node \<Rightarrow> bool" where
  "group_candidate s req now node =
     (let modelSupported = (gr_Model req \<in> set (nd_Models node) \<or>
            (gr_ModelDigest req \<noteq> '''' \<and> nd_DistributedReady node))
      in nd_Available node \<and> rt_Ready (nd_Runtime node) \<and> nd_DistributedReady node \<and> modelSupported \<and>
         now - nd_LastSeen node < seconds 90 \<and> active_tasks s node < nd_MaxConcurrency node \<and>
         (gr_Scope req = '''' \<or> nd_Scope node = gr_Scope req))"

definition group_candidates :: "Server \<Rightarrow> DistributedGroupRequest \<Rightarrow> int \<Rightarrow> Candidate list" where
  "group_candidates s req now =
     map (\<lambda>node. \<lparr>cand_Node = node, cand_Capacity = nodeMemoryCapacity node, cand_Load = node_load s node\<rparr>)
       (filter (group_candidate s req now) (map snd (sv_nodes s)))"

definition delete_all :: "string list \<Rightarrow> (string, 'v) gomap \<Rightarrow> (string, 'v) gomap" where
  "delete_all ids m = foldl (\<lambda>m i. AList.delete i m) m ids"

text \<open>
  The loop that issues a token and books a reservation per stage: the stages with their reservation
  ids and tokens, the reservations and the ids booked; or, when issuing fails, the reservations with
  every id booked so far deleted again.
\<close>

fun reserve_stages :: "json_codec \<Rightarrow> Server \<Rightarrow> DistributedGroupRequest \<Rightarrow> string \<Rightarrow> int \<Rightarrow> int \<Rightarrow> nat \<Rightarrow>
    StageAssignment list \<Rightarrow> byte list option list \<Rightarrow> (string, reservation) gomap \<Rightarrow> string list \<Rightarrow>
    (string, reservation) gomap +
      (StageAssignment list \<times> (string, reservation) gomap \<times> string list)" where
  "reserve_stages lib s req groupID now expires i [] rnds res ids = Inr ([], res, ids)"
| "reserve_stages lib s req groupID now expires i (p # ps) rnds res ids =
     (case IssueStage lib (case rnds of [] \<Rightarrow> None | r # _ \<Rightarrow> r) now (lease_secret_for s (sa_NodeID p))
             (sa_NodeID p) (gr_Model req) (gr_ModelDigest req) (gr_ModelSize req) groupID (int i)
             (sa_LayerStart p) (sa_LayerEnd p) (leaseTTL s (gr_ModelSize req)) of
        Inl _ \<Rightarrow> Inl (delete_all ids res)
      | Inr (token, claims) \<Rightarrow>
          (case reserve_stages lib s req groupID now expires (Suc i) ps (tl rnds)
                  (AList.update (cl_Nonce claims) \<lparr>rv_nodeID = sa_NodeID p, rv_expiresAt = expires\<rparr> res)
                  (ids @ [cl_Nonce claims]) of
             Inl res' \<Rightarrow> Inl res'
           | Inr (ps', res', ids') \<Rightarrow>
               Inr (p\<lparr>sa_ReservationID := cl_Nonce claims, sa_Token := token\<rparr> # ps', res', ids')))"

definition group_planner :: "DistributedGroupRequest \<Rightarrow> Candidate list \<Rightarrow> plan_error + StageAssignment list" where
  "group_planner req candidates =
     (let minNodes = (if gr_MinNodes req = 0 then 2 else gr_MinNodes req);
          maxNodes = (if gr_MaxNodes req = 0 then minNodes else gr_MaxNodes req)
      in if gr_LayerBytes req \<noteq> [] then PlanLayers candidates (gr_LayerBytes req) minNodes maxNodes
         else Plan candidates (gr_LayerCount req) (gr_ModelSize req) minNodes maxNodes)"

definition group_plan :: "Server \<Rightarrow> DistributedGroupRequest \<Rightarrow> int \<Rightarrow> plan_error + StageAssignment list" where
  "group_plan s req now = group_planner req (group_candidates s req now)"

fun plan_message :: "plan_error \<Rightarrow> string" where
  "plan_message TooFewLayers = ''distributed inference requires at least two model layers''"
| "plan_message MaxBelowMin = ''max_nodes must be at least min_nodes''"
| "plan_message NegativeLayer = ''layer sizes must not be negative''"
| "plan_message (TooFewNodes n) = ''need at least '' @ itoa n @ '' available distributed nodes''"
| "plan_message (InsufficientMemory have' need) =
     ''distributed nodes provide '' @ itoa have' @ '' MiB but model layers need about '' @ itoa need @ '' MiB''"
| "plan_message PlanPanic = ''''"

definition createDistributedGroup :: "json_codec \<Rightarrow> Server \<Rightarrow> string \<Rightarrow> DistributedGroupRequest option \<Rightarrow> clock \<Rightarrow>
    byte list option \<Rightarrow> byte list option list \<Rightarrow> DistributedGroup outcome \<times> Server" where
  "createDistributedGroup lib s secret body clk rndGroup rnds =
     (if \<not> authorizeClient s secret then (Reply (Error 401 ''requester secret is invalid''), s)
      else
        (case body of
           None \<Rightarrow> (Reply (Error 400 ''valid distributed model metadata and layer_count are required''), s)
         | Some req \<Rightarrow>
             if gr_Model req = '''' \<or> gr_LayerCount req < 2 \<or> gr_MinNodes req < 0 \<or> gr_MaxNodes req < 0 \<or>
                bad_model_metadata (gr_ModelDigest req) (gr_ModelSize req) (gr_ModelFormat req)
             then (Reply (Error 400 ''valid distributed model metadata and layer_count are required''), s)
             else if gr_Scope req \<noteq> '''' \<and> \<not> valid_scope (gr_Scope req)
             then (Reply (Error 400 ''scope must be local or remote''), s)
             else lock_mu s
               (let s1 = expireReservationsLocked (at_expire clk) s
                in if gr_LayerBytes req \<noteq> [] \<and> int (length (gr_LayerBytes req)) \<noteq> gr_LayerCount req
                   then (Reply (Error 400 ''layer_bytes length must equal layer_count''), s1)
                   else
                     (case group_plan s1 req (at_since clk) of
                        Inl PlanPanic \<Rightarrow> (Aborted, s1\<lparr>sv_mu := True\<rparr>)
                      | Inl e \<Rightarrow> (Reply (Error 503 (plan_message e)), s1)
                      | Inr plan \<Rightarrow>
                          (case randomIdentifier rndGroup of
                             None \<Rightarrow> (Reply (Error 500 ''could not create distributed group''), s1)
                           | Some groupID \<Rightarrow>
                               let expires = at_book clk + minutes 15
                               in (case reserve_stages lib s1 req groupID (at_issue clk) expires 0 plan rnds
                                          (sv_reservations s1) [] of
                                     Inl res \<Rightarrow>
                                       (Reply (Error 500 ''could not issue distributed stage lease''),
                                        s1\<lparr>sv_reservations := res\<rparr>)
                                   | Inr (stages, res, ids) \<Rightarrow>
                                       (Reply (JSON 201
                                          \<lparr>dg_GroupID = groupID, dg_Model = gr_Model req,
                                           dg_ModelDigest = gr_ModelDigest req,
                                           dg_LayerCount = gr_LayerCount req,
                                           dg_HiddenSize = gr_HiddenSize req, dg_Stages = stages,
                                           dg_ExpiresAt = unix expires\<rparr>),
                                        s1\<lparr>sv_reservations := res,
                                          sv_groups := AList.update groupID
                                            \<lparr>gv_reservationIDs = ids, gv_expiresAt = expires\<rparr>
                                            (sv_groups s1)\<rparr>)))))))"

definition releaseDistributedGroup :: "Server \<Rightarrow> string \<Rightarrow> string \<Rightarrow> bool outcome \<times> Server" where
  "releaseDistributedGroup s secret groupID =
     (if \<not> authorizeClient s secret then (Reply (Error 401 ''requester secret is invalid''), s)
      else lock_mu s
        (case map_of (sv_groups s) groupID of
           None \<Rightarrow> (Reply (JSON 200 False), s)
         | Some grp \<Rightarrow>
             (Reply (JSON 200 True),
              s\<lparr>sv_reservations := delete_all (gv_reservationIDs grp) (sv_reservations s),
                sv_groups := AList.delete groupID (sv_groups s)\<rparr>)))"

text \<open>Renewing one reservation, if it is still there.\<close>

definition renew_reservation :: "int \<Rightarrow> (string, reservation) gomap \<Rightarrow> string \<Rightarrow> (string, reservation) gomap" where
  "renew_reservation expires res rid =
     (case map_of res rid of
        None \<Rightarrow> res
      | Some item \<Rightarrow> AList.update rid (item\<lparr>rv_expiresAt := expires\<rparr>) res)"

definition renewDistributedGroup :: "Server \<Rightarrow> string \<Rightarrow> string \<Rightarrow> int \<Rightarrow> (string \<times> int) outcome \<times> Server" where
  "renewDistributedGroup s secret groupID now =
     (if \<not> authorizeClient s secret then (Reply (Error 401 ''requester secret is invalid''), s)
      else lock_mu s
        (let s1 = expireReservationsLocked now s
         in (case map_of (sv_groups s1) groupID of
               None \<Rightarrow> (Reply (Error 404 ''distributed group was not found''), s1)
             | Some grp \<Rightarrow>
                 let expires = now + minutes 15
                 in (Reply (JSON 200 (groupID, unix expires)),
                     s1\<lparr>sv_groups := AList.update groupID (grp\<lparr>gv_expiresAt := expires\<rparr>) (sv_groups s1),
                        sv_reservations := foldl (renew_reservation expires) (sv_reservations s1)
                          (gv_reservationIDs grp)\<rparr>))))"

section \<open>Routing\<close>

datatype request =
    Health
  | RegisterNode string "NodeRegistration option" int
  | ListNodes string int
  | CreateLease string "LeaseRequest option" clock "byte list option"
  | ReleaseLease string string
  | CreateGroup string "DistributedGroupRequest option" clock "byte list option" "byte list option list"
  | ReleaseGroup string string
  | RenewGroup string string int

text \<open>The handler each route of \<open>Handler\<close> runs, by its effect on the server.\<close>

fun serve :: "json_codec \<Rightarrow> Server \<Rightarrow> request \<Rightarrow> Server" where
  "serve lib s Health = s"
| "serve lib s (RegisterNode secret body now) = snd (register s secret body now)"
| "serve lib s (ListNodes secret now) = snd (listNodes s secret now)"
| "serve lib s (CreateLease secret body clk rnd) = snd (createLease lib s secret body clk rnd)"
| "serve lib s (ReleaseLease secret leaseID) = snd (releaseLease s secret leaseID)"
| "serve lib s (CreateGroup secret body clk rg rnds) = snd (createDistributedGroup lib s secret body clk rg rnds)"
| "serve lib s (ReleaseGroup secret groupID) = snd (releaseDistributedGroup s secret groupID)"
| "serve lib s (RenewGroup secret groupID now) = snd (renewDistributedGroup s secret groupID now)"

end
