(* ===== verification/Control_Correct.thy ===== *)
theory Control_Correct
  imports Control
begin

text \<open>
  Correctness of the control plane: the registry invariant and that every route keeps it, the choice
  of the least loaded node, capacity accounting, all-or-nothing group creation, and the agreement of
  a group's expiry with that of its reservations in every reachable state.
\<close>

section \<open>Expiry\<close>

lemma expire_frame [simp, frame_simps]:
  "sv_hostSecret (expireReservationsLocked now s) = sv_hostSecret s"
  "sv_clientSecret (expireReservationsLocked now s) = sv_clientSecret s"
  "sv_leaseSecret (expireReservationsLocked now s) = sv_leaseSecret s"
  "sv_ttl (expireReservationsLocked now s) = sv_ttl s"
  "sv_mu (expireReservationsLocked now s) = sv_mu s"
  "sv_nodes (expireReservationsLocked now s) = sv_nodes s"
  "sv_nodeCredentials (expireReservationsLocked now s) = sv_nodeCredentials s"
  by (simp_all add: expireReservationsLocked_def)

lemma expire_reservations:
  "gomap_ok (sv_reservations s) \<Longrightarrow>
     map_of (sv_reservations (expireReservationsLocked now s)) i =
       (case map_of (sv_reservations s) i of None \<Rightarrow> None | Some r \<Rightarrow> if now < rv_expiresAt r then Some r else None)"
  by (simp add: expireReservationsLocked_def gomap_map_of_filter split: option.splits)

lemma expire_groups:
  "gomap_ok (sv_groups s) \<Longrightarrow>
     map_of (sv_groups (expireReservationsLocked now s)) g =
       (case map_of (sv_groups s) g of None \<Rightarrow> None | Some r \<Rightarrow> if now < gv_expiresAt r then Some r else None)"
  by (simp add: expireReservationsLocked_def gomap_map_of_filter split: option.splits)

lemma expire_idem: "expireReservationsLocked now (expireReservationsLocked now s) = expireReservationsLocked now s"
  by (simp add: expireReservationsLocked_def)

lemma reserved_nonneg [simp]: "0 \<le> reservedForNodeLocked s n"
  by (simp add: reservedForNodeLocked_def)

lemma expire_reserved_le: "reservedForNodeLocked (expireReservationsLocked now s) n \<le> reservedForNodeLocked s n"
  by (simp add: reservedForNodeLocked_def expireReservationsLocked_def gomap_count_filter_le)

section \<open>The registry invariant\<close>

definition node_ok :: "Node \<Rightarrow> bool" where
  "node_ok n \<longleftrightarrow> nd_NodeID n \<noteq> '''' \<and> nd_Endpoint n \<noteq> '''' \<and> valid_scope (nd_Scope n) \<and>
     1 \<le> nd_MaxConcurrency n \<and> 0 \<le> nd_ActiveTasks n \<and> nd_ActiveTasks n \<le> nd_MaxConcurrency n \<and>
     (nd_DistributedReady n \<longrightarrow> nd_StageEndpoint n \<noteq> '''') \<and>
     (nd_Models n = [] \<longrightarrow> nd_AcceptsModelUploads n)"

definition server_ok :: "Server \<Rightarrow> bool" where
  "server_ok s \<longleftrightarrow> gomap_ok (sv_nodes s) \<and> gomap_ok (sv_reservations s) \<and> gomap_ok (sv_groups s) \<and>
     (\<forall>(k, n)\<in>set (sv_nodes s). k = nd_NodeID n \<and> node_ok n)"

lemma server_ok_node: "server_ok s \<Longrightarrow> n \<in> snd ` set (sv_nodes s) \<Longrightarrow> node_ok n"
  by (auto simp: server_ok_def)

lemma server_ok_expire: "server_ok s \<Longrightarrow> server_ok (expireReservationsLocked now s)"
  by (simp add: server_ok_def) (simp add: expireReservationsLocked_def)

lemma delete_all_simps [simp]:
  "delete_all [] m = m" "delete_all (i # is) m = delete_all is (AList.delete i m)"
  by (simp_all add: delete_all_def)

lemma gomap_ok_delete_all [simp]: "gomap_ok m \<Longrightarrow> gomap_ok (delete_all is m)"
  by (induction "is" arbitrary: m) auto

lemma delete_all_filter: "delete_all is m = filter (\<lambda>p. fst p \<notin> set is) m"
  by (induction "is" arbitrary: m) (auto simp: gomap_delete_filter intro: filter_cong)

lemma gomap_ok_renew [simp]: "gomap_ok m \<Longrightarrow> gomap_ok (foldl (renew_reservation e) m is)"
  by (induction "is" arbitrary: m) (auto simp: renew_reservation_def split: option.splits)

text \<open>Booking one reservation per pair of a reservation id and a node.\<close>

definition book_all :: "int \<Rightarrow> (string \<times> string) list \<Rightarrow> (string, reservation) gomap \<Rightarrow> (string, reservation) gomap" where
  "book_all e bs res = foldl (\<lambda>m (i, n). AList.update i \<lparr>rv_nodeID = n, rv_expiresAt = e\<rparr> m) res bs"

lemma book_all_simps [simp]:
  "book_all e [] m = m"
  "book_all e ((i, n) # bs) m = book_all e bs (AList.update i \<lparr>rv_nodeID = n, rv_expiresAt = e\<rparr> m)"
  by (simp_all add: book_all_def)

lemma gomap_ok_book_all [simp]: "gomap_ok m \<Longrightarrow> gomap_ok (book_all e bs m)"
  by (induction bs arbitrary: m) auto

text \<open>
  The stage loop: on success it books one reservation per stage under the encoded nonces; when
  issuing fails it has booked a prefix of the stages and deletes those ids again.
\<close>

lemma stage_layers_token [simp]:
  "stage_layers (p\<lparr>sa_ReservationID := x, sa_Token := t\<rparr>) = stage_layers p"
  by (simp add: stage_layers_def)

lemma reserve_stages_Inr:
  assumes "reserve_stages lib s req g now e i ps rnds res ids = Inr (ps', res', ids')"
  shows "\<exists>xs. take (length ps) rnds = map Some xs \<and> length xs = length ps \<and>
    ids' = ids @ map b64_encode xs \<and> res' = book_all e (zip (map b64_encode xs) (map sa_NodeID ps)) res \<and>
    map sa_ReservationID ps' = map b64_encode xs \<and> map sa_NodeID ps' = map sa_NodeID ps \<and>
    map stage_layers ps' = map stage_layers ps"
  using assms
proof (induction ps arbitrary: i rnds res ids ps' res' ids')
  case (Cons p ps)
  from Cons.prems obtain token claims qs where
    iss: "IssueStage lib (case rnds of [] \<Rightarrow> None | r # _ \<Rightarrow> r) now (lease_secret_for s (sa_NodeID p))
             (sa_NodeID p) (gr_Model req) (gr_ModelDigest req) (gr_ModelSize req) g (int i)
             (sa_LayerStart p) (sa_LayerEnd p) (leaseTTL s (gr_ModelSize req)) = Inr (token, claims)"
    and rest: "reserve_stages lib s req g now e (Suc i) ps (tl rnds)
                  (AList.update (cl_Nonce claims) \<lparr>rv_nodeID = sa_NodeID p, rv_expiresAt = e\<rparr> res)
                  (ids @ [cl_Nonce claims]) = Inr (qs, res', ids')"
    and ps': "ps' = p\<lparr>sa_ReservationID := cl_Nonce claims, sa_Token := token\<rparr> # qs"
    by (auto split: sum.splits)
  from iss obtain x rs where x: "rnds = Some x # rs" "cl_Nonce claims = b64_encode x"
    by (cases rnds) (auto simp: IssueStage_def issueClaims_Inr split: if_splits)
  from Cons.IH [OF rest] obtain xs where xs: "take (length ps) rs = map Some xs" "length xs = length ps"
    "ids' = (ids @ [cl_Nonce claims]) @ map b64_encode xs"
    "res' = book_all e (zip (map b64_encode xs) (map sa_NodeID ps))
       (AList.update (cl_Nonce claims) \<lparr>rv_nodeID = sa_NodeID p, rv_expiresAt = e\<rparr> res)"
    "map sa_ReservationID qs = map b64_encode xs" "map sa_NodeID qs = map sa_NodeID ps"
    "map stage_layers qs = map stage_layers ps" using x by auto
  show ?case
    by (rule exI [of _ "x # xs"]) (use xs x ps' in simp)
qed simp

lemma reserve_stages_Inl:
  assumes "reserve_stages lib s req g now e i ps rnds res ids = Inl res'"
  shows "\<exists>k xs. k \<le> length ps \<and> take k rnds = map Some xs \<and> length xs = k \<and>
    res' = delete_all (ids @ map b64_encode xs) (book_all e (zip (map b64_encode xs) (map sa_NodeID ps)) res)"
  using assms
proof (induction ps arbitrary: i rnds res ids)
  case (Cons p ps)
  let ?iss = "IssueStage lib (case rnds of [] \<Rightarrow> None | r # _ \<Rightarrow> r) now (lease_secret_for s (sa_NodeID p))
             (sa_NodeID p) (gr_Model req) (gr_ModelDigest req) (gr_ModelSize req) g (int i)
             (sa_LayerStart p) (sa_LayerEnd p) (leaseTTL s (gr_ModelSize req))"
  show ?case
  proof (cases ?iss)
    case (Inl e')
    with Cons.prems show ?thesis by (intro exI [of _ 0] exI [of _ "[]"]) simp
  next
    case (Inr tc)
    obtain token claims where tc: "tc = (token, claims)" by fastforce
    with Inr obtain x rs where x: "rnds = Some x # rs" "cl_Nonce claims = b64_encode x"
      by (cases rnds) (auto simp: IssueStage_def issueClaims_Inr split: if_splits)
    from Cons.prems Inr tc have rest: "reserve_stages lib s req g now e (Suc i) ps (tl rnds)
                  (AList.update (cl_Nonce claims) \<lparr>rv_nodeID = sa_NodeID p, rv_expiresAt = e\<rparr> res)
                  (ids @ [cl_Nonce claims]) = Inl res'"
      by (auto split: sum.splits)
    from Cons.IH [OF rest] obtain k xs where "k \<le> length ps" "take k rs = map Some xs" "length xs = k"
      "res' = delete_all ((ids @ [cl_Nonce claims]) @ map b64_encode xs)
         (book_all e (zip (map b64_encode xs) (map sa_NodeID ps))
            (AList.update (cl_Nonce claims) \<lparr>rv_nodeID = sa_NodeID p, rv_expiresAt = e\<rparr> res))"
      using x by auto
    then show ?thesis
      by (intro exI [of _ "Suc k"] exI [of _ "x # xs"]) (simp add: x)
  qed
qed simp

lemma reserve_stages_ok:
  "reserve_stages lib s req g now e i ps rnds res ids = Inl res' \<Longrightarrow> gomap_ok res \<Longrightarrow> gomap_ok res'"
  "reserve_stages lib s req g now e i ps rnds res ids = Inr (ps', res', ids') \<Longrightarrow> gomap_ok res \<Longrightarrow> gomap_ok res'"
  by (auto dest!: reserve_stages_Inl reserve_stages_Inr)

definition same_registry :: "Server \<Rightarrow> Server \<Rightarrow> bool" where
  "same_registry s s' \<longleftrightarrow> sv_nodes s' = sv_nodes s \<and> sv_nodeCredentials s' = sv_nodeCredentials s \<and>
     sv_hostSecret s' = sv_hostSecret s \<and> sv_clientSecret s' = sv_clientSecret s \<and>
     sv_leaseSecret s' = sv_leaseSecret s \<and> sv_ttl s' = sv_ttl s"

lemma server_ok_books:
  "server_ok s \<Longrightarrow> same_registry s s' \<Longrightarrow> gomap_ok (sv_reservations s') \<Longrightarrow> gomap_ok (sv_groups s') \<Longrightarrow>
     server_ok s'"
  by (simp add: server_ok_def same_registry_def)

text \<open>What a route that is not a registration can change.\<close>

lemmas handler_defs = lock_mu_def Let_def

lemma serve_same_registry:
  "(case req of RegisterNode _ _ _ \<Rightarrow> False | _ \<Rightarrow> True) \<Longrightarrow> same_registry s (serve lib s req)"
  by (cases req)
     (auto simp: same_registry_def handler_defs listNodes_def createLease_def releaseLease_def
        createDistributedGroup_def releaseDistributedGroup_def renewDistributedGroup_def
        split: option.splits sum.splits plan_error.splits)

lemma serve_gomap_ok:
  assumes "server_ok s"
  shows "gomap_ok (sv_reservations (serve lib s req)) \<and> gomap_ok (sv_groups (serve lib s req))"
proof -
  have base: "gomap_ok (sv_reservations s)" "gomap_ok (sv_groups s)"
    and exp: "gomap_ok (sv_reservations (expireReservationsLocked t s))"
      "gomap_ok (sv_groups (expireReservationsLocked t s))" for t
    using assms server_ok_expire [OF assms, of t] by (auto simp: server_ok_def)
  show ?thesis
  proof (cases req)
    case (CreateGroup secret body clk rg rnds)
    then show ?thesis using base exp
      by (auto simp: handler_defs createDistributedGroup_def reserve_stages_ok
          split: option.splits sum.splits plan_error.splits)
  next
    case RegisterNode
    then show ?thesis using base
      by (auto simp: handler_defs register_def split: option.splits)
  qed (use base exp in \<open>auto simp: handler_defs listNodes_def createLease_def releaseLease_def
        releaseDistributedGroup_def renewDistributedGroup_def split: option.splits sum.splits\<close>)
qed

lemma registered_node_ok:
  "reg_NodeID req \<noteq> '''' \<Longrightarrow> reg_Endpoint req \<noteq> '''' \<Longrightarrow> (reg_Models req = [] \<longrightarrow> reg_AcceptsModelUploads req) \<Longrightarrow>
   valid_scope scope \<Longrightarrow> 1 \<le> m \<Longrightarrow> 0 \<le> reg_ActiveTasks req \<Longrightarrow> reg_ActiveTasks req \<le> m \<Longrightarrow>
   (reg_DistributedReady req \<longrightarrow> reg_StageEndpoint req \<noteq> '''') \<Longrightarrow> node_ok (registered_node req scope m now)"
  by (auto simp: node_ok_def registered_node_def)

lemma register_effect:
  assumes "register s secret body now = (r, s')"
  shows "s' = s \<or> (\<exists>node. node_ok node \<and> s' = s\<lparr>sv_nodes := AList.update (nd_NodeID node) node (sv_nodes s)\<rparr>
     \<and> r = Reply (JSON 200 node))"
proof (cases "s' = s")
  case False
  from assms False obtain req expected scope0 where
    b: "body = Some req" "reg_NodeID req \<noteq> ''''" "reg_Endpoint req \<noteq> ''''"
    "reg_Models req = [] \<longrightarrow> reg_AcceptsModelUploads req" "registration_terms s req = Some (expected, scope0)"
    by (auto simp: register_def split: option.splits if_splits)
  let ?scope = "if scope0 = '''' then ''remote'' else scope0"
  let ?m = "if reg_MaxConcurrency req \<le> 0 then 1 else reg_MaxConcurrency req"
  let ?node = "registered_node req ?scope ?m now"
  from assms False b have c: "valid_scope ?scope" "0 \<le> reg_ActiveTasks req" "reg_ActiveTasks req \<le> ?m"
    "reg_DistributedReady req \<longrightarrow> reg_StageEndpoint req \<noteq> ''''"
    "s' = s\<lparr>sv_nodes := AList.update (nd_NodeID ?node) ?node (sv_nodes s)\<rparr>" "r = Reply (JSON 200 ?node)"
    unfolding register_def b(1,5) option.case prod.case Let_def lock_mu_def
    by (auto split: if_splits)
  have "node_ok ?node" by (rule registered_node_ok) (use b c in auto)
  with c show ?thesis by blast
qed simp

lemma server_ok_serve:
  assumes "server_ok s"
  shows "server_ok (serve lib s req)"
proof (cases req)
  case (RegisterNode secret body now)
  obtain r s' where r: "register s secret body now = (r, s')" by fastforce
  with register_effect [OF r] assms RegisterNode show ?thesis
    by (auto simp: server_ok_def dest!: gomap_set_update)
qed (use assms serve_gomap_ok [OF assms, of lib req] serve_same_registry [of req s lib] in
      \<open>auto intro: server_ok_books\<close>)

section \<open>Choosing a node for a lease\<close>

text \<open>The order the selection loop minimises: load first, then the most free memory, then the node id.\<close>

definition lease_key :: "Server \<Rightarrow> Node \<Rightarrow> rat \<times> int \<times> string" where
  "lease_key s node = (node_load s node, - availableVRAM node, nd_NodeID node)"

definition best_node :: "Server \<Rightarrow> LeaseRequest \<Rightarrow> int \<Rightarrow> Node list \<Rightarrow> Node \<Rightarrow> bool" where
  "best_node s req now nodes node \<longleftrightarrow> node \<in> set nodes \<and> lease_eligible s req now node \<and>
     (\<forall>n\<in>set nodes. lease_eligible s req now n \<longrightarrow> lease_key s node \<le> lease_key s n)"

lemma select_step_eligible:
  assumes "nd_NodeID selected \<noteq> ''''" "lease_eligible s req now node"
  shows "select_step s req now (selected, node_load s selected) node =
     (if lease_key s node < lease_key s selected then (node, node_load s node) else (selected, node_load s selected))"
  using assms by (auto simp: select_step_def lease_key_def less_prod_def' Let_def)

lemma select_fold:
  assumes "\<forall>n\<in>set nodes. nd_NodeID n \<noteq> ''''"
  shows "if \<exists>n\<in>set nodes. lease_eligible s req now n
         then (\<exists>node. best_node s req now nodes node \<and>
                 foldl (select_step s req now) (zero_node, 2) nodes = (node, node_load s node))
         else foldl (select_step s req now) (zero_node, 2) nodes = (zero_node, 2)"
  using assms
proof (induction nodes rule: rev_induct)
  case (snoc n nodes)
  let ?acc = "foldl (select_step s req now) (zero_node, 2) nodes"
  show ?case
  proof (cases "lease_eligible s req now n")
    case False
    have best: "best_node s req now (nodes @ [n]) b = best_node s req now nodes b" for b
      using False by (auto simp: best_node_def)
    have "select_step s req now acc n = acc" for acc
      using False by (cases acc) (simp add: select_step_def)
    with snoc False best show ?thesis by auto
  next
    case True
    note el = this
    show ?thesis
    proof (cases "\<exists>n\<in>set nodes. lease_eligible s req now n")
      case False
      with snoc el have acc: "?acc = (zero_node, 2)" by simp
      have "best_node s req now (nodes @ [n]) n" using el False by (auto simp: best_node_def)
      with acc el show ?thesis by (auto simp: select_step_def zero_node_def Let_def)
    next
      case True
      with snoc obtain b where b: "best_node s req now nodes b" "?acc = (b, node_load s b)" by auto
      with snoc.prems have "nd_NodeID b \<noteq> ''''" by (auto simp: best_node_def)
      from select_step_eligible [OF this el] b el show ?thesis
        by (auto simp: best_node_def intro: order.trans less_imp_le)
    qed
  qed
qed simp

lemma server_ok_ids: "server_ok s \<Longrightarrow> \<forall>n\<in>set (map snd (sv_nodes s)). nd_NodeID n \<noteq> ''''"
  by (auto simp: server_ok_def node_ok_def)

lemma select_node_none:
  assumes "server_ok s"
  shows "nd_NodeID (select_node s req now) = '''' \<longleftrightarrow>
    (\<forall>n\<in>set (map snd (sv_nodes s)). \<not> lease_eligible s req now n)"
  using select_fold [OF server_ok_ids [OF assms], of s req now] server_ok_ids [OF assms]
  by (force simp: select_node_def best_node_def zero_node_def split: if_splits)

lemma select_node_best:
  assumes "server_ok s" "nd_NodeID (select_node s req now) \<noteq> ''''"
  shows "best_node s req now (map snd (sv_nodes s)) (select_node s req now)"
  using select_fold [OF server_ok_ids [OF assms(1)], of s req now] assms(2) 
  by (auto simp: select_node_def zero_node_def split: if_splits)

lemma best_node_unique:
  assumes "gomap_ok m" "\<forall>(k, n)\<in>set m. k = nd_NodeID n" "set (map snd m) = set nodes'"
    "best_node s req now (map snd m) a" "best_node s req now nodes' b"
  shows "a = b"
proof -
  from assms have ab: "a \<in> snd ` set m" "b \<in> snd ` set m" and "lease_key s a = lease_key s b"
    by (auto simp: best_node_def intro: antisym)
  then have "nd_NodeID a = nd_NodeID b" by (simp add: lease_key_def)
  with ab assms(2) have "(nd_NodeID a, a) \<in> set m" "(nd_NodeID a, b) \<in> set m" by fastforce+
  with assms(1) show ?thesis by (simp add: gomap_mem_iff)
qed

lemma select_node_perm:
  assumes ok: "server_ok s" "server_ok s'" and nodes: "mset (sv_nodes s) = mset (sv_nodes s')"
    and res: "sv_reservations s' = sv_reservations s"
  shows "select_node s' req now = select_node s req now"
proof -
  have same: "active_tasks s' = active_tasks s" "node_load s' = node_load s"
    "lease_eligible s' = lease_eligible s" "lease_key s' = lease_key s"
    using res by (auto simp: fun_eq_iff active_tasks_def node_load_def lease_eligible_def lease_key_def
        reservedForNodeLocked_def)
  then have step: "select_step s' = select_step s" "best_node s' = best_node s"
    by (simp_all add: fun_eq_iff select_step_def best_node_def)
  have set: "set (map snd (sv_nodes s)) = set (map snd (sv_nodes s'))"
    using nodes by (metis mset_eq_setD mset_map)
  show ?thesis
  proof (cases "\<exists>n\<in>set (map snd (sv_nodes s)). lease_eligible s req now n")
    case True
    from True select_fold [OF server_ok_ids [OF ok(1)], of s req now] obtain a where
      "best_node s req now (map snd (sv_nodes s)) a" "select_node s req now = a"
      by (auto simp: select_node_def simp del: set_map)
    moreover from True [unfolded set] select_fold [OF server_ok_ids [OF ok(2)], of s req now] obtain b where
      "best_node s req now (map snd (sv_nodes s')) b" "select_node s' req now = b"
      by (auto simp: select_node_def step simp del: set_map)
    moreover have "gomap_ok (sv_nodes s)" "\<forall>(k, n)\<in>set (sv_nodes s). k = nd_NodeID n"
      using ok(1) by (auto simp: server_ok_def)
    ultimately show ?thesis using set best_node_unique by metis
  next
    case False
    from False select_fold [OF server_ok_ids [OF ok(1)], of s req now]
      False [unfolded set] select_fold [OF server_ok_ids [OF ok(2)], of s req now]
    show ?thesis by (simp add: select_node_def step del: set_map)
  qed
qed

section \<open>What a successful reply tells\<close>

lemma createLease_JSON:
  assumes "createLease lib s secret body clk rnd = (Reply (JSON st lease), s')"
  obtains req token claims where "body = Some req" "secret = sv_clientSecret s" "\<not> sv_mu s" "st = 201"
    "nd_NodeID (select_node (expireReservationsLocked (at_expire clk) s) req (at_since clk)) \<noteq> ''''"
    "IssueModel lib rnd (at_issue clk) (lease_secret_for s (ls_NodeID lease)) (ls_NodeID lease) (lr_Model req)
       (lr_ModelDigest req) (lr_ModelSize req) (leaseTTL s (lr_ModelSize req)) = Inr (token, claims)"
    "ls_NodeID lease = nd_NodeID (select_node (expireReservationsLocked (at_expire clk) s) req (at_since clk))"
    "ls_Endpoint lease = nd_Endpoint (select_node (expireReservationsLocked (at_expire clk) s) req (at_since clk))"
    "ls_Token lease = token" "ls_LeaseID lease = cl_Nonce claims" "ls_ExpiresAt lease = cl_ExpiresAt claims"
    "s' = (expireReservationsLocked (at_expire clk) s)\<lparr>sv_reservations :=
       AList.update (cl_Nonce claims) \<lparr>rv_nodeID = ls_NodeID lease,
           rv_expiresAt = reservation_expiry (at_book clk) (cl_ExpiresAt claims)\<rparr>
         (sv_reservations (expireReservationsLocked (at_expire clk) s))\<rparr>"
proof -
  have "lease_secret_for (expireReservationsLocked t s) n = lease_secret_for s n"
    "leaseTTL (expireReservationsLocked t s) z = leaseTTL s z" for t n z
    by (simp_all add: lease_secret_for_def leaseTTL_def split: option.split)
  with assms show thesis
    by (auto simp: createLease_def authorizeClient_def handler_defs
        split: option.splits sum.splits if_splits intro: that)
qed

end
