(* ===== verification/Control_Leases.thy ===== *)
theory Control_Leases
  imports Control_Correct
begin

text \<open>
  Properties of registering, listing and leasing nodes: which node a lease goes to and when it is
  refused, that the answer does not depend on the iteration order of the node map, that the token
  opens exactly the leased node, and what the node list shows.
\<close>

section \<open>A sample pool\<close>

definition sample_payload :: "byte list" where
  "sample_payload = [7, 8, 9]"

definition sample_nonce :: "byte list" where
  "sample_nonce = [1, 2, 3]"

definition claims_codec :: "LeaseClaims \<Rightarrow> json_codec" where
  "claims_codec c = \<lparr>marshal_claims = (\<lambda>_. Some sample_payload), unmarshal_claims = (\<lambda>bs. if bs = sample_payload then Some c else None)\<rparr>"

definition gpu_node :: "string \<Rightarrow> int \<Rightarrow> int \<Rightarrow> Node" where
  "gpu_node i active free = zero_node\<lparr>nd_NodeID := i, nd_Endpoint := ''http://'' @ i, nd_Models := [''m''],
     nd_Hardware := zero_hardware\<lparr>hw_GPUDevices := [\<lparr>gpu_Index = 0, gpu_Name = ''g'', gpu_UUID = ''u'',
       gpu_MemoryTotalMB = 8000, gpu_MemoryFreeMB = free, gpu_DriverVersion = '''', gpu_ComputeCapability = ''''\<rparr>]\<rparr>,
     nd_Runtime := zero_runtime\<lparr>rt_URL := ''http://127.0.0.1'', rt_Ready := True\<rparr>, nd_Available := True, nd_Scope := ''local'',
     nd_MaxConcurrency := 2, nd_ActiveTasks := active, nd_DistributedReady := True, nd_StageEndpoint := ''s'' @ i\<rparr>"

definition sample_server :: Server where
  "sample_server = (New ''k'' (minutes 10))\<lparr>sv_nodes :=
     [(''b'', gpu_node ''b'' 1 4000), (''c'', gpu_node ''c'' 0 6000), (''a'', gpu_node ''a'' 0 6000)]\<rparr>"

definition sample_clock :: clock where
  "sample_clock = \<lparr>at_expire = seconds 5, at_since = seconds 5, at_issue = seconds 5, at_book = seconds 5\<rparr>"

definition sample_lease_request :: LeaseRequest where
  "sample_lease_request = \<lparr>lr_Model = ''m'', lr_MinVRAMMB = 0, lr_ModelDigest = '''', lr_ModelSize = 0,
     lr_ModelFormat = '''', lr_NodeID = '''', lr_Scope = '''', lr_ExcludeNodeIDs = []\<rparr>"

lemmas sample_pool_simps = sample_server_def gpu_node_def zero_node_def zero_hardware_def zero_runtime_def
  New_def NewWithSecrets_def NewWithNodeCredentials_def

lemma load_half: "load_of 1 2 = 1 / 2"
  by (simp add: load_of_def f64_of_nat_small f64_quot_def f64_scale.simps rne_div_def)

lemma sample_server_ok: "server_ok sample_server"
  by (simp add: server_ok_def sample_pool_simps gomap_ok_def node_ok_def valid_scope_def)

lemma sample_expire: "expireReservationsLocked t sample_server = sample_server"
  by (simp add: expireReservationsLocked_def sample_pool_simps)

lemmas lease_eval = select_node_def select_step_def lease_eligible_def active_tasks_def node_load_def
  reservedForNodeLocked_def gomap_count_def availableVRAM_def hasVRAM_def load_half seconds_def minutes_def
  sample_clock_def sample_lease_request_def

lemma sample_select: "select_node sample_server sample_lease_request (seconds 5) = gpu_node ''a'' 0 6000"
  by (simp add: lease_eval sample_pool_simps)

definition lease_claims :: "Lease \<Rightarrow> LeaseClaims" where
  "lease_claims l = zero_claims\<lparr>cl_NodeID := ls_NodeID l, cl_Model := ls_Model l, cl_ExpiresAt := ls_ExpiresAt l,
     cl_Nonce := ls_LeaseID l, cl_ModelDigest := ls_ModelDigest l, cl_ModelSize := ls_ModelSize l\<rparr>"

definition sample_lease :: Lease where
  "sample_lease = \<lparr>ls_LeaseID = b64_encode sample_nonce, ls_NodeID = ''a'', ls_Endpoint = ''http://a'', ls_Model = ''m'',
     ls_Token = b64_encode sample_payload @ ''.'' @
       b64_encode (sign (string_bytes ''k'') (b64_encode sample_payload)), ls_ExpiresAt = 605,
     ls_ModelDigest = '''', ls_ModelSize = 0, ls_ModelFormat = ''''\<rparr>"

definition leased_server :: Server where
  "leased_server = sample_server\<lparr>sv_reservations :=
     [(ls_LeaseID sample_lease, \<lparr>rv_nodeID = ''a'', rv_expiresAt = seconds 605\<rparr>)]\<rparr>"

lemma sample_createLease:
  "createLease (claims_codec c) sample_server ''k'' (Some sample_lease_request) sample_clock (Some sample_nonce) =
     (Reply (JSON 201 sample_lease), leased_server)"
proof -
  have "leaseTTL sample_server 0 = seconds 600" "sv_clientSecret sample_server = ''k''" "\<not> sv_mu sample_server"
    "sv_reservations sample_server = []" "lease_secret_for sample_server n = string_bytes ''k''" for n
    by (simp_all add: leaseTTL_def lease_secret_for_def sample_pool_simps minutes_def seconds_def)
  moreover have "lr_Model sample_lease_request = ''m''" "lr_ModelDigest sample_lease_request = ''''"
    "lr_ModelSize sample_lease_request = 0" "lr_ModelFormat sample_lease_request = ''''"
    "lr_Scope sample_lease_request = ''''" by (simp_all add: sample_lease_request_def)
  moreover have "at_since sample_clock = seconds 5" by (simp add: sample_clock_def)
  moreover have "IssueModel (claims_codec c) (Some sample_nonce) (at_issue sample_clock) (string_bytes ''k'')
      ''a'' ''m'' '''' 0 (seconds 600) = Inr (ls_Token sample_lease, lease_claims sample_lease)"
    by (simp add: IssueModel_def issueClaims_def claims_codec_def lease_claims_def sample_lease_def
        sample_clock_def unix_def seconds_def zero_claims_def Let_def)
  moreover have "nd_NodeID (gpu_node ''a'' 0 6000) = ''a''" "nd_Endpoint (gpu_node ''a'' 0 6000) = ''http://a''"
    by (simp_all add: gpu_node_def)
  moreover have "reservation_expiry (at_book sample_clock) (cl_ExpiresAt (lease_claims sample_lease)) = seconds 605"
    by (simp add: reservation_expiry_def sample_clock_def lease_claims_def sample_lease_def seconds_def minutes_def)
  ultimately show ?thesis
    by (simp add: createLease_def authorizeClient_def handler_defs sample_expire sample_select bad_model_metadata_def)
       (simp add: lease_claims_def sample_lease_def leased_server_def zero_claims_def)
qed

section \<open>Leases\<close>

text \<open>
  C10. A granted lease goes to the best eligible node: among the registered nodes that are available,
  ready, seen in the last 90 seconds, support the model, meet the memory, target, scope and exclusion
  terms of the request and have a free slot, no other comes before it by load, then by free GPU
  memory, then by node id. The lease names its endpoint, and exactly one reservation is booked for
  it, under the lease id, until the earlier of 15 minutes from now and the token's expiry; the
  unexpired reservations of others stay.
\<close>

theorem lease_goes_to_best_node:
  assumes "server_ok s"
    and "createLease lib s secret (Some req) clk rnd = (Reply (JSON st lease), s')"
    and fresh: "map_of (sv_reservations s) (ls_LeaseID lease) = None"
  shows "\<exists>node. best_node (expireReservationsLocked (at_expire clk) s) req (at_since clk) (map snd (sv_nodes s)) node \<and>
    ls_NodeID lease = nd_NodeID node \<and> ls_Endpoint lease = nd_Endpoint node \<and>
    sv_reservations s' = filter (\<lambda>(_, r). at_expire clk < rv_expiresAt r) (sv_reservations s) @
      [(ls_LeaseID lease, \<lparr>rv_nodeID = nd_NodeID node,
          rv_expiresAt = min (at_book clk + minutes 15) (seconds (ls_ExpiresAt lease))\<rparr>)]"
  using assms(2)
proof (rule createLease_JSON)
  let ?s1 = "expireReservationsLocked (at_expire clk) s"
  fix req' token claims
  assume "Some req = Some req'" "nd_NodeID (select_node ?s1 req' (at_since clk)) \<noteq> ''''"
    and l: "ls_NodeID lease = nd_NodeID (select_node ?s1 req' (at_since clk))"
      "ls_Endpoint lease = nd_Endpoint (select_node ?s1 req' (at_since clk))"
      "ls_LeaseID lease = cl_Nonce claims" "ls_ExpiresAt lease = cl_ExpiresAt claims"
      "s' = ?s1\<lparr>sv_reservations := AList.update (cl_Nonce claims) \<lparr>rv_nodeID = ls_NodeID lease,
           rv_expiresAt = reservation_expiry (at_book clk) (cl_ExpiresAt claims)\<rparr> (sv_reservations ?s1)\<rparr>"
  then have "best_node ?s1 req (at_since clk) (map snd (sv_nodes s)) (select_node ?s1 req (at_since clk))"
    using select_node_best [OF server_ok_expire [OF assms(1)]] by auto
  moreover have "map_of (sv_reservations ?s1) (cl_Nonce claims) = None"
    using assms(1) fresh l(3) by (simp add: server_ok_def expire_reservations)
  ultimately show ?thesis
    using l \<open>Some req = Some req'\<close>
    by (intro exI [of _ "select_node ?s1 req (at_since clk)"])
       (auto simp: gomap_update_new reservation_expiry_def min_def expireReservationsLocked_def)
qed

theorem lease_goes_to_best_node_witness:
  "\<exists>node. best_node sample_server sample_lease_request (seconds 5) (map snd (sv_nodes sample_server)) node \<and>
     nd_NodeID node = ''a''"
proof -
  have "map_of (sv_reservations sample_server) (ls_LeaseID sample_lease) = None"
    by (simp add: sample_pool_simps)
  from lease_goes_to_best_node [OF sample_server_ok sample_createLease this]
  show ?thesis by (auto simp: sample_expire sample_clock_def sample_lease_def)
qed

text \<open>
  C11. An authorised, well-formed lease request on a server whose lock is free is refused with
  status 503 exactly when no registered node is eligible, and then only expiry has changed the state.
\<close>

theorem lease_refused_iff_none_eligible:
  assumes "server_ok s" and "secret = sv_clientSecret s" and "\<not> sv_mu s" and "lr_Model req \<noteq> ''''"
    and "\<not> bad_model_metadata (lr_ModelDigest req) (lr_ModelSize req) (lr_ModelFormat req)"
    and "lr_Scope req = '''' \<or> valid_scope (lr_Scope req)"
  shows "(\<exists>msg. createLease lib s secret (Some req) clk rnd =
            (Reply (Error 503 msg), expireReservationsLocked (at_expire clk) s)) \<longleftrightarrow>
    (\<forall>node\<in>set (map snd (sv_nodes s)).
       \<not> lease_eligible (expireReservationsLocked (at_expire clk) s) req (at_since clk) node)"
  using assms select_node_none [OF server_ok_expire [OF assms(1)], of "at_expire clk" req "at_since clk"]
  by (auto simp: createLease_def authorizeClient_def handler_defs split: sum.splits)

theorem lease_refused_iff_none_eligible_witness:
  "\<exists>msg. createLease (claims_codec zero_claims) sample_server ''k'' (Some (sample_lease_request\<lparr>lr_NodeID := ''z''\<rparr>))
     sample_clock None = (Reply (Error 503 msg), sample_server)"

  using lease_refused_iff_none_eligible [OF sample_server_ok, of "''k''" "sample_lease_request\<lparr>lr_NodeID := ''z''\<rparr>"
      "claims_codec zero_claims" sample_clock None]
  by (simp add: sample_expire) (simp add: sample_pool_simps sample_lease_request_def bad_model_metadata_def lease_eligible_def)

text \<open>
  The reply to a lease request does not depend on the order in which Go iterates over the node
  map: two servers that hold the same nodes in another order give the same reply.
\<close>

theorem lease_independent_of_map_order:
  assumes "server_ok s" and "mset nodes = mset (sv_nodes s)"
  shows "fst (createLease lib (s\<lparr>sv_nodes := nodes\<rparr>) secret body clk rnd) = fst (createLease lib s secret body clk rnd)"
proof -
  let ?e = "expireReservationsLocked (at_expire clk)"
  have "mset (map fst nodes) = mset (map fst (sv_nodes s))" using assms(2) by simp
  then have "distinct (map fst nodes) = distinct (map fst (sv_nodes s))" by (rule mset_eq_imp_distinct_iff)
  then have "gomap_ok nodes" using assms(1) by (simp add: server_ok_def gomap_ok_def)
  moreover have "set nodes = set (sv_nodes s)" by (rule mset_eq_setD) (fact assms(2))
  ultimately have ok: "server_ok (?e (s\<lparr>sv_nodes := nodes\<rparr>))"
    by (intro server_ok_expire) (use assms(1) in \<open>simp add: server_ok_def\<close>)
  have "select_node (?e (s\<lparr>sv_nodes := nodes\<rparr>)) req now = select_node (?e s) req now" for req now
    by (rule select_node_perm [OF server_ok_expire [OF assms(1)] ok])
       (use assms(2) in \<open>simp_all add: expireReservationsLocked_def\<close>)
  moreover have "lease_secret_for (?e (s\<lparr>sv_nodes := nodes\<rparr>)) = lease_secret_for (?e s)"
    "leaseTTL (?e (s\<lparr>sv_nodes := nodes\<rparr>)) = leaseTTL (?e s)"
    by (simp_all add: fun_eq_iff lease_secret_for_def leaseTTL_def split: option.split)
  ultimately show ?thesis
    by (simp add: createLease_def authorizeClient_def handler_defs if_distrib [of fst] option.case_distrib [of fst]
        sum.case_distrib [of fst] prod.case_distrib [of fst] cong: if_cong option.case_cong sum.case_cong)
qed

theorem lease_independent_of_map_order_witness:
  "fst (createLease (claims_codec zero_claims) (sample_server\<lparr>sv_nodes := rev (sv_nodes sample_server)\<rparr>) ''k''
      (Some sample_lease_request) sample_clock (Some sample_nonce)) = Reply (JSON 201 sample_lease)"
  using lease_independent_of_map_order [OF sample_server_ok, of "rev (sv_nodes sample_server)"]
  by (simp add: sample_createLease)

text \<open>
  The token of a granted lease is accepted by the leased node's key until it expires, and shows
  the leased node, model, digest and size; it lasts for the lease time of the model's size.
  The JSON package is assumed to decode these claims to themselves.
\<close>

theorem lease_token_opens_leased_node:
  assumes "createLease lib s secret (Some req) clk rnd = (Reply (JSON st lease), s')"
    and "claims_json lib (lease_claims lease)"
    and "unix now < ls_ExpiresAt lease"
  shows "Verify lib now (lease_secret_for s (ls_NodeID lease)) (ls_Token lease) = Inr (lease_claims lease) \<and>
    ls_Model lease = lr_Model req \<and> ls_ModelDigest lease = lr_ModelDigest req \<and>
    ls_ModelSize lease = lr_ModelSize req \<and>
    ls_ExpiresAt lease = unix (at_issue clk + leaseTTL s (lr_ModelSize req))"
proof -
  from assms(1) have l: "ls_Model lease = lr_Model req" "ls_ModelDigest lease = lr_ModelDigest req"
    "ls_ModelSize lease = lr_ModelSize req"
    by (auto simp: createLease_def handler_defs split: option.splits sum.splits if_splits)
  from assms(1) obtain token claims where
    iss: "IssueModel lib rnd (at_issue clk) (lease_secret_for s (ls_NodeID lease)) (ls_NodeID lease) (lr_Model req)
       (lr_ModelDigest req) (lr_ModelSize req) (leaseTTL s (lr_ModelSize req)) = Inr (token, claims)"
    and c: "ls_Token lease = token" "ls_LeaseID lease = cl_Nonce claims" "ls_ExpiresAt lease = cl_ExpiresAt claims"
    by (rule createLease_JSON) auto
  then have claims: "claims = lease_claims lease"
    by (auto simp: IssueModel_def issueClaims_Inr lease_claims_def l)
  from iss have "cl_ExpiresAt claims = unix (at_issue clk + leaseTTL s (lr_ModelSize req))"
    by (auto simp: IssueModel_def issueClaims_Inr)
  with Verify_issueClaims [OF iss [unfolded IssueModel_def]] assms(2,3) c l claims show ?thesis by auto
qed

theorem lease_token_opens_leased_node_witness:
  "Verify (claims_codec (lease_claims sample_lease)) (seconds 604) (string_bytes ''k'') (ls_Token sample_lease) =
     Inr (lease_claims sample_lease)"
proof -
  have "claims_json (claims_codec (lease_claims sample_lease)) (lease_claims sample_lease)"
    by (simp add: claims_json_def claims_codec_def)
  moreover have "unix (seconds 604) < ls_ExpiresAt sample_lease"
    by (simp add: sample_lease_def unix_def seconds_def)
  ultimately have "Verify (claims_codec (lease_claims sample_lease)) (seconds 604)
      (lease_secret_for sample_server (ls_NodeID sample_lease)) (ls_Token sample_lease) = Inr (lease_claims sample_lease)"
    using lease_token_opens_leased_node [OF sample_createLease] by blast
  then show ?thesis by (simp add: lease_secret_for_def sample_pool_simps)
qed

section \<open>The node list\<close>

text \<open>
  The node list shows every registered node once, in the order of the ids, without the address
  of its runtime, and with the number of unexpired reservations it holds; the rest of a node is shown
  as it registered.
\<close>

theorem node_list_sorted_and_redacted:
  assumes "server_ok s" and "secret = sv_clientSecret s" and "\<not> sv_mu s"
  shows "\<exists>nodes. fst (listNodes s secret now) = Reply (JSON 200 nodes) \<and>
    sorted_wrt (\<lambda>a b. nd_NodeID a < nd_NodeID b) nodes \<and>
    (\<forall>n. n \<in> set nodes \<longleftrightarrow>
      (\<exists>node. map_of (sv_nodes s) (nd_NodeID n) = Some node \<and>
         n = node\<lparr>nd_Runtime := (nd_Runtime node)\<lparr>rt_URL := ''''\<rparr>,
               nd_ReservedTasks := int (gomap_count (\<lambda>(_, r). rv_nodeID r = nd_NodeID node \<and> now < rv_expiresAt r)
                 (sv_reservations s))\<rparr>))"
proof -
  let ?s1 = "expireReservationsLocked now s"
  let ?show = "\<lambda>node. node\<lparr>nd_Runtime := (nd_Runtime node)\<lparr>rt_URL := ''''\<rparr>,
                 nd_ReservedTasks := reservedForNodeLocked ?s1 (nd_NodeID node)\<rparr>"
  let ?nodes = "sort_key nd_NodeID (map (\<lambda>(_, node). ?show node) (sv_nodes s))"
  have ids: "map nd_NodeID (map (\<lambda>(_, node). ?show node) (sv_nodes s)) = map fst (sv_nodes s)"
    using assms(1) by (auto simp: server_ok_def)
  have "mset (map nd_NodeID ?nodes) = mset (map nd_NodeID (map (\<lambda>(_, node). ?show node) (sv_nodes s)))"
    by (simp only: mset_map mset_sort)
  also have "\<dots> = mset (map fst (sv_nodes s))" by (simp only: ids)
  finally have "distinct (map nd_NodeID ?nodes) = distinct (map fst (sv_nodes s))"
    by (rule mset_eq_imp_distinct_iff)
  then have "distinct (map nd_NodeID ?nodes)" using assms(1) by (simp add: server_ok_def gomap_ok_def)
  then have "sorted_wrt (<) (map nd_NodeID ?nodes)" by (simp add: strict_sorted_iff)
  moreover have "reservedForNodeLocked ?s1 i = int (gomap_count (\<lambda>(_, r). rv_nodeID r = i \<and> now < rv_expiresAt r)
      (sv_reservations s))" for i
    by (simp add: reservedForNodeLocked_def gomap_count_def expireReservationsLocked_def case_prod_unfold conj_commute)
  moreover have "n \<in> set ?nodes \<longleftrightarrow> (\<exists>node. map_of (sv_nodes s) (nd_NodeID n) = Some node \<and> n = ?show node)" for n
  proof
    assume "n \<in> set ?nodes"
    then obtain k node where k: "(k, node) \<in> set (sv_nodes s)" "n = ?show node" by auto
    with assms(1) have "k = nd_NodeID n" by (auto simp: server_ok_def)
    with k assms(1) show "\<exists>node. map_of (sv_nodes s) (nd_NodeID n) = Some node \<and> n = ?show node"
      by (auto simp: server_ok_def gomap_mem_iff)
  next
    assume "\<exists>node. map_of (sv_nodes s) (nd_NodeID n) = Some node \<and> n = ?show node"
    then show "n \<in> set ?nodes" by (auto dest!: map_of_SomeD)
  qed
  moreover have "fst (listNodes s secret now) = Reply (JSON 200 ?nodes)"
    using assms(2,3) sort_slice_key [of "\<lambda>a b. nd_NodeID a < nd_NodeID b" nd_NodeID]
    by (simp add: listNodes_def authorizeClient_def handler_defs)
  ultimately show ?thesis by (intro exI [of _ ?nodes]) (simp add: sorted_wrt_map)
qed

theorem node_list_sorted_and_redacted_witness:
  "\<exists>nodes. fst (listNodes leased_server ''k'' (seconds 6)) = Reply (JSON 200 nodes) \<and>
     sorted_wrt (\<lambda>a b. nd_NodeID a < nd_NodeID b) nodes"
proof -
  have "server_ok leased_server"
    using sample_server_ok by (simp add: server_ok_def leased_server_def gomap_ok_def sample_pool_simps)
  moreover have "sv_clientSecret leased_server = ''k''" "\<not> sv_mu leased_server"
    by (simp_all add: leased_server_def sample_pool_simps)
  ultimately show ?thesis
    using node_list_sorted_and_redacted [of leased_server "''k''" "seconds 6"] by auto
qed

section \<open>Lease times\<close>

text \<open>
  For models up to four petabytes the lease lasts for the configured time or, when that is
  longer, for ten minutes and a second per 512 KiB of model, at most six hours.
\<close>

theorem lease_time_covers_upload:
  assumes "modelSize \<le> 4000000000000000"
  shows "leaseTTL s modelSize = (if 0 < modelSize
    then max (sv_ttl s) (min (minutes 360) (seconds (modelSize div 524288) + minutes 10)) else sv_ttl s)"
proof -
  let ?q = "modelSize div 524288"
  have "0 \<le> ?q \<and> ?q \<le> 8000000000" if "0 < modelSize"
    using assms that by (auto simp: pos_imp_zdiv_nonneg_iff) 
  then have "i64 (?q * 1000000000) = ?q * 1000000000"
    "i64 (?q * 1000000000 + 600000000000) = ?q * 1000000000 + 600000000000" if "0 < modelSize"
    using that by (auto intro!: i64_id_nonneg)
  then show ?thesis by (auto simp: leaseTTL_def seconds_def minutes_def Let_def)
qed

theorem lease_time_covers_upload_witness:
  "leaseTTL (New ''k'' (minutes 5)) 1073741824 = seconds 2648"
  using lease_time_covers_upload [of 1073741824 "New ''k'' (minutes 5)"]
  by (simp add: New_def NewWithSecrets_def NewWithNodeCredentials_def minutes_def seconds_def)

text \<open>
  Above that the multiplication wraps: a lease for a model of five petabytes gets the configured
  time only, not the six hours of the cap.
\<close>

lemma lease_time_wraps:
  "leaseTTL (New ''k'' (minutes 5)) 5000000000000000 = minutes 5"
  by (simp add: leaseTTL_def New_def NewWithSecrets_def NewWithNodeCredentials_def minutes_def seconds_def i64_def)

end
