(* ===== verification/Control_Groups.thy ===== *)
theory Control_Groups
  imports Control_Leases
begin

text \<open>
  Properties of distributed groups and of capacity: what each route does to the reservations of a
  node, that a group is booked entirely or not at all, that renewal and release act on all
  reservations of a group, and that in every reachable state the expiry of a group and of its
  reservations agree. Ends with the panic that loses the server's lock.
\<close>

section \<open>Counting reservations\<close>

lemma gomap_count_update_same:
  "map_of m k = Some v \<Longrightarrow> P (k, v') = P (k, v) \<Longrightarrow> gomap_count P (AList.update k v' m) = gomap_count P m"
  by (induction m) (auto simp: gomap_count_def split: if_splits)

abbreviation held_by :: "string \<Rightarrow> (string, reservation) gomap \<Rightarrow> nat" where
  "held_by n res \<equiv> gomap_count (\<lambda>(i, item). rv_nodeID item = n) res"

lemma held_by_renew: "held_by n (foldl (renew_reservation e) res ids) = held_by n res"
  by (induction ids arbitrary: res)
     (auto simp: renew_reservation_def gomap_count_update_same split: option.splits)

lemma held_by_delete_all: "held_by n (delete_all ids res) \<le> held_by n res"
  by (simp add: delete_all_filter gomap_count_filter_le)

lemma held_by_book_all:
  "held_by n (book_all e bs res) \<le> held_by n res + length (filter (\<lambda>(i, x). x = n) bs)"
proof (induction bs arbitrary: res)
  case (Cons b bs)
  obtain i x where [simp]: "b = (i, x)" by fastforce
  have "held_by n (AList.update i \<lparr>rv_nodeID = x, rv_expiresAt = e\<rparr> res) \<le> held_by n res + (if x = n then 1 else 0)"
    using gomap_count_update_le [of "\<lambda>(i, item). rv_nodeID item = n" i "\<lparr>rv_nodeID = x, rv_expiresAt = e\<rparr>" res] by simp
  with Cons.IH [of "AList.update i \<lparr>rv_nodeID = x, rv_expiresAt = e\<rparr> res"] show ?case by (auto split: if_splits)
qed simp

lemma zip_filter_snd: "length xs = length ys \<Longrightarrow> length (filter (\<lambda>(i, x). x = n) (zip xs ys)) = count_list ys n"
  by (induction xs ys rule: list_induct2) auto

lemma held_by_book_distinct:
  assumes "length ids = length ns" "distinct ns"
  shows "held_by n (book_all e (zip ids ns) res) \<le> held_by n res + (if n \<in> set ns then 1 else 0)"
proof -
  have "count_list ns n = (if n \<in> set ns then 1 else 0)"
    using assms(2) by (induction ns) auto
  with held_by_book_all [of n e "zip ids ns" res] zip_filter_snd [OF assms(1), of n] show ?thesis by simp
qed

text \<open>Deleting what was booked leaves a part of what was there.\<close>

lemma delete_booked: "delete_all (ids @ map fst bs) (book_all e bs res) = delete_all (ids @ map fst bs) res"
proof (induction bs arbitrary: res ids)
  case (Cons b bs)
  obtain i x where [simp]: "b = (i, x)" by fastforce
  have "filter (\<lambda>p. fst p \<noteq> i \<and> P p) (AList.update i v res) = filter (\<lambda>p. fst p \<noteq> i \<and> P p) res" for P v
    by (induction res) auto
  with Cons.IH [of "ids @ [i]" "AList.update i \<lparr>rv_nodeID = x, rv_expiresAt = e\<rparr> res"] show ?case
    by (simp add: delete_all_filter)
qed simp

section \<open>The plan of a group\<close>

text \<open>Either planner serves: what the group handler relies on is the contract of both.\<close>

lemma group_planner_cases:
  obtains lb mn mx where "group_planner req = (\<lambda>cs. PlanLayers cs lb mn mx)"
  | n sz mn mx where "group_planner req = (\<lambda>cs. Plan cs n sz mn mx)"
  by (cases "gr_LayerBytes req = []") (force simp: group_planner_def Let_def fun_eq_iff)+

interpretation group_plans: layer_planner "group_planner req" for req
proof (rule group_planner_cases [of req])
  show "layer_planner (group_planner req)" if "group_planner req = (\<lambda>cs. PlanLayers cs lb mn mx)" for lb mn mx
    unfolding that by (rule layers_plan.layer_planner_axioms)
  show "layer_planner (group_planner req)" if "group_planner req = (\<lambda>cs. Plan cs n sz mn mx)" for n sz mn mx
    unfolding that by (rule even_plan.layer_planner_axioms)
qed

lemma group_plan_facts:
  assumes "group_plan s req now = Inr plan"
  shows "2 \<le> length plan"
    and "server_ok s \<Longrightarrow> distinct (map sa_NodeID plan)"
    and "server_ok s \<Longrightarrow> p \<in> set plan \<Longrightarrow> \<exists>node. map_of (sv_nodes s) (sa_NodeID p) = Some node \<and> group_candidate s req now node"
    and "p \<in> set plan \<Longrightarrow> 0 \<le> sa_LayerStart p \<and> sa_LayerStart p < sa_LayerEnd p"
proof -
  let ?cs = "group_candidates s req now"
  have pl: "group_planner req ?cs = Inr plan" using assms by (simp add: group_plan_def)
  note p = group_plans.plan_len [OF pl] group_plans.plan_subset [OF pl] group_plans.plan_distinct [OF pl]
    group_plans.plan_range [OF pl]
  show "2 \<le> length plan" "p \<in> set plan \<Longrightarrow> 0 \<le> sa_LayerStart p \<and> sa_LayerStart p < sa_LayerEnd p"
    using p by auto
  show "distinct (map sa_NodeID plan)" if ok: "server_ok s"
  proof (rule p(3))
    have "map nd_NodeID (map snd (sv_nodes s)) = map fst (sv_nodes s)"
      using ok by (auto simp: server_ok_def)
    moreover have "distinct (map fst (sv_nodes s))" using ok by (simp add: server_ok_def gomap_ok_def)
    ultimately have "distinct (map nd_NodeID (map snd (sv_nodes s)))" by (simp only:)
    then have "distinct (map nd_NodeID (filter (group_candidate s req now) (map snd (sv_nodes s))))"
      by (rule distinct_map_filter)
    then show "distinct_candidates ?cs" by (simp add: distinct_candidates_def group_candidates_def comp_def)
  qed
  show "\<exists>node. map_of (sv_nodes s) (sa_NodeID p) = Some node \<and> group_candidate s req now node"
    if ok: "server_ok s" and "p \<in> set plan"
  proof -
    have "sa_NodeID p \<in> set (map (nd_NodeID \<circ> cand_Node) ?cs)" using p(2) that(2) by auto
    then obtain k node where "(k, node) \<in> set (sv_nodes s)" "group_candidate s req now node" "sa_NodeID p = nd_NodeID node"
      by (auto simp: group_candidates_def)
    with ok show ?thesis by (auto simp: server_ok_def gomap_mem_iff [symmetric])
  qed
qed

section \<open>The effect of the group handler\<close>

lemma createDistributedGroup_cases:
  assumes "createDistributedGroup lib s secret body clk rg rnds = (r, s')"
  obtains (refused) "\<forall>st g. r \<noteq> Reply (JSON st g)" "r \<noteq> Aborted" "s' = s \<or> s' = expireReservationsLocked (at_expire clk) s"
  | (panic) req where "body = Some req" "r = Aborted" "secret = sv_clientSecret s"
      "s' = (expireReservationsLocked (at_expire clk) s)\<lparr>sv_mu := True\<rparr>"
  | (rollback) req plan xs where "body = Some req" "r = Reply (Error 500 ''could not issue distributed stage lease'')"
      "group_plan (expireReservationsLocked (at_expire clk) s) req (at_since clk) = Inr plan"
      "length xs \<le> length plan" "take (length xs) rnds = map Some xs"
      "s' = (expireReservationsLocked (at_expire clk) s)\<lparr>sv_reservations :=
         delete_all (map b64_encode xs) (sv_reservations (expireReservationsLocked (at_expire clk) s))\<rparr>"
  | (booked) req plan xs g gid where "body = Some req" "r = Reply (JSON 201 g)" "secret = sv_clientSecret s" "\<not> sv_mu s"
      "group_plan (expireReservationsLocked (at_expire clk) s) req (at_since clk) = Inr plan"
      "rg = Some gid" "length xs = length plan" "take (length plan) rnds = map Some xs"
      "dg_GroupID g = b64_encode gid" "map sa_ReservationID (dg_Stages g) = map b64_encode xs"
      "map sa_NodeID (dg_Stages g) = map sa_NodeID plan" "map stage_layers (dg_Stages g) = map stage_layers plan"
      "s' = (expireReservationsLocked (at_expire clk) s)\<lparr>sv_reservations :=
          book_all (at_book clk + minutes 15) (zip (map b64_encode xs) (map sa_NodeID plan))
            (sv_reservations (expireReservationsLocked (at_expire clk) s)),
         sv_groups := AList.update (b64_encode gid)
            \<lparr>gv_reservationIDs = map b64_encode xs, gv_expiresAt = at_book clk + minutes 15\<rparr>
            (sv_groups (expireReservationsLocked (at_expire clk) s))\<rparr>"
proof -
  let ?s1 = "expireReservationsLocked (at_expire clk) s"
  let ?e = "at_book clk + minutes 15"
  show thesis
  proof (cases "\<exists>req plan gid. body = Some req \<and> secret = sv_clientSecret s \<and> \<not> sv_mu s \<and> rg = Some gid \<and>
      group_plan ?s1 req (at_since clk) = Inr plan \<and> createDistributedGroup lib s secret body clk rg rnds =
        (case reserve_stages lib ?s1 req (b64_encode gid) (at_issue clk) ?e 0 plan rnds (sv_reservations ?s1) [] of
           Inl res \<Rightarrow> (Reply (Error 500 ''could not issue distributed stage lease''), ?s1\<lparr>sv_reservations := res\<rparr>)
         | Inr (stages, res, ids) \<Rightarrow>
             (Reply (JSON 201 \<lparr>dg_GroupID = b64_encode gid, dg_Model = gr_Model req, dg_ModelDigest = gr_ModelDigest req,
                dg_LayerCount = gr_LayerCount req, dg_HiddenSize = gr_HiddenSize req, dg_Stages = stages,
                dg_ExpiresAt = unix ?e\<rparr>),
              ?s1\<lparr>sv_reservations := res, sv_groups := AList.update (b64_encode gid)
                 \<lparr>gv_reservationIDs = ids, gv_expiresAt = ?e\<rparr> (sv_groups ?s1)\<rparr>))")
    case True
    then obtain req plan gid where b: "body = Some req" "secret = sv_clientSecret s" "\<not> sv_mu s" "rg = Some gid"
      "group_plan ?s1 req (at_since clk) = Inr plan" and
      run: "(r, s') = (case reserve_stages lib ?s1 req (b64_encode gid) (at_issue clk) ?e 0 plan rnds (sv_reservations ?s1) [] of
           Inl res \<Rightarrow> (Reply (Error 500 ''could not issue distributed stage lease''), ?s1\<lparr>sv_reservations := res\<rparr>)
         | Inr (stages, res, ids) \<Rightarrow>
             (Reply (JSON 201 \<lparr>dg_GroupID = b64_encode gid, dg_Model = gr_Model req, dg_ModelDigest = gr_ModelDigest req,
                dg_LayerCount = gr_LayerCount req, dg_HiddenSize = gr_HiddenSize req, dg_Stages = stages,
                dg_ExpiresAt = unix ?e\<rparr>),
              ?s1\<lparr>sv_reservations := res, sv_groups := AList.update (b64_encode gid)
                 \<lparr>gv_reservationIDs = ids, gv_expiresAt = ?e\<rparr> (sv_groups ?s1)\<rparr>))"
      using assms by auto
    show thesis
    proof (cases "reserve_stages lib ?s1 req (b64_encode gid) (at_issue clk) ?e 0 plan rnds (sv_reservations ?s1) []")
      case (Inl res)
      from reserve_stages_Inl [OF Inl] obtain xs where xs: "length xs \<le> length plan" "take (length xs) rnds = map Some xs"
        "res = delete_all (map b64_encode xs) (book_all ?e (zip (map b64_encode xs) (map sa_NodeID plan)) (sv_reservations ?s1))"
        by auto
      have "map fst (zip (map b64_encode xs) (map sa_NodeID plan)) = map b64_encode xs"
        using xs(1) by (simp add: map_fst_zip_take)
      with delete_booked [of "[]" "zip (map b64_encode xs) (map sa_NodeID plan)" ?e "sv_reservations ?s1"] xs(3)
      have "res = delete_all (map b64_encode xs) (sv_reservations ?s1)" by simp
      with Inl run xs b show thesis by (intro rollback [of req plan xs]) auto
    next
      case (Inr a)
      obtain stages res ids where a: "a = (stages, res, ids)" by (cases a)
      from reserve_stages_Inr [OF Inr [unfolded a]] obtain xs where "take (length plan) rnds = map Some xs"
        "length xs = length plan" "ids = map b64_encode xs" "res = book_all ?e (zip (map b64_encode xs) (map sa_NodeID plan)) (sv_reservations ?s1)"
        "map sa_ReservationID stages = map b64_encode xs" "map sa_NodeID stages = map sa_NodeID plan"
        "map stage_layers stages = map stage_layers plan" by auto
      with Inr a run b show thesis by (intro booked) auto
    qed
  next
    case False
    with assms show thesis
      by (auto simp: createDistributedGroup_def authorizeClient_def handler_defs randomIdentifier_def
          split: if_splits option.splits sum.splits plan_error.splits intro: refused panic)
  qed
qed

section \<open>Admission\<close>

lemma lease_admits:
  assumes "server_ok s" "createLease lib s secret body clk rnd = (r, s')"
  shows "sv_reservations s' = sv_reservations s \<or> sv_reservations s' = sv_reservations (expireReservationsLocked (at_expire clk) s) \<or>
    (\<exists>k v node. sv_reservations s' = AList.update k v (sv_reservations (expireReservationsLocked (at_expire clk) s)) \<and>
       rv_nodeID v = nd_NodeID node \<and> map_of (sv_nodes s) (nd_NodeID node) = Some node \<and> nd_Available node \<and>
       rt_Ready (nd_Runtime node) \<and> active_tasks (expireReservationsLocked (at_expire clk) s) node < nd_MaxConcurrency node)"
proof (cases "\<exists>st lease. r = Reply (JSON st lease)")
  case True
  let ?s1 = "expireReservationsLocked (at_expire clk) s"
  from True assms(2) obtain req st lease where r: "r = Reply (JSON st lease)" "body = Some req"
    by (auto elim: createLease_JSON)
  from assms(2) [unfolded r] show ?thesis
  proof (rule createLease_JSON)
    fix req' token claims
    let ?n = "select_node ?s1 req' (at_since clk)"
    assume a: "nd_NodeID ?n \<noteq> ''''" "ls_NodeID lease = nd_NodeID ?n"
      "s' = ?s1\<lparr>sv_reservations := AList.update (cl_Nonce claims) \<lparr>rv_nodeID = ls_NodeID lease,
           rv_expiresAt = reservation_expiry (at_book clk) (cl_ExpiresAt claims)\<rparr> (sv_reservations ?s1)\<rparr>"
    from select_node_best [OF server_ok_expire [OF assms(1)] a(1)]
    have "?n \<in> snd ` set (sv_nodes s)" "lease_eligible ?s1 req' (at_since clk) ?n"
      by (auto simp: best_node_def)
    moreover from this(1) assms(1) have "map_of (sv_nodes s) (nd_NodeID ?n) = Some ?n"
      by (auto simp: server_ok_def gomap_mem_iff [symmetric])
    ultimately show ?thesis using a
      by (intro disjI2, intro exI [of _ "cl_Nonce claims"] exI [of _ "\<lparr>rv_nodeID = ls_NodeID lease,
           rv_expiresAt = reservation_expiry (at_book clk) (cl_ExpiresAt claims)\<rparr>"] exI [of _ ?n])
         (auto simp: lease_eligible_def Let_def)
  qed
next
  case False
  with assms(2) show ?thesis
    by (auto simp: createLease_def handler_defs split: if_splits option.splits sum.splits)
qed

text \<open>
  The server \<open>s1\<close>, with its expired reservations removed, had a slot for one more reservation of node
  \<open>n\<close>, and \<open>s'\<close> holds no more than that.
\<close>

definition admitted_by :: "Server \<Rightarrow> Server \<Rightarrow> string \<Rightarrow> Node \<Rightarrow> bool" where
  "admitted_by s1 s' n node \<longleftrightarrow> map_of (sv_nodes s1) n = Some node \<and> nd_Available node \<and> rt_Ready (nd_Runtime node) \<and>
     nd_NodeID node = n \<and> active_tasks s1 node < nd_MaxConcurrency node \<and>
     held_by n (sv_reservations s') \<le> Suc (held_by n (sv_reservations s1))"

lemma expire_held_le: "held_by n (sv_reservations (expireReservationsLocked t s)) \<le> held_by n (sv_reservations s)"
  using expire_reserved_le [of t s n] by (simp add: reservedForNodeLocked_def)

lemma lease_grows:
  assumes "server_ok s" "createLease lib s secret body clk rnd = (r, s')"
    "held_by n (sv_reservations s) < held_by n (sv_reservations s')"
  shows "\<exists>node. admitted_by (expireReservationsLocked (at_expire clk) s) s' n node"
proof -
  let ?s1 = "expireReservationsLocked (at_expire clk) s"
  note exp = expire_held_le [of n "at_expire clk" s]
  from lease_admits [OF assms(1,2)] assms(3) exp obtain k v node where
    up: "sv_reservations s' = AList.update k v (sv_reservations ?s1)"
    and v: "rv_nodeID v = nd_NodeID node" "map_of (sv_nodes s) (nd_NodeID node) = Some node" "nd_Available node"
     "rt_Ready (nd_Runtime node)" "active_tasks ?s1 node < nd_MaxConcurrency node"
    by (fastforce simp: not_less [symmetric])
  note le = gomap_count_update_le [of "\<lambda>(i, item). rv_nodeID item = n" k v "sv_reservations ?s1"]
  have "nd_NodeID node = n" using le up v assms(3) exp by (auto split: if_splits)
  with v le up have "admitted_by ?s1 s' n node" by (simp add: admitted_by_def)
  then show ?thesis ..
qed

lemma group_grows:
  assumes "server_ok s" "createDistributedGroup lib s secret body clk rg rnds = (r, s')"
    "held_by n (sv_reservations s) < held_by n (sv_reservations s')"
  shows "\<exists>node. admitted_by (expireReservationsLocked (at_expire clk) s) s' n node"
  using assms(2)
proof (cases rule: createDistributedGroup_cases)
  let ?s1 = "expireReservationsLocked (at_expire clk) s"
  note exp = expire_held_le [of n "at_expire clk" s]
  {
    case (booked q plan xs g gid)
    have s1: "server_ok ?s1" by (rule server_ok_expire [OF assms(1)])
    note held = held_by_book_distinct [of "map b64_encode xs" "map sa_NodeID plan" n "at_book clk + minutes 15"
        "sv_reservations ?s1", OF _ group_plan_facts(2) [OF booked(5) s1]]
    with booked assms(3) exp have "n \<in> set (map sa_NodeID plan)" by (auto split: if_splits)
    then obtain p where p: "p \<in> set plan" "n = sa_NodeID p" by auto
    from group_plan_facts(3) [OF booked(5) s1 p(1)] obtain node where
      node: "map_of (sv_nodes s) n = Some node" "group_candidate ?s1 q (at_since clk) node" by (auto simp: p)
    with assms(1) have "nd_NodeID node = n" by (auto simp: server_ok_def dest!: map_of_SomeD)
    with node held booked have "admitted_by ?s1 s' n node"
      by (auto simp: admitted_by_def group_candidate_def Let_def split: if_splits)
    then show ?thesis ..
  next
    case (rollback q plan xs)
    with assms(3) exp held_by_delete_all [of n "map b64_encode xs" "sv_reservations ?s1"] have False by simp
    then show ?thesis ..
  }
qed (use assms(3) expire_held_le [of n "at_expire clk" s] in \<open>auto simp: not_less [symmetric]\<close>)

text \<open>No other request makes the number of reservations of a node grow.\<close>

lemma only_bookings_grow:
  assumes "held_by n (sv_reservations s) < held_by n (sv_reservations (serve lib s req))"
  obtains (lease) secret body clk rnd where "req = CreateLease secret body clk rnd"
  | (grp) secret body clk rg rnds where "req = CreateGroup secret body clk rg rnds"
proof (cases req)
  case (RegisterNode secret body now)
  obtain r s' where run: "register s secret body now = (r, s')" by fastforce
  from register_effect [OF run] have "sv_reservations s' = sv_reservations s" by auto
  with RegisterNode assms run show ?thesis by simp
next
  case ListNodes
  with assms expire_held_le show ?thesis
    by (auto simp: listNodes_def handler_defs not_less [symmetric] split: if_splits)
next
  case (ReleaseLease secret i)
  with gomap_count_delete_le [of "\<lambda>(i, item). rv_nodeID item = n" i "sv_reservations s"]
  have "held_by n (sv_reservations (serve lib s req)) \<le> held_by n (sv_reservations s)"
    by (auto simp: releaseLease_def handler_defs)
  with assms show ?thesis by simp
next
  case ReleaseGroup
  with held_by_delete_all [of n _ "sv_reservations s"]
  have "held_by n (sv_reservations (serve lib s req)) \<le> held_by n (sv_reservations s)"
    by (auto simp: releaseDistributedGroup_def handler_defs split: option.splits)
  with assms show ?thesis by simp
next
  case RenewGroup
  with assms expire_held_le show ?thesis
    by (auto simp: renewDistributedGroup_def handler_defs not_less [symmetric] held_by_renew split: if_splits option.splits)
qed (use assms that in auto)

text \<open>
  C12. Admission control over every route. Whenever a request makes the number of reservations a node
  holds grow, the node is registered, available and ready, it had a free slot by its own report and
  by the reservations, the number grows by exactly one and does not pass its concurrency limit.
\<close>

theorem admission_control:
  assumes "server_ok s" and "reservedForNodeLocked s n < reservedForNodeLocked (serve lib s req) n"
  shows "\<exists>node. map_of (sv_nodes s) n = Some node \<and> nd_Available node \<and> rt_Ready (nd_Runtime node) \<and>
    nd_ActiveTasks node < nd_MaxConcurrency node \<and>
    reservedForNodeLocked (serve lib s req) n = reservedForNodeLocked s n + 1 \<and>
    reservedForNodeLocked (serve lib s req) n \<le> nd_MaxConcurrency node"
proof -
  have grow: "held_by n (sv_reservations s) < held_by n (sv_reservations (serve lib s req))"
    using assms(2) by (simp add: reservedForNodeLocked_def)
  then have "\<exists>t node. admitted_by (expireReservationsLocked t s) (serve lib s req) n node"
  proof (cases rule: only_bookings_grow)
    case (lease secret body clk rnd)
    then have "serve lib s req = snd (createLease lib s secret body clk rnd)" by simp
    with grow lease_grows [OF assms(1) surjective_pairing, of n] show ?thesis by simp metis
  next
    case (grp secret body clk rg rnds)
    then have "serve lib s req = snd (createDistributedGroup lib s secret body clk rg rnds)" by simp
    with grow group_grows [OF assms(1) surjective_pairing, of n] show ?thesis by simp metis
  qed
  then obtain t node where "admitted_by (expireReservationsLocked t s) (serve lib s req) n node" by blast
  with grow expire_held_le [of n t s] show ?thesis
    by (auto simp: admitted_by_def active_tasks_def reservedForNodeLocked_def)
qed

text \<open>A lease request on a server without reservations books one for node \<open>a\<close>.\<close>

theorem admission_control_witness:
  "\<exists>node s'. serve (claims_codec zero_claims) sample_server
        (CreateLease ''k'' (Some sample_lease_request) sample_clock (Some sample_nonce)) = s' \<and>
     reservedForNodeLocked sample_server ''a'' = 0 \<and> reservedForNodeLocked s' ''a'' = 1 \<and>
     map_of (sv_nodes sample_server) ''a'' = Some node \<and> nd_Available node \<and> rt_Ready (nd_Runtime node) \<and>
     nd_ActiveTasks node < nd_MaxConcurrency node \<and> reservedForNodeLocked s' ''a'' \<le> nd_MaxConcurrency node"
proof -
  let ?lib = "claims_codec zero_claims"
  let ?req = "CreateLease ''k'' (Some sample_lease_request) sample_clock (Some sample_nonce)"
  have one: "reservedForNodeLocked (serve ?lib sample_server ?req) ''a'' = 1"
    "reservedForNodeLocked sample_server ''a'' = 0"
    by (simp_all add: sample_createLease)
       (simp_all add: leased_server_def reservedForNodeLocked_def gomap_count_def sample_pool_simps)
  then have "reservedForNodeLocked sample_server ''a'' < reservedForNodeLocked (serve ?lib sample_server ?req) ''a''"
    by simp
  from admission_control [OF sample_server_ok this] obtain node where "map_of (sv_nodes sample_server) ''a'' = Some node"
    "nd_Available node" "rt_Ready (nd_Runtime node)" "nd_ActiveTasks node < nd_MaxConcurrency node"
    "reservedForNodeLocked (serve ?lib sample_server ?req) ''a'' \<le> nd_MaxConcurrency node" by blast
  with one show ?thesis by blast
qed

section \<open>All or nothing\<close>

lemma book_all_append:
  "distinct (map fst bs) \<Longrightarrow> \<forall>i\<in>fst ` set bs. map_of res i = None \<Longrightarrow>
     book_all e bs res = res @ map (\<lambda>(i, n). (i, \<lparr>rv_nodeID = n, rv_expiresAt = e\<rparr>)) bs"
proof (induction bs arbitrary: res)
  case (Cons b bs)
  obtain i n where [simp]: "b = (i, n)" by fastforce
  have "AList.update i v res = res @ [(i, v)]" for v using Cons.prems by (simp add: gomap_update_new)
  moreover have "\<forall>j\<in>fst ` set bs. map_of (res @ [(i, \<lparr>rv_nodeID = n, rv_expiresAt = e\<rparr>)]) j = None"
    using Cons.prems by (auto simp: map_add_def)
  ultimately show ?case using Cons by simp
qed simp

lemma delete_all_absent: "\<forall>i\<in>set ids. map_of m i = None \<Longrightarrow> delete_all ids m = m"
  by (induction ids) (auto simp: gomap_delete_absent)

definition fresh_nonces :: "Server \<Rightarrow> byte list option list \<Rightarrow> bool" where
  "fresh_nonces s rnds \<longleftrightarrow> distinct (filter (\<lambda>r. r \<noteq> None) rnds) \<and>
     (\<forall>x. Some x \<in> set rnds \<longrightarrow> map_of (sv_reservations s) (b64_encode x) = None \<and>
        (\<forall>grp\<in>snd ` set (sv_groups s). b64_encode x \<notin> set (gv_reservationIDs grp)))"

lemma fresh_nonces_prefix:
  assumes "fresh_nonces s rnds" "take k rnds = map Some xs"
  shows "distinct (map b64_encode xs)" "i \<in> set (map b64_encode xs) \<Longrightarrow> map_of (sv_reservations s) i = None"
    "i \<in> set (map b64_encode xs) \<Longrightarrow> grp \<in> snd ` set (sv_groups s) \<Longrightarrow> i \<notin> set (gv_reservationIDs grp)"
proof -
  have "filter (\<lambda>r. r \<noteq> None) (take k rnds) = take k rnds" unfolding assms(2) by simp
  moreover have "distinct (filter (\<lambda>r. r \<noteq> None) (take k rnds))"
    using assms(1) append_take_drop_id [of k rnds] unfolding fresh_nonces_def
    by (metis distinct_append filter_append)
  ultimately have "distinct (map Some xs)" using assms(2) by simp
  then show "distinct (map b64_encode xs)" by (simp add: distinct_map inj_on_def base64url.enc_inj)
  have "Some x \<in> set rnds" if "x \<in> set xs" for x
    using that assms(2) by (metis image_eqI in_set_takeD list.set_map)
  with assms(1) show "i \<in> set (map b64_encode xs) \<Longrightarrow> map_of (sv_reservations s) i = None"
    "i \<in> set (map b64_encode xs) \<Longrightarrow> grp \<in> snd ` set (sv_groups s) \<Longrightarrow> i \<notin> set (gv_reservationIDs grp)"
    by (auto simp: fresh_nonces_def)
qed

text \<open>
  C13. Creating a distributed group is all or nothing when the nonces drawn are new. A granted group
  has at least two stages on different nodes, each of them a candidate for it, and books exactly one
  reservation per stage, under the id and for the node the stage names, all with the group's expiry
  of 15 minutes. Any other reply, the one for a token that cannot be issued half way through
  included, leaves no reservation and no group behind.
\<close>

theorem group_creation_all_or_nothing:
  assumes ok: "server_ok s" and fresh: "fresh_nonces s rnds"
    and run: "createDistributedGroup lib s secret (Some req) clk rg rnds = (r, s')"
  shows "case r of Reply (JSON _ grp) \<Rightarrow>
      2 \<le> length (dg_Stages grp) \<and> distinct (map sa_NodeID (dg_Stages grp)) \<and>
      (\<forall>p\<in>set (dg_Stages grp). \<exists>node. map_of (sv_nodes s) (sa_NodeID p) = Some node \<and>
         group_candidate (expireReservationsLocked (at_expire clk) s) req (at_since clk) node) \<and>
      sv_reservations s' = sv_reservations (expireReservationsLocked (at_expire clk) s) @
        map (\<lambda>p. (sa_ReservationID p, \<lparr>rv_nodeID = sa_NodeID p, rv_expiresAt = at_book clk + minutes 15\<rparr>)) (dg_Stages grp) \<and>
      map_of (sv_groups s') (dg_GroupID grp) =
        Some \<lparr>gv_reservationIDs = map sa_ReservationID (dg_Stages grp), gv_expiresAt = at_book clk + minutes 15\<rparr>
    | _ \<Rightarrow> (sv_reservations s', sv_groups s') = (sv_reservations s, sv_groups s) \<or>
        (sv_reservations s', sv_groups s') = (sv_reservations (expireReservationsLocked (at_expire clk) s),
           sv_groups (expireReservationsLocked (at_expire clk) s))"
proof -
  let ?s1 = "expireReservationsLocked (at_expire clk) s"
  have gone: "map_of (sv_reservations ?s1) i = None" if "map_of (sv_reservations s) i = None" for i
    using that ok by (simp add: server_ok_def expire_reservations)
  from run show ?thesis
  proof (cases rule: createDistributedGroup_cases)
    case (rollback q plan xs)
    from fresh_nonces_prefix(2) [OF fresh rollback(5)] gone
    have "delete_all (map b64_encode xs) (sv_reservations ?s1) = sv_reservations ?s1"
      by (intro delete_all_absent) blast
    with rollback show ?thesis by simp
  next
    case (booked q plan xs g gid)
    let ?bs = "zip (map b64_encode xs) (map sa_NodeID plan)" and ?st = "dg_Stages g"
    have fst: "map fst ?bs = map b64_encode xs" using booked(7) by simp
    then have "book_all (at_book clk + minutes 15) ?bs (sv_reservations ?s1) = sv_reservations ?s1 @
        map (\<lambda>(i, n). (i, \<lparr>rv_nodeID = n, rv_expiresAt = at_book clk + minutes 15\<rparr>)) ?bs"
      using fresh_nonces_prefix(1,2) [OF fresh booked(8)] gone
      by (intro book_all_append) (simp_all only: set_map [symmetric] fst, blast)
    moreover have "?bs = map (\<lambda>p. (sa_ReservationID p, sa_NodeID p)) ?st"
      unfolding booked(10,11) [symmetric] by (simp add: zip_map_map zip_same_conv_map)
    moreover note pl = group_plan_facts [OF booked(5)]
    have "distinct (map sa_NodeID ?st)" "2 \<le> length ?st"
      using pl(1) pl(2) [OF server_ok_expire [OF ok]] booked(11) by (simp_all, metis length_map)
    moreover have "\<exists>node. map_of (sv_nodes s) (sa_NodeID p) = Some node \<and> group_candidate ?s1 req (at_since clk) node"
      if p: "p \<in> set ?st" for p
    proof -
      from p have "sa_NodeID p \<in> set (map sa_NodeID plan)" unfolding booked(11) [symmetric] by simp
      with pl(3) [OF server_ok_expire [OF ok]] booked(1) show ?thesis by auto
    qed
    ultimately show ?thesis using booked by (auto simp: comp_def update_conv')
  qed (auto split: outcome.split reply.split)
qed

definition sample_nonce2 :: "byte list" where
  "sample_nonce2 = [4, 5, 6]"

definition sample_gid :: "byte list" where
  "sample_gid = [7, 7, 7]"

definition sample_group_request :: DistributedGroupRequest where
  "sample_group_request = \<lparr>gr_Model = ''m'', gr_ModelDigest = '''', gr_ModelSize = 0, gr_ModelFormat = '''',
     gr_LayerCount = 4, gr_HiddenSize = 8, gr_MinNodes = 0, gr_MaxNodes = 0, gr_Scope = '''',
     gr_LayerBytes = [1048576, 1048576, 1048576, 1048576]\<rparr>"

lemma sample_group_plan:
  "\<exists>a b. group_plan sample_server sample_group_request (seconds 5) = Inr [a, b] \<and>
     sa_NodeID a = ''a'' \<and> sa_NodeID b = ''c'' \<and> stage_layers a = [0, 1] \<and> stage_layers b = [2, 3]"
  by (simp add: group_plan_def group_planner_def group_candidates_def group_candidate_def sample_group_request_def
      lease_eval sample_pool_simps nodeMemoryCapacity_def plan_eval upt_rec stage_layers_def)

lemma IssueStage_codec:
  "g \<noteq> '''' \<Longrightarrow> 0 \<le> i \<Longrightarrow> 0 \<le> a \<Longrightarrow> a < b \<Longrightarrow>
     \<exists>t c'. IssueStage (claims_codec c) (Some x) now k n m d z g i a b ttl = Inr (t, c')"
  by (simp add: IssueStage_def issueClaims_def claims_codec_def Let_def)

lemma reserve_stages_codec:
  "g \<noteq> '''' \<Longrightarrow> \<forall>p\<in>set ps. 0 \<le> sa_LayerStart p \<and> sa_LayerStart p < sa_LayerEnd p \<Longrightarrow> length xs = length ps \<Longrightarrow>
     \<exists>v. reserve_stages (claims_codec c) s req g now e i ps (map Some xs) res ids = Inr v"
proof (induction ps arbitrary: i xs res ids)
  case (Cons p ps)
  from Cons.prems(3) obtain y ys where xs: "xs = y # ys" by (cases xs) auto
  obtain t c' where "IssueStage (claims_codec c) (Some y) now (lease_secret_for s (sa_NodeID p)) (sa_NodeID p)
      (gr_Model req) (gr_ModelDigest req) (gr_ModelSize req) g (int i) (sa_LayerStart p) (sa_LayerEnd p)
      (leaseTTL s (gr_ModelSize req)) = Inr (t, c')"
    using IssueStage_codec [of g "int i" "sa_LayerStart p" "sa_LayerEnd p"] Cons.prems by fastforce
  moreover have "\<exists>v. reserve_stages (claims_codec c) s req g now e (Suc i) ps (map Some ys)
      (AList.update (cl_Nonce c') \<lparr>rv_nodeID = sa_NodeID p, rv_expiresAt = e\<rparr> res) (ids @ [cl_Nonce c']) = Inr v"
    using Cons.prems by (intro Cons.IH) (simp_all add: xs)
  ultimately show ?case by (auto simp: xs split: prod.split)
qed simp

lemma sample_group_reply:
  "\<exists>g s'. createDistributedGroup (claims_codec c) sample_server ''k'' (Some sample_group_request) sample_clock
     (Some sample_gid) [Some sample_nonce, Some sample_nonce2] = (Reply (JSON 201 g), s')"
proof -
  obtain a b where plan: "group_plan sample_server sample_group_request (at_since sample_clock) = Inr [a, b]"
    using sample_group_plan by (auto simp: sample_clock_def)
  have "b64_encode sample_gid \<noteq> ''''" by (simp add: sample_gid_def)
  then have "\<exists>v. reserve_stages (claims_codec c) sample_server sample_group_request (b64_encode sample_gid)
      (at_issue sample_clock) (at_book sample_clock + minutes 15) 0 [a, b] (map Some [sample_nonce, sample_nonce2])
      (sv_reservations sample_server) [] = Inr v"
    using group_plan_facts(4) [OF plan] by (intro reserve_stages_codec) simp_all
  then obtain v where "reserve_stages (claims_codec c) sample_server sample_group_request (b64_encode sample_gid)
      (at_issue sample_clock) (at_book sample_clock + minutes 15) 0 [a, b] [Some sample_nonce, Some sample_nonce2]
      (sv_reservations sample_server) [] = Inr v" by (simp del: reserve_stages.simps) blast
  moreover have "sv_clientSecret sample_server = ''k''" "\<not> sv_mu sample_server" by (simp_all add: sample_pool_simps)
  moreover have "gr_Model sample_group_request \<noteq> ''''" "gr_LayerCount sample_group_request = 4"
    "gr_MinNodes sample_group_request = 0" "gr_MaxNodes sample_group_request = 0" "gr_Scope sample_group_request = ''''"
    "gr_ModelDigest sample_group_request = ''''" "length (gr_LayerBytes sample_group_request) = 4"
    by (simp_all add: sample_group_request_def)
  ultimately show ?thesis
    by (cases v) (simp add: createDistributedGroup_def authorizeClient_def handler_defs sample_expire plan
        randomIdentifier_def bad_model_metadata_def)
qed

theorem group_creation_all_or_nothing_witness:
  "\<exists>g s'. createDistributedGroup (claims_codec zero_claims) sample_server ''k'' (Some sample_group_request) sample_clock
     (Some sample_gid) [Some sample_nonce, Some sample_nonce2] = (Reply (JSON 201 g), s') \<and>
     2 \<le> length (dg_Stages g) \<and> length (sv_reservations s') = length (dg_Stages g)"
proof -
  obtain g s' where run: "createDistributedGroup (claims_codec zero_claims) sample_server ''k''
      (Some sample_group_request) sample_clock (Some sample_gid) [Some sample_nonce, Some sample_nonce2] =
      (Reply (JSON 201 g), s')" using sample_group_reply by blast
  have "fresh_nonces sample_server [Some sample_nonce, Some sample_nonce2]"
    by (simp add: fresh_nonces_def sample_nonce_def sample_nonce2_def sample_pool_simps)
  from group_creation_all_or_nothing [OF sample_server_ok this run]
  have "2 \<le> length (dg_Stages g)" "length (sv_reservations s') = length (dg_Stages g)"
    by (simp_all add: sample_expire) (simp_all add: sample_pool_simps)
  with run show ?thesis by blast
qed

end
