(* ===== verification/Control_Runs.thy ===== *)
theory Control_Runs
  imports Control_Groups
begin

text \<open>
  Runs of the control plane: the states a server reaches from its start by any sequence of requests
  whose random identifiers are new, and the invariants of those states: the registry is well formed
  and the expiry of a group is that of each of its reservations, so that a group and its
  reservations live and die together.
\<close>

section \<open>Reachable states\<close>

fun fresh_request :: "Server \<Rightarrow> request \<Rightarrow> bool" where
  "fresh_request s (CreateLease _ _ _ rnd) = fresh_nonces s [rnd]"
| "fresh_request s (CreateGroup _ _ _ rg rnds) =
     (fresh_nonces s rnds \<and> (\<forall>x. rg = Some x \<longrightarrow> map_of (sv_groups s) (b64_encode x) = None))"
| "fresh_request s _ = True"

inductive reachable :: "json_codec \<Rightarrow> Server \<Rightarrow> Server \<Rightarrow> bool" for lib s0 where
  start: "reachable lib s0 s0"
| step: "reachable lib s0 s \<Longrightarrow> fresh_request s req \<Longrightarrow> reachable lib s0 (serve lib s req)"

section \<open>The group invariant\<close>

definition group_sync :: "Server \<Rightarrow> bool" where
  "group_sync s \<longleftrightarrow>
     (\<forall>g grp. map_of (sv_groups s) g = Some grp \<longrightarrow>
        (\<forall>i\<in>set (gv_reservationIDs grp). \<forall>r. map_of (sv_reservations s) i = Some r \<longrightarrow> rv_expiresAt r = gv_expiresAt grp) \<and>
        (\<forall>h grp'. map_of (sv_groups s) h = Some grp' \<longrightarrow> h \<noteq> g \<longrightarrow>
           set (gv_reservationIDs grp) \<inter> set (gv_reservationIDs grp') = {}))"

lemma group_sync_sub:
  assumes "group_sync s"
    and "\<And>g grp. map_of (sv_groups s') g = Some grp \<Longrightarrow> map_of (sv_groups s) g = Some grp"
    and "\<And>i g grp r. map_of (sv_groups s') g = Some grp \<Longrightarrow> i \<in> set (gv_reservationIDs grp) \<Longrightarrow>
      map_of (sv_reservations s') i = Some r \<Longrightarrow> map_of (sv_reservations s) i = Some r"
  shows "group_sync s'"
  using assms unfolding group_sync_def by blast

lemma expire_sub:
  assumes "server_ok s"
  shows "map_of (sv_groups (expireReservationsLocked t s)) g = Some grp \<Longrightarrow> map_of (sv_groups s) g = Some grp"
    and "map_of (sv_reservations (expireReservationsLocked t s)) i = Some r \<Longrightarrow> map_of (sv_reservations s) i = Some r"
  using assms by (auto simp: server_ok_def expire_groups expire_reservations split: option.splits if_splits)

lemma group_sync_expire: "server_ok s \<Longrightarrow> group_sync s \<Longrightarrow> group_sync (expireReservationsLocked t s)"
  by (rule group_sync_sub [of s]) (auto dest: expire_sub)

lemma group_sync_cong:
  "group_sync s \<Longrightarrow> sv_groups s' = sv_groups s \<Longrightarrow> sv_reservations s' = sv_reservations s \<Longrightarrow> group_sync s'"
  by (simp add: group_sync_def)

lemma map_of_delete_all: "map_of (delete_all ids m) i = (if i \<in> set ids then None else map_of m i)"
  by (induction ids arbitrary: m) (auto simp: delete_conv')

lemma map_of_renew:
  "map_of (foldl (renew_reservation e) res ids) i =
     (if i \<in> set ids then map_option (\<lambda>r. r\<lparr>rv_expiresAt := e\<rparr>) (map_of res i) else map_of res i)"
  by (induction ids arbitrary: res)
     (auto simp: renew_reservation_def update_conv' option.map_comp comp_def split: option.splits)

lemma map_of_book_all:
  "map_of (book_all e bs res) i = Some r \<Longrightarrow> (i \<in> fst ` set bs \<and> rv_expiresAt r = e) \<or> (i \<notin> fst ` set bs \<and> map_of res i = Some r)"
  by (induction bs arbitrary: res) (fastforce simp: update_conv' split: if_splits)+

lemma fresh_nonce_groups:
  "fresh_nonces s [Some x] \<Longrightarrow> map_of (sv_groups s) g = Some grp \<Longrightarrow> b64_encode x \<notin> set (gv_reservationIDs grp)"
  by (force simp: fresh_nonces_def dest: map_of_SomeD)

lemma group_sync_lease:
  assumes ok: "server_ok s" and sync: "group_sync s" and fresh: "fresh_nonces s [rnd]"
    and run: "createLease lib s secret body clk rnd = (r, s')"
  shows "group_sync s'"
proof (cases "\<exists>st lease. r = Reply (JSON st lease)")
  case True
  let ?s1 = "expireReservationsLocked (at_expire clk) s"
  from True run obtain st lease where "createLease lib s secret body clk rnd = (Reply (JSON st lease), s')" by auto
  then show ?thesis
  proof (rule createLease_JSON)
    fix req token claims
    assume "IssueModel lib rnd (at_issue clk) (lease_secret_for s (ls_NodeID lease)) (ls_NodeID lease) (lr_Model req)
       (lr_ModelDigest req) (lr_ModelSize req) (leaseTTL s (lr_ModelSize req)) = Inr (token, claims)"
      and s': "s' = ?s1\<lparr>sv_reservations := AList.update (cl_Nonce claims) \<lparr>rv_nodeID = ls_NodeID lease,
           rv_expiresAt = reservation_expiry (at_book clk) (cl_ExpiresAt claims)\<rparr> (sv_reservations ?s1)\<rparr>"
    then obtain x where "rnd = Some x" "cl_Nonce claims = b64_encode x"
      by (auto simp: IssueModel_def issueClaims_Inr)
    with fresh fresh_nonce_groups
    have "cl_Nonce claims \<notin> set (gv_reservationIDs grp)" if "map_of (sv_groups s) g = Some grp" for g grp
      using that by metis
    with expire_sub(1) [OF ok]
    have "cl_Nonce claims \<notin> set (gv_reservationIDs grp)" if "map_of (sv_groups ?s1) g = Some grp" for g grp
      using that by blast
    then show ?thesis
      by (intro group_sync_sub [OF group_sync_expire [OF ok sync, of "at_expire clk"]])
         (auto simp: s' update_conv' split: if_splits)
  qed
next
  case False
  with run have "s' = s \<or> s' = expireReservationsLocked (at_expire clk) s"
    by (auto simp: createLease_def handler_defs split: if_splits option.splits sum.splits)
  with group_sync_expire [OF ok sync] sync show ?thesis by blast
qed

lemma group_sync_book:
  assumes ok: "server_ok s" and sync: "group_sync s" and fresh: "fresh_nonces s rnds"
    and new: "map_of (sv_groups s) gid = None" and xs: "take k rnds = map Some xs" "length xs = length ns"
    and s': "sv_groups s' = AList.update gid \<lparr>gv_reservationIDs = map b64_encode xs, gv_expiresAt = e\<rparr> (sv_groups s)"
      "sv_reservations s' = book_all e (zip (map b64_encode xs) ns) (sv_reservations s)"
  shows "group_sync s'"
proof -
  have ids: "fst ` set (zip (map b64_encode xs) ns) = set (map b64_encode xs)"
    using xs(2) by (metis length_map list.set_map map_fst_zip)
  have apart: "set (map b64_encode xs) \<inter> set (gv_reservationIDs grp) = {}" if "map_of (sv_groups s) g = Some grp" for g grp
    using fresh_nonces_prefix(3) [OF fresh xs(1)] that by (force dest: map_of_SomeD)
  have res: "i \<in> set (map b64_encode xs) \<and> rv_expiresAt r = e \<or> i \<notin> set (map b64_encode xs) \<and> map_of (sv_reservations s) i = Some r"
    if "map_of (sv_reservations s') i = Some r" for i r
    using map_of_book_all [of e "zip (map b64_encode xs) ns" "sv_reservations s" i r] that ids s' by simp
  have grp: "map_of (sv_groups s') g = (if g = gid then Some \<lparr>gv_reservationIDs = map b64_encode xs, gv_expiresAt = e\<rparr>
      else map_of (sv_groups s) g)" for g by (simp add: s' update_conv')
  show ?thesis
    unfolding group_sync_def
  proof (intro allI impI conjI ballI)
    fix g q i r assume a: "map_of (sv_groups s') g = Some q" "i \<in> set (gv_reservationIDs q)" "map_of (sv_reservations s') i = Some r"
    show "rv_expiresAt r = gv_expiresAt q"
    proof (cases "g = gid")
      case True
      with a grp res [OF a(3)] show ?thesis by auto
    next
      case False
      with a grp apart [of g q] res [OF a(3)] sync show ?thesis by (auto simp: group_sync_def)
    qed
  next
    fix g q h q' assume "map_of (sv_groups s') g = Some q" "map_of (sv_groups s') h = Some q'" "h \<noteq> g"
    then show "set (gv_reservationIDs q) \<inter> set (gv_reservationIDs q') = {}"
      using apart sync by (auto simp: grp group_sync_def split: if_splits) blast+
  qed
qed

lemma group_sync_renew:
  assumes sync: "group_sync s" and gid: "map_of (sv_groups s) gid = Some grp"
    and s': "sv_groups s' = AList.update gid (grp\<lparr>gv_expiresAt := e\<rparr>) (sv_groups s)"
      "sv_reservations s' = foldl (renew_reservation e) (sv_reservations s) (gv_reservationIDs grp)"
  shows "group_sync s'"
proof -
  have grp: "map_of (sv_groups s') g = (if g = gid then Some (grp\<lparr>gv_expiresAt := e\<rparr>) else map_of (sv_groups s) g)" for g
    by (simp add: s' update_conv')
  have apart: "set (gv_reservationIDs q) \<inter> set (gv_reservationIDs q') = {}"
    if "map_of (sv_groups s) g = Some q" "map_of (sv_groups s) h = Some q'" "h \<noteq> g" for g h q q'
    using sync that unfolding group_sync_def by blast
  show ?thesis
    unfolding group_sync_def
  proof (intro allI impI conjI ballI)
    fix g q i r assume a: "map_of (sv_groups s') g = Some q" "i \<in> set (gv_reservationIDs q)" "map_of (sv_reservations s') i = Some r"
    show "rv_expiresAt r = gv_expiresAt q"
    proof (cases "g = gid")
      case True
      with a grp show ?thesis by (auto simp: s' map_of_renew)
    next
      case False
      with a(1) grp have q: "map_of (sv_groups s) g = Some q" by simp
      with a(2) apart [OF q gid] False have "i \<notin> set (gv_reservationIDs grp)" by auto
      with a(3) have "map_of (sv_reservations s) i = Some r" by (simp add: s' map_of_renew)
      with sync q a(2) show ?thesis unfolding group_sync_def by blast
    qed
  next
    fix g q h q' assume "map_of (sv_groups s') g = Some q" "map_of (sv_groups s') h = Some q'" "h \<noteq> g"
    then show "set (gv_reservationIDs q) \<inter> set (gv_reservationIDs q') = {}"
      using apart gid by (auto simp: grp split: if_splits) blast+
  qed
qed

lemma group_sync_serve:
  assumes ok: "server_ok s" and sync: "group_sync s" and fresh: "fresh_request s req"
  shows "group_sync (serve lib s req)"
proof (cases req)
  case (CreateLease secret body clk rnd)
  with group_sync_lease [OF ok sync, of rnd lib secret body clk] fresh show ?thesis
    by (cases "createLease lib s secret body clk rnd") auto
next
  case (CreateGroup secret body clk rg rnds)
  let ?s1 = "expireReservationsLocked (at_expire clk) s"
  note s1 = server_ok_expire [OF ok] group_sync_expire [OF ok sync]
  obtain r s' where run: "createDistributedGroup lib s secret body clk rg rnds = (r, s')" by fastforce
  from run have "group_sync s'"
  proof (cases rule: createDistributedGroup_cases)
    case refused
    with sync s1 show ?thesis by blast
  next
    case panic
    then show ?thesis by (intro group_sync_cong [OF s1(2)]) auto
  next
    case rollback
    then show ?thesis
      by (intro group_sync_sub [OF s1(2) [of "at_expire clk"]]) (auto simp: map_of_delete_all split: if_splits)
  next
    case (booked q plan xs g gid)
    have "fresh_nonces ?s1 rnds"
      using fresh CreateGroup ok by (auto simp: fresh_nonces_def server_ok_def expire_reservations expireReservationsLocked_def
          gomap_map_of_filter)
    moreover have "map_of (sv_groups ?s1) (b64_encode gid) = None"
      using fresh CreateGroup ok booked by (simp add: server_ok_def expire_groups)
    ultimately show ?thesis
      using booked(7,8,13) by (intro group_sync_book [OF s1, of "at_expire clk" rnds "b64_encode gid" "length plan" xs
          "map sa_NodeID plan"]) simp_all
  qed
  with run CreateGroup show ?thesis by simp
next
  case (RegisterNode secret body now)
  obtain r s' where run: "register s secret body now = (r, s')" by fastforce
  from register_effect [OF run] show ?thesis
    using RegisterNode run by (intro group_sync_cong [OF sync]) auto
next
  case ListNodes
  with sync group_sync_expire [OF ok sync] show ?thesis by (auto simp: listNodes_def handler_defs)
next
  case ReleaseLease
  with sync show ?thesis
    by (intro group_sync_sub [OF sync]) (auto simp: releaseLease_def handler_defs delete_conv' split: if_splits)
next
  case ReleaseGroup
  with sync show ?thesis
    by (intro group_sync_sub [OF sync])
       (auto simp: releaseDistributedGroup_def handler_defs delete_conv' map_of_delete_all split: if_splits option.splits)
next
  case (RenewGroup secret gid now)
  let ?s1 = "expireReservationsLocked now s"
  have "group_sync (?s1\<lparr>sv_groups := AList.update gid (grp\<lparr>gv_expiresAt := e\<rparr>) (sv_groups ?s1),
      sv_reservations := foldl (renew_reservation e) (sv_reservations ?s1) (gv_reservationIDs grp)\<rparr>)"
    if "map_of (sv_groups ?s1) gid = Some grp" for grp e
    by (rule group_sync_renew [OF group_sync_expire [OF ok sync] that]) simp_all
  with RenewGroup sync group_sync_expire [OF ok sync, of now] show ?thesis
    by (auto simp: renewDistributedGroup_def handler_defs split: option.splits)
qed (use sync in simp)

lemma reachable_invariant:
  assumes "reachable lib s0 s" and "server_ok s0" and "group_sync s0"
  shows "server_ok s \<and> group_sync s"
  using assms(1)
proof induction
  case start
  with assms show ?case by simp
next
  case (step s req)
  then show ?case using server_ok_serve group_sync_serve by blast
qed

lemma new_server_ok [simp]:
  "server_ok (NewWithNodeCredentials h c l ttl creds)" "group_sync (NewWithNodeCredentials h c l ttl creds)"
  by (simp_all add: server_ok_def group_sync_def NewWithNodeCredentials_def)

section \<open>A sample run\<close>

definition gpu_registration :: "string \<Rightarrow> int \<Rightarrow> int \<Rightarrow> NodeRegistration" where
  "gpu_registration i active free = \<lparr>reg_NodeID = i, reg_Endpoint = ''http://'' @ i, reg_Models = [''m''],
     reg_Hardware = nd_Hardware (gpu_node i active free), reg_Runtime = nd_Runtime (gpu_node i active free),
     reg_Available = True, reg_AcceptsModelUploads = False, reg_Scope = ''local'', reg_MaxConcurrency = 2,
     reg_ActiveTasks = active, reg_DistributedReady = True, reg_StageEndpoint = ''s'' @ i\<rparr>"

lemma register_gpu:
  assumes "sv_nodeCredentials s = []" "sv_hostSecret s = ''k''" "\<not> sv_mu s" "i \<noteq> ''''" "0 \<le> a" "a \<le> 2"
  shows "serve lib s (RegisterNode ''k'' (Some (gpu_registration i a f)) 0) =
    s\<lparr>sv_nodes := AList.update i (gpu_node i a f) (sv_nodes s)\<rparr>"
  using assms by (simp add: register_def registration_terms_def gpu_registration_def valid_scope_def handler_defs
      registered_node_def) (simp add: gpu_node_def zero_node_def)

lemma sample_server_run:
  "sample_server = serve lib (serve lib (serve lib (New ''k'' (minutes 10))
     (RegisterNode ''k'' (Some (gpu_registration ''b'' 1 4000)) 0))
     (RegisterNode ''k'' (Some (gpu_registration ''c'' 0 6000)) 0))
     (RegisterNode ''k'' (Some (gpu_registration ''a'' 0 6000)) 0)"
proof -
  let ?s0 = "New ''k'' (minutes 10)"
  let ?s1 = "?s0\<lparr>sv_nodes := [(''b'', gpu_node ''b'' 1 4000)]\<rparr>"
  let ?s2 = "?s0\<lparr>sv_nodes := [(''b'', gpu_node ''b'' 1 4000), (''c'', gpu_node ''c'' 0 6000)]\<rparr>"
  have s0: "sv_nodeCredentials ?s0 = []" "sv_hostSecret ?s0 = ''k''" "\<not> sv_mu ?s0" "sv_nodes ?s0 = []"
    by (simp_all add: New_def NewWithSecrets_def NewWithNodeCredentials_def)
  have "serve lib ?s0 (RegisterNode ''k'' (Some (gpu_registration ''b'' 1 4000)) 0) = ?s1"
    using register_gpu [of ?s0 "''b''" 1 lib 4000] s0 by simp
  moreover have "serve lib ?s1 (RegisterNode ''k'' (Some (gpu_registration ''c'' 0 6000)) 0) = ?s2"
    using register_gpu [of ?s1 "''c''" 0 lib 6000] s0 by simp
  moreover have "serve lib ?s2 (RegisterNode ''k'' (Some (gpu_registration ''a'' 0 6000)) 0) = sample_server"
    using register_gpu [of ?s2 "''a''" 0 lib 6000] s0 by (simp add: sample_server_def)
  ultimately show ?thesis by simp
qed

lemma sample_server_reachable: "reachable lib (NewWithNodeCredentials ''k'' ''k'' ''k'' (minutes 10) []) sample_server"
  unfolding sample_server_run [of lib] New_def NewWithSecrets_def
  by (intro reachable.step reachable.start fresh_request.simps(3) [THEN iffD2] TrueI) simp_all

section \<open>Properties of every run\<close>

text \<open>
  C14. In every state a server reaches, whatever the requests, the node map is keyed by node id and
  every node in it is well formed: it has an id and an endpoint, its scope is local or remote, it
  takes at least one task and reports no more than it takes, a node ready for distributed work has a
  stage endpoint, and a node without models accepts uploads.
\<close>

theorem registry_invariant:
  assumes "reachable lib (NewWithNodeCredentials hostSecret clientSecret leaseSecret ttl credentials) s"
  shows "server_ok s"
  using reachable_invariant [OF assms] by simp

theorem registry_invariant_witness:
  "reachable (claims_codec zero_claims) (NewWithNodeCredentials ''k'' ''k'' ''k'' (minutes 10) []) sample_server \<and>
   server_ok sample_server"
  using sample_server_reachable registry_invariant [OF sample_server_reachable] by blast

text \<open>
  C15. In every state a server reaches when the random identifiers it draws are new, a group and its
  reservations live and die together: at any time, a reservation of the group that is still held
  survives the removal of expired entries exactly when the group does.
\<close>

theorem group_and_reservations_expire_together:
  assumes "reachable lib (NewWithNodeCredentials hostSecret clientSecret leaseSecret ttl credentials) s"
    and "map_of (sv_groups s) groupID = Some grp" and "reservationID \<in> set (gv_reservationIDs grp)"
    and "map_of (sv_reservations s) reservationID = Some item"
  shows "map_of (sv_groups (expireReservationsLocked now s)) groupID = None \<longleftrightarrow>
    map_of (sv_reservations (expireReservationsLocked now s)) reservationID = None"
proof -
  have inv: "server_ok s" "group_sync s" using reachable_invariant [OF assms(1)] by simp_all
  with assms(2-4) have "rv_expiresAt item = gv_expiresAt grp" unfolding group_sync_def by blast
  with inv assms(2,4) show ?thesis by (simp add: server_ok_def expire_groups expire_reservations)
qed

definition sample_group_run :: "request" where
  "sample_group_run = CreateGroup ''k'' (Some sample_group_request) sample_clock (Some sample_gid)
     [Some sample_nonce, Some sample_nonce2]"

definition grouped_server :: Server where
  "grouped_server = serve (claims_codec zero_claims) sample_server sample_group_run"

lemma sample_group_run_fresh: "fresh_request sample_server sample_group_run"
  by (simp add: sample_group_run_def fresh_nonces_def sample_nonce_def sample_nonce2_def sample_pool_simps)

lemma grouped_server_reachable:
  "reachable (claims_codec zero_claims) (NewWithNodeCredentials ''k'' ''k'' ''k'' (minutes 10) []) grouped_server"
  unfolding grouped_server_def by (rule reachable.step [OF sample_server_reachable sample_group_run_fresh])

lemma grouped_server_books:
  "\<exists>item. map_of (sv_groups grouped_server) (b64_encode sample_gid) =
      Some \<lparr>gv_reservationIDs = [b64_encode sample_nonce, b64_encode sample_nonce2], gv_expiresAt = seconds 905\<rparr> \<and>
    map_of (sv_reservations grouped_server) (b64_encode sample_nonce) = Some item \<and> rv_expiresAt item = seconds 905 \<and>
    map_of (sv_reservations grouped_server) (b64_encode sample_nonce2) \<noteq> None \<and> sv_clientSecret grouped_server = ''k'' \<and> \<not> sv_mu grouped_server"
proof -
  let ?run = "createDistributedGroup (claims_codec zero_claims) sample_server ''k'' (Some sample_group_request) sample_clock
     (Some sample_gid) [Some sample_nonce, Some sample_nonce2]"
  obtain g s' where run: "?run = (Reply (JSON 201 g), s')" using sample_group_reply by blast
  then have s': "grouped_server = s'" by (simp add: grouped_server_def sample_group_run_def)
  obtain a b where plan: "group_plan sample_server sample_group_request (at_since sample_clock) = Inr [a, b]"
    using sample_group_plan by (auto simp: sample_clock_def)
  from run show ?thesis
  proof (cases rule: createDistributedGroup_cases)
    case (booked q p xs g' gid)
    then have "p = [a, b]" using plan by (simp add: sample_expire)
    moreover from this booked(7,8) have "xs = [sample_nonce, sample_nonce2]"
      by (cases xs; cases "tl xs") auto
    moreover have "sample_nonce \<noteq> sample_nonce2" by (simp add: sample_nonce_def sample_nonce2_def)
    ultimately show ?thesis using booked(3,4,6,13)
      by (simp add: s' sample_expire update_conv' base64url.enc_inj sample_clock_def seconds_def minutes_def)
  qed simp_all
qed

theorem group_and_reservations_expire_together_witness:
  "map_of (sv_groups (expireReservationsLocked (seconds 905) grouped_server)) (b64_encode sample_gid) = None \<longleftrightarrow>
    map_of (sv_reservations (expireReservationsLocked (seconds 905) grouped_server)) (b64_encode sample_nonce) = None"
proof -
  obtain item where "map_of (sv_groups grouped_server) (b64_encode sample_gid) =
      Some \<lparr>gv_reservationIDs = [b64_encode sample_nonce, b64_encode sample_nonce2], gv_expiresAt = seconds 905\<rparr>"
    "map_of (sv_reservations grouped_server) (b64_encode sample_nonce) = Some item"
    using grouped_server_books by blast
  from group_and_reservations_expire_together [OF grouped_server_reachable this(1) _ this(2), of "seconds 905"]
  show ?thesis by simp
qed

section \<open>Renewing and releasing a group\<close>

text \<open>
  Renewing a live group moves the expiry of the group and of each reservation it still holds to
  15 minutes from now and touches nothing else that is live; a group that is unknown or has expired
  is answered with 404 and stays gone.
\<close>

theorem renewal_extends_whole_group:
  assumes ok: "server_ok s" and "secret = sv_clientSecret s" and "\<not> sv_mu s"
    and run: "renewDistributedGroup s secret groupID now = (r, s')"
  shows "case map_of (sv_groups s) groupID of
      Some grp \<Rightarrow>
        if now < gv_expiresAt grp then
          r = Reply (JSON 200 (groupID, unix (now + minutes 15))) \<and>
          (\<forall>g. map_of (sv_groups s') g = (if g = groupID then Some (grp\<lparr>gv_expiresAt := now + minutes 15\<rparr>)
             else map_of (sv_groups (expireReservationsLocked now s)) g)) \<and>
          (\<forall>i. map_of (sv_reservations s') i = (if i \<in> set (gv_reservationIDs grp)
             then map_option (\<lambda>item. item\<lparr>rv_expiresAt := now + minutes 15\<rparr>)
                    (map_of (sv_reservations (expireReservationsLocked now s)) i)
             else map_of (sv_reservations (expireReservationsLocked now s)) i))
        else r = Reply (Error 404 ''distributed group was not found'') \<and> map_of (sv_groups s') groupID = None
    | None \<Rightarrow> r = Reply (Error 404 ''distributed group was not found'') \<and> map_of (sv_groups s') groupID = None"
  using assms expire_groups [of s now groupID]
  by (auto simp: renewDistributedGroup_def authorizeClient_def handler_defs server_ok_def map_of_renew update_conv'
      split: option.splits if_splits)

theorem renewal_extends_whole_group_witness:
  "\<exists>s'. renewDistributedGroup grouped_server ''k'' (b64_encode sample_gid) (seconds 900) =
     (Reply (JSON 200 (b64_encode sample_gid, unix (seconds 900 + minutes 15))), s') \<and>
     map_option rv_expiresAt (map_of (sv_reservations s') (b64_encode sample_nonce)) = Some (seconds 900 + minutes 15)"
proof -
  obtain r s' where run: "renewDistributedGroup grouped_server ''k'' (b64_encode sample_gid) (seconds 900) = (r, s')" by fastforce
  have ok: "server_ok grouped_server" using reachable_invariant [OF grouped_server_reachable] by simp
  obtain item where it: "map_of (sv_groups grouped_server) (b64_encode sample_gid) =
      Some \<lparr>gv_reservationIDs = [b64_encode sample_nonce, b64_encode sample_nonce2], gv_expiresAt = seconds 905\<rparr>"
    "map_of (sv_reservations grouped_server) (b64_encode sample_nonce) = Some item" "rv_expiresAt item = seconds 905"
    "sv_clientSecret grouped_server = ''k''" "\<not> sv_mu grouped_server"
    using grouped_server_books by blast
  from renewal_extends_whole_group [OF ok it(4) [symmetric] it(5) run] it ok
  show ?thesis using run by (simp add: expire_reservations server_ok_def seconds_def)
qed

text \<open>
  Releasing a group removes the group and every reservation it holds, and no other; releasing a
  group that is not there changes nothing and says so. Afterwards the group cannot be renewed.
\<close>

theorem release_frees_whole_group:
  assumes ok: "server_ok s" and "secret = sv_clientSecret s" and "\<not> sv_mu s"
    and run: "releaseDistributedGroup s secret groupID = (r, s')"
  shows "r = Reply (JSON 200 (map_of (sv_groups s) groupID \<noteq> None)) \<and>
    (\<forall>g. map_of (sv_groups s') g = (if g = groupID then None else map_of (sv_groups s) g)) \<and>
    (\<forall>i. map_of (sv_reservations s') i =
       (if \<exists>grp. map_of (sv_groups s) groupID = Some grp \<and> i \<in> set (gv_reservationIDs grp) then None
        else map_of (sv_reservations s) i)) \<and>
    fst (renewDistributedGroup s' secret groupID now) = Reply (Error 404 ''distributed group was not found'')"
proof -
  have s': "server_ok s'" using server_ok_serve [OF ok, of undefined "ReleaseGroup secret groupID"] run by simp
  have gone: "map_of (sv_groups s') groupID = None" "secret = sv_clientSecret s'" "\<not> sv_mu s'"
    using assms by (auto simp: releaseDistributedGroup_def authorizeClient_def handler_defs delete_conv' split: option.splits)
  obtain q t where renew: "renewDistributedGroup s' secret groupID now = (q, t)" by fastforce
  from s' gone have "q = Reply (Error 404 ''distributed group was not found'')"
    using renew expire_groups [of s' now groupID]
    by (auto simp: renewDistributedGroup_def authorizeClient_def handler_defs server_ok_def)
  with renew assms show ?thesis
    by (auto simp: releaseDistributedGroup_def authorizeClient_def handler_defs delete_conv' map_of_delete_all
        split: option.splits)
qed

theorem release_frees_whole_group_witness:
  "\<exists>s'. releaseDistributedGroup grouped_server ''k'' (b64_encode sample_gid) = (Reply (JSON 200 True), s') \<and>
     map_of (sv_reservations s') (b64_encode sample_nonce) = None"
proof -
  obtain r s' where run: "releaseDistributedGroup grouped_server ''k'' (b64_encode sample_gid) = (r, s')" by fastforce
  have ok: "server_ok grouped_server" using reachable_invariant [OF grouped_server_reachable] by simp
  have it: "map_of (sv_groups grouped_server) (b64_encode sample_gid) =
      Some \<lparr>gv_reservationIDs = [b64_encode sample_nonce, b64_encode sample_nonce2], gv_expiresAt = seconds 905\<rparr>"
    "sv_clientSecret grouped_server = ''k''" "\<not> sv_mu grouped_server"
    using grouped_server_books by blast+
  from release_frees_whole_group [OF ok it(2) [symmetric] it(3) run, of 0] it(1) run show ?thesis by auto
qed

section \<open>A panic keeps the lock\<close>

text \<open>
  \<open>createDistributedGroup\<close> holds the lock without \<open>defer\<close> while it plans. A request whose layer count
  is beyond what \<open>make\<close> can allocate panics there; \<open>net/http\<close> recovers the panic, the lock stays
  taken, and from then on no authorised request is answered.
\<close>

lemma lost_lock_blocks:
  "sv_mu s \<Longrightarrow> serve lib s req = s"
  by (cases req) (auto simp: register_def listNodes_def createLease_def releaseLease_def createDistributedGroup_def
      releaseDistributedGroup_def renewDistributedGroup_def lock_mu_def Let_def split: option.splits)

lemma group_request_stops_server:
  "\<exists>s'. createDistributedGroup lib sample_server ''k''
      (Some (sample_group_request\<lparr>gr_LayerBytes := [], gr_LayerCount := 4611686018427387904\<rparr>)) sample_clock rg rnds =
        (Aborted, s') \<and> (\<forall>reqs. foldl (serve lib) s' reqs = s') \<and>
     fst (createLease lib s' ''k'' (Some sample_lease_request) clk rnd) = Blocked"
proof -
  let ?s' = "sample_server\<lparr>sv_mu := True\<rparr>"
  have "createDistributedGroup lib sample_server ''k''
      (Some (sample_group_request\<lparr>gr_LayerBytes := [], gr_LayerCount := 4611686018427387904\<rparr>)) sample_clock rg rnds =
        (Aborted, ?s')"
    by (simp add: createDistributedGroup_def authorizeClient_def handler_defs sample_expire)
       (simp add: sample_group_request_def bad_model_metadata_def sample_pool_simps group_plan_def group_planner_def
          Plan_def max_int64_slice_def)
  moreover have "foldl (serve lib) ?s' reqs = ?s'" for reqs
    by (induction reqs) (simp_all add: lost_lock_blocks)
  moreover have "fst (createLease lib ?s' ''k'' (Some sample_lease_request) clk rnd) = Blocked"
    by (simp add: createLease_def authorizeClient_def handler_defs sample_lease_request_def bad_model_metadata_def
        sample_pool_simps)
  ultimately show ?thesis by blast
qed

text \<open>No request changes the requesters' secret.\<close>

lemma serve_secret [simp]: "sv_clientSecret (serve lib s req) = sv_clientSecret s"
proof (cases "case req of RegisterNode _ _ _ \<Rightarrow> False | _ \<Rightarrow> True")
  case True
  then show ?thesis using serve_same_registry [of req s lib] by (simp add: same_registry_def)
next
  case False
  then obtain secret body now where req: "req = RegisterNode secret body now" by (cases req) auto
  obtain r s' where run: "register s secret body now = (r, s')" by fastforce
  from register_effect [OF run] req run show ?thesis by auto
qed

end
