(* ===== verification/Cluster.thy ===== *)
theory Cluster
  imports Control_Runs Manager_Correct
begin

text \<open>
  The manager of distributed runtimes against the control plane and the processes of its machine: an
  environment of theory \<open>Manager\<close> built from the handlers of theory \<open>Control\<close> and the runtime of theory
  \<open>Runtimes\<close>. No code of its own is modelled; JSON between the two is taken to arrive as it was sent.
\<close>

section \<open>The environment\<close>

text \<open>
  What becomes of a request for a group: it is answered, it never arrives, its reply is lost (or comes too late), or
  only the status of the reply gets through.
\<close>

datatype delivery = Delivered | RequestLost | ReplyLost | ReplyCut

text \<open>
  What one operation of the environment meets: requests of others that the control plane serves first, what the
  network does to a request for a group and whether it loses a release, the clock readings and random values of a
  group request, the script of a start, and the answer of a health check.
\<close>

record cluster_input =
  ci_others :: "request list"
  ci_create :: delivery
  ci_release_lost :: bool
  ci_clk :: clock
  ci_group :: "byte list option"
  ci_nonces :: "byte list option list"
  ci_script :: start_script
  ci_health :: "nat option"

text \<open>
  \<open>cu_others\<close>: the groups that have appeared with requests of others. \<open>cu_lost\<close>: those of the manager that were
  created without its getting the reply, or whose release was lost or met a control plane that no longer serves.
\<close>

record cluster =
  cu_server :: Server
  cu_procs :: process_world
  cu_step :: nat
  cu_others :: "string list"
  cu_lost :: "string list"

definition new_groups :: "Server \<Rightarrow> Server \<Rightarrow> string list" where
  "new_groups before after = filter (\<lambda>i. i \<notin> set (map fst (sv_groups before))) (map fst (sv_groups after))"

definition serve_other :: "json_codec \<Rightarrow> cluster \<Rightarrow> request \<Rightarrow> cluster" where
  "serve_other lib s req =
     s\<lparr>cu_server := serve lib (cu_server s) req, cu_others := cu_others s @ new_groups (cu_server s) (serve lib (cu_server s) req)\<rparr>"

definition serve_others :: "json_codec \<Rightarrow> cluster_input \<Rightarrow> cluster \<Rightarrow> cluster" where
  "serve_others lib inp s = foldl (serve_other lib) (s\<lparr>cu_step := Suc (cu_step s)\<rparr>) (ci_others inp)"

definition answer_of :: "DistributedGroup outcome \<Rightarrow> string + nat \<times> DistributedGroup option" where
  "answer_of r = (case r of
       Reply (JSON st g) \<Rightarrow> Inr (st, Some g)
     | Reply (Error st _) \<Rightarrow> Inr (st, None)
     | _ \<Rightarrow> Inl ''no answer'')"

fun cut_answer :: "string + nat \<times> DistributedGroup option \<Rightarrow> string + nat \<times> DistributedGroup option" where
  "cut_answer (Inr (st, _)) = Inr (st, None)"
| "cut_answer (Inl e) = Inl e"

definition cluster_create :: "json_codec \<Rightarrow> string \<Rightarrow> (nat \<Rightarrow> cluster_input) \<Rightarrow> cluster \<Rightarrow> DistributedGroupRequest \<Rightarrow>
    (string + nat \<times> DistributedGroup option) \<times> cluster" where
  "cluster_create lib secret inp s req =
     (let i = inp (cu_step s); s1 = serve_others lib i s
      in if ci_create i = RequestLost then (Inl ''no answer'', s1)
         else
           (case createDistributedGroup lib (cu_server s1) secret (Some req) (ci_clk i) (ci_group i) (ci_nonces i) of
              (r, server) \<Rightarrow>
                if ci_create i = Delivered then (answer_of r, s1\<lparr>cu_server := server\<rparr>)
                else (if ci_create i = ReplyCut then cut_answer (answer_of r) else Inl ''no answer'',
                      s1\<lparr>cu_server := server, cu_lost := cu_lost s1 @ new_groups (cu_server s1) server\<rparr>)))"

text \<open>\<open>releaseGroup\<close> gives up after three seconds and ignores every error.\<close>

definition cluster_release :: "json_codec \<Rightarrow> string \<Rightarrow> (nat \<Rightarrow> cluster_input) \<Rightarrow> cluster \<Rightarrow> string \<Rightarrow> cluster" where
  "cluster_release lib secret inp s groupID =
     (let i = inp (cu_step s); s1 = serve_others lib i s
      in if ci_release_lost i \<or> sv_mu (cu_server s1) then s1\<lparr>cu_lost := cu_lost s1 @ [groupID]\<rparr>
         else s1\<lparr>cu_server := snd (releaseDistributedGroup (cu_server s1) secret groupID)\<rparr>)"

definition cluster_start :: "json_codec \<Rightarrow> (nat \<Rightarrow> cluster_input) \<Rightarrow> cluster \<Rightarrow> LlamaRPC \<Rightarrow>
    ((string + string) \<times> LlamaRPC) \<times> cluster" where
  "cluster_start lib inp s l =
     (let i = inp (cu_step s); s1 = serve_others lib i s
      in (case llama_Start (ci_script i) l (cu_procs s1) of
            None \<Rightarrow> ((Inl ''waiting'', l), s1)
          | Some (Inl e, l', procs) \<Rightarrow> ((Inl ''start failed'', l'), s1\<lparr>cu_procs := procs\<rparr>)
          | Some (Inr address, l', procs) \<Rightarrow> ((Inr address, l'), s1\<lparr>cu_procs := procs\<rparr>)))"

definition cluster_env :: "json_codec \<Rightarrow> string \<Rightarrow> (nat \<Rightarrow> cluster_input) \<Rightarrow> (string \<Rightarrow> byte list option) \<Rightarrow> (string \<Rightarrow> bool) \<Rightarrow>
    cluster manager_env" where
  "cluster_env lib secret inp files endpoint_ok =
     \<lparr>me_health = (\<lambda>s url. (ci_health (inp (cu_step s)), serve_others lib (inp (cu_step s)) s)),
      me_file = files,
      me_create = cluster_create lib secret inp,
      me_release = cluster_release lib secret inp,
      me_start = cluster_start lib inp,
      me_stop = (\<lambda>s l. s\<lparr>cu_procs := snd (llama_stopLocked l (cu_procs s))\<rparr>),
      me_endpoint = endpoint_ok\<rparr>"

section \<open>What the manager holds\<close>

text \<open>The random bytes of group identifiers are not empty, and every start ends, as its deadline ensures.\<close>

definition inputs_ok :: "(nat \<Rightarrow> cluster_input) \<Rightarrow> bool" where
  "inputs_ok inp \<longleftrightarrow> (\<forall>k. ci_group (inp k) \<noteq> Some [] \<and> await_ready (sc_polls (ci_script (inp k))) \<noteq> Waiting)"

text \<open>Nothing is lost and no one else creates groups.\<close>

definition undisturbed :: "(nat \<Rightarrow> cluster_input) \<Rightarrow> bool" where
  "undisturbed inp \<longleftrightarrow> (\<forall>k. (\<forall>req\<in>set (ci_others (inp k)). case req of CreateGroup _ _ _ _ _ \<Rightarrow> False | _ \<Rightarrow> True) \<and>
     ci_create (inp k) = Delivered \<and> \<not> ci_release_lost (inp k))"

definition group_ids :: "Server \<Rightarrow> string set" where
  "group_ids s = dom (map_of (sv_groups s))"

definition holding :: "string \<Rightarrow> (nat \<Rightarrow> cluster_input) \<Rightarrow> string set \<Rightarrow> cluster \<Rightarrow> string option \<Rightarrow> LlamaRPC option \<Rightarrow> bool" where
  "holding secret inp known s held runtime \<longleftrightarrow> inputs_ok inp \<and>
     group_ids (cu_server s) \<subseteq> known \<union> set (cu_others s) \<union> set (cu_lost s) \<union> set_option held \<and>
     (undisturbed inp \<longrightarrow> cu_others s = [] \<and> cu_lost s = [] \<and> (sv_mu (cu_server s) \<longrightarrow> held = None)) \<and>
     sv_clientSecret (cu_server s) = secret \<and> length (pw_alive (cu_procs s)) \<le> 1 \<and>
     (\<forall>p\<in>set (pw_alive (cu_procs s)). \<exists>l. runtime = Some l \<and> ll_cmd l = Some (fst p))"

lemma group_ids_expire: "group_ids (expireReservationsLocked t s) \<subseteq> group_ids s"
  by (auto simp: group_ids_def expireReservationsLocked_def dom_map_of_conv_image_fst)

lemma serve_group_ids:
  assumes "case req of CreateGroup _ _ _ _ _ \<Rightarrow> False | _ \<Rightarrow> True"
  shows "group_ids (serve lib s req) \<subseteq> group_ids s \<and> sv_mu (serve lib s req) = sv_mu s \<and>
    sv_clientSecret (serve lib s req) = sv_clientSecret s"
proof (cases req)
  case (RegisterNode secret body now)
  obtain r s' where run: "register s secret body now = (r, s')" by fastforce
  with RegisterNode register_effect [OF run] show ?thesis by (auto simp: group_ids_def)
next
  case ListNodes
  with group_ids_expire show ?thesis by (auto simp: listNodes_def handler_defs)
next
  case (CreateLease secret body clk rnd)
  have "group_ids (snd (createLease lib s secret body clk rnd)) \<subseteq> group_ids (expireReservationsLocked (at_expire clk) s) \<or>
      snd (createLease lib s secret body clk rnd) = s"
    by (auto simp: createLease_def handler_defs group_ids_def split: option.splits sum.splits)
  with CreateLease group_ids_expire [of "at_expire clk" s] show ?thesis
    by (auto simp: createLease_def handler_defs split: option.splits sum.splits)
next
  case (RenewGroup secret gid now)
  let ?s1 = "expireReservationsLocked now s"
  have "group_ids (?s1\<lparr>sv_groups := AList.update gid grp' (sv_groups ?s1), sv_reservations := res\<rparr>) = group_ids ?s1"
    if "map_of (sv_groups ?s1) gid = Some grp" for grp grp' res
    using that by (auto simp: group_ids_def update_conv')
  with RenewGroup group_ids_expire [of now s] show ?thesis
    by (auto simp: renewDistributedGroup_def handler_defs split: option.splits)
qed (use assms in \<open>auto simp: releaseLease_def releaseDistributedGroup_def handler_defs group_ids_def delete_conv' split: option.splits if_splits\<close>)

lemma set_new_groups: "set (new_groups s s') = group_ids s' - group_ids s"
  by (auto simp: new_groups_def group_ids_def dom_map_of_conv_image_fst)

lemma no_new_groups: "group_ids s' \<subseteq> group_ids s \<Longrightarrow> new_groups s s' = []"
  using set_new_groups [of s s'] by (cases "new_groups s s'") auto

lemma holding_other:
  assumes "holding secret inp known s h r" and "undisturbed inp \<Longrightarrow> case req of CreateGroup _ _ _ _ _ \<Rightarrow> False | _ \<Rightarrow> True"
  shows "holding secret inp known (serve_other lib s req) h r"
proof -
  have "group_ids (serve lib (cu_server s) req) \<subseteq> group_ids (cu_server s) \<union> set (new_groups (cu_server s) (serve lib (cu_server s) req))"
    by (auto simp: set_new_groups)
  moreover have "new_groups (cu_server s) (serve lib (cu_server s) req) = [] \<and> sv_mu (serve lib (cu_server s) req) = sv_mu (cu_server s)"
    if "undisturbed inp"
    using serve_group_ids [OF assms(2) [OF that], of lib "cu_server s"] no_new_groups by blast
  ultimately show ?thesis using assms(1) unfolding holding_def by (auto simp: serve_other_def)
qed

lemma serve_others_procs [simp]: "cu_procs (serve_others lib i s) = cu_procs s"
proof -
  have "cu_procs (foldl (serve_other lib) s' reqs) = cu_procs s'" for s' reqs
    by (induction reqs arbitrary: s') (simp_all add: serve_other_def)
  then show ?thesis by (simp add: serve_others_def)
qed

lemma holding_others: "holding secret inp known s h r \<Longrightarrow> holding secret inp known (serve_others lib (inp k) s) h r"
proof -
  assume h: "holding secret inp known s h r"
  have "holding secret inp known (foldl (serve_other lib) s' reqs) h r"
    if "holding secret inp known s' h r" "undisturbed inp \<Longrightarrow> \<forall>req\<in>set reqs. case req of CreateGroup _ _ _ _ _ \<Rightarrow> False | _ \<Rightarrow> True" for s' reqs
    using that
  proof (induction reqs arbitrary: s')
    case (Cons req reqs)
    have "holding secret inp known (serve_other lib s' req) h r" using Cons.prems by (intro holding_other) simp_all
    with Cons show ?case by simp
  qed simp
  moreover have "holding secret inp known (s\<lparr>cu_step := Suc (cu_step s)\<rparr>) h r" using h by (simp add: holding_def)
  ultimately show ?thesis unfolding serve_others_def by (simp add: undisturbed_def)
qed

lemma holding_created:
  assumes "holding secret inp known s None None" "cluster_create lib secret inp s req = (Inr (201, Some g), s')"
  shows "dg_GroupID g \<noteq> '''' \<and> 2 \<le> length (dg_Stages g) \<and> holding secret inp known s' (Some (dg_GroupID g)) None"
proof -
  let ?i = "inp (cu_step s)" and ?s1 = "serve_others lib (inp (cu_step s)) s"
  note h = holding_others [OF assms(1), of lib "cu_step s"]
  obtain r server where run: "createDistributedGroup lib (cu_server ?s1) secret (Some req) (ci_clk ?i) (ci_group ?i) (ci_nonces ?i) = (r, server)"
    by fastforce
  have "cut_answer x \<noteq> Inr (201, Some g)" for x by (cases x rule: cut_answer.cases) auto
  then have r: "answer_of r = Inr (201, Some g)" and s': "s' = ?s1\<lparr>cu_server := server\<rparr>"
    using assms(2) run by (auto simp: cluster_create_def Let_def split: if_split_asm)
  from r have rep: "r = Reply (JSON 201 g)" by (auto simp: answer_of_def split: outcome.splits reply.splits)
  from run show ?thesis
  proof (cases rule: createDistributedGroup_cases)
    case (booked q plan xs g' gid)
    with rep have g: "g' = g" by simp
    have "2 \<le> length (dg_Stages g)"
      using group_plan_facts(1) [OF booked(5)] arg_cong [OF booked(11), of length] g by simp
    moreover have "gid \<noteq> []" using assms(1) booked(6) by (auto simp: holding_def inputs_ok_def)
    then have "dg_GroupID g \<noteq> ''''" using booked(9) g by (cases gid rule: b64_encode.cases) auto
    moreover have "group_ids server \<subseteq> insert (dg_GroupID g) (group_ids (cu_server ?s1))"
      using booked(9,13) g group_ids_expire [of "at_expire (ci_clk ?i)" "cu_server ?s1"]
      by (auto simp: group_ids_def update_conv' split: if_splits)
    ultimately show ?thesis using h booked(3,4,13) s' unfolding holding_def by auto
  qed (use rep in auto)
qed

lemma holding_refused:
  assumes "holding secret inp known s None None" "cluster_create lib secret inp s req = (a, s')" "\<forall>g. a \<noteq> Inr (201, Some g)"
  shows "holding secret inp known s' None None"
proof -
  let ?i = "inp (cu_step s)" and ?s1 = "serve_others lib (inp (cu_step s)) s"
  note h = holding_others [OF assms(1), of lib "cu_step s"]
  obtain r server where run: "createDistributedGroup lib (cu_server ?s1) secret (Some req) (ci_clk ?i) (ci_group ?i) (ci_nonces ?i) = (r, server)"
    by fastforce
  from run have secret: "sv_clientSecret server = sv_clientSecret (cu_server ?s1)"
    by (cases rule: createDistributedGroup_cases) auto
  show ?thesis
  proof (cases "ci_create ?i")
    case RequestLost
    with assms(2) h show ?thesis by (simp add: cluster_create_def Let_def)
  next
    case Delivered
    with assms(2) run have a: "a = answer_of r" and s': "s' = ?s1\<lparr>cu_server := server\<rparr>"
      by (simp_all add: cluster_create_def Let_def)
    from run have "group_ids server \<subseteq> group_ids (cu_server ?s1)"
    proof (cases rule: createDistributedGroup_cases)
      case (booked q plan xs g gid)
      with a assms(3) show ?thesis by (simp add: answer_of_def)
    qed (use group_ids_expire [of "at_expire (ci_clk ?i)" "cu_server ?s1"] in \<open>auto simp: group_ids_def\<close>)
    with h s' secret show ?thesis unfolding holding_def by auto
  qed (use assms(2) run h secret in \<open>auto simp: cluster_create_def Let_def holding_def set_new_groups undisturbed_def\<close>)
qed

lemma holding_released:
  assumes "holding secret inp known s (Some i) r"
  shows "holding secret inp known (cluster_release lib secret inp s i) None r"
proof -
  let ?c = "inp (cu_step s)" and ?s1 = "serve_others lib (inp (cu_step s)) s"
  note h = holding_others [OF assms, of lib "cu_step s"]
  show ?thesis
  proof (cases "ci_release_lost ?c \<or> sv_mu (cu_server ?s1)")
    case True
    moreover from this h have "\<not> undisturbed inp" by (auto simp: undisturbed_def holding_def)
    ultimately show ?thesis using h unfolding holding_def by (auto simp: cluster_release_def Let_def)
  next
    case False
    have "group_ids (snd (releaseDistributedGroup (cu_server ?s1) secret i)) = group_ids (cu_server ?s1) - {i} \<and>
        sv_clientSecret (snd (releaseDistributedGroup (cu_server ?s1) secret i)) = secret"
      using False h
      by (auto simp: holding_def releaseDistributedGroup_def authorizeClient_def EqualSecret_iff handler_defs group_ids_def delete_conv'
          split: option.splits if_splits)
    with False h show ?thesis unfolding holding_def by (auto simp: cluster_release_def Let_def)
  qed
qed

lemma llama_Start_alive:
  assumes "llama_Start sc l w = Some (r, l', w')" "pw_alive w = []" "r = Inl e \<or> r = Inr address"
  shows "case r of Inl _ \<Rightarrow> pw_alive w' = [] | Inr _ \<Rightarrow> \<exists>command. pw_alive w' = [(pw_next w, command)] \<and> ll_cmd l' = Some (pw_next w)"
  using assms(1,2)
  by (auto simp: llama_Start_def Let_def start_process_def llama_stopLocked_def
      split: option.splits if_splits wait_result.splits wait_event.splits)

lemma llama_Start_returns: "await_ready (sc_polls sc) \<noteq> Waiting \<Longrightarrow> llama_Start sc l w \<noteq> None"
  by (auto simp: llama_Start_def Let_def split: option.splits wait_result.splits wait_event.splits prod.splits)

interpretation cluster_manager: manager_service "cluster_env lib secret inp files endpoint_ok" "holding secret inp known"
  for lib secret inp files endpoint_ok known
proof unfold_locales
  let ?env = "cluster_env lib secret inp files endpoint_ok"
  fix s h r url assume "holding secret inp known s h r"
  then show "holding secret inp known (snd (me_health ?env s url)) h r"
    by (simp add: cluster_env_def holding_others)
next
  fix s req g s' assume "holding secret inp known s None None"
    "me_create (cluster_env lib secret inp files endpoint_ok) s req = (Inr (201, Some g), s')"
  then show "dg_GroupID g \<noteq> '''' \<and> 2 \<le> length (dg_Stages g) \<and> holding secret inp known s' (Some (dg_GroupID g)) None"
    using holding_created [of secret inp known s lib req g s'] by (simp add: cluster_env_def)
next
  fix s req a s' assume "holding secret inp known s None None"
    "me_create (cluster_env lib secret inp files endpoint_ok) s req = (a, s')" "\<forall>g. a \<noteq> Inr (201, Some g)"
  then show "holding secret inp known s' None None"
    using holding_refused [of secret inp known s lib req a s'] by (simp add: cluster_env_def)
next
  fix s i r assume "holding secret inp known s (Some i) r"
  then show "holding secret inp known (me_release (cluster_env lib secret inp files endpoint_ok) s i) None r"
    by (simp add: cluster_env_def holding_released)
next
  fix s h l address l' s' assume a: "holding secret inp known s h None"
    "me_start (cluster_env lib secret inp files endpoint_ok) s l = ((Inr address, l'), s')"
  then obtain procs where st: "llama_Start (ci_script (inp (cu_step s))) l (cu_procs s) = Some (Inr address, l', procs)"
    "s' = serve_others lib (inp (cu_step s)) s\<lparr>cu_procs := procs\<rparr>"
    by (auto simp: cluster_env_def cluster_start_def Let_def split: option.splits sum.splits)
  moreover have "pw_alive (cu_procs s) = []" using a(1) by (cases "pw_alive (cu_procs s)") (auto simp: holding_def)
  ultimately show "holding secret inp known s' h (Some l')"
    using holding_others [OF a(1), of lib "cu_step s"] llama_Start_alive [OF st(1)] by (auto simp: holding_def)
next
  fix s h l e l' s' assume a: "holding secret inp known s h None"
    "me_start (cluster_env lib secret inp files endpoint_ok) s l = ((Inl e, l'), s')"
  have "await_ready (sc_polls (ci_script (inp (cu_step s)))) \<noteq> Waiting" using a(1) by (simp add: holding_def inputs_ok_def)
  with a(2) obtain e' procs where st: "llama_Start (ci_script (inp (cu_step s))) l (cu_procs s) = Some (Inl e', l', procs)"
    "s' = serve_others lib (inp (cu_step s)) s\<lparr>cu_procs := procs\<rparr>"
    by (auto simp: cluster_env_def cluster_start_def Let_def llama_Start_returns split: option.splits sum.splits)
  moreover have "pw_alive (cu_procs s) = []" using a(1) by (cases "pw_alive (cu_procs s)") (auto simp: holding_def)
  ultimately show "holding secret inp known s' h None"
    using holding_others [OF a(1), of lib "cu_step s"] llama_Start_alive [OF st(1)] by (auto simp: holding_def)
next
  fix s h l assume a: "holding secret inp known s h (Some l)"
  have "pw_alive (snd (llama_stopLocked l (cu_procs s))) =
      (case ll_cmd l of None \<Rightarrow> pw_alive (cu_procs s) | Some pid \<Rightarrow> filter (\<lambda>p. fst p \<noteq> pid) (pw_alive (cu_procs s)))"
    by (simp add: llama_stopLocked_def split: option.split)
  also have "\<dots> = []" using a by (intro filter_own) (auto simp: holding_def)
  finally have "pw_alive (snd (llama_stopLocked l (cu_procs s))) = []" .
  with a show "holding secret inp known (me_stop (cluster_env lib secret inp files endpoint_ok) s l) h None"
    by (auto simp: cluster_env_def holding_def)
qed

section \<open>The property\<close>

text \<open>
  C33. What a manager leaves behind in the cluster: after any calls of \<open>Ensure\<close> and \<open>Close\<close> against a control plane that
  also serves any requests of others, and over a network that may lose the request for a group, its reply or a
  release, the control plane knows no groups but those it knew before, those others have created, the one the
  manager holds, and those lost on the way: created without the manager getting the reply, or released by a request
  that was lost or met a control plane that no longer serves. At most one runtime process lives, the one the manager
  holds. After a final \<open>Close\<close> the manager holds no group and no process lives. When nothing is lost and no one
  else creates groups, there are no groups but those from before and the manager's, and none of the manager's
  after \<open>Close\<close>. Starting the runtime ends, as its deadline ensures, and a killed process is taken to end at once.
\<close>

theorem cluster_leaves_nothing_behind:
  assumes "run_manager (cluster_env lib secret inp files endpoint_ok) calls (NewManager cfg)
      (\<lparr>cu_server = server, cu_procs = \<lparr>pw_next = 0, pw_alive = []\<rparr>, cu_step = 0, cu_others = [], cu_lost = []\<rparr>, []) = Some (m, s', hist)"
    and "inputs_ok inp" and "sv_clientSecret server = secret" and "\<not> sv_mu server"
  shows "dom (map_of (sv_groups (cu_server s'))) \<subseteq>
      dom (map_of (sv_groups server)) \<union> set (cu_others s') \<union> set (cu_lost s') \<union>
        (if dg_GroupID (mn_group m) = '''' then {} else {dg_GroupID (mn_group m)}) \<and>
    length (pw_alive (cu_procs s')) \<le> 1 \<and>
    (\<forall>p\<in>set (pw_alive (cu_procs s')). \<exists>l. mn_runtime m = Some l \<and> ll_cmd l = Some (fst p)) \<and>
    (calls \<noteq> [] \<and> last calls = CallClose \<longrightarrow> dg_GroupID (mn_group m) = '''' \<and> pw_alive (cu_procs s') = []) \<and>
    (undisturbed inp \<longrightarrow> cu_others s' = [] \<and> cu_lost s' = [])"
proof -
  let ?s0 = "\<lparr>cu_server = server, cu_procs = \<lparr>pw_next = 0, pw_alive = []\<rparr>, cu_step = 0, cu_others = [], cu_lost = []\<rparr>"
  have "holding secret inp (group_ids server) ?s0 (held_group (NewManager cfg)) (mn_runtime (NewManager cfg))"
    using assms(2-4) by (simp add: holding_def)
  with cluster_manager.run_manager_holding [OF assms(1)]
  have h: "holding secret inp (group_ids server) s' (held_group m) (mn_runtime m)" by simp
  have "dg_GroupID (mn_group m) = '''' \<and> pw_alive (cu_procs s') = []"
    if "calls \<noteq> []" "last calls = CallClose"
    using closed_manager [OF assms(1) that] h
    by (cases "pw_alive (cu_procs s')") (auto simp: holding_def group_ids_def held_group_def)
  with h show ?thesis by (auto simp: holding_def group_ids_def held_group_def split: if_splits)
qed

definition sample_cluster_input :: cluster_input where
  "sample_cluster_input = \<lparr>ci_others = [], ci_create = Delivered, ci_release_lost = False, ci_clk = sample_clock, ci_group = Some sample_gid,
     ci_nonces = [Some sample_nonce, Some sample_nonce2], ci_script = sample_script [(True, Tick)], ci_health = Some 200\<rparr>"

theorem cluster_leaves_nothing_behind_witness:
  "\<exists>m s' hist. run_manager (cluster_env (claims_codec zero_claims) ''k'' (\<lambda>_. sample_cluster_input)
         (\<lambda>_. Some (put_file 3 sample_entries sample_tensors)) (\<lambda>_. True)) [CallEnsure ''m'' ''p'' '''' 0, CallClose]
       (NewManager sample_manager_config) (\<lparr>cu_server = sample_server, cu_procs = \<lparr>pw_next = 0, pw_alive = []\<rparr>, cu_step = 0,
         cu_others = [], cu_lost = []\<rparr>, []) = Some (m, s', hist) \<and> sv_groups (cu_server s') = [] \<and> pw_alive (cu_procs s') = []"
proof -
  let ?env = "cluster_env (claims_codec zero_claims) ''k'' (\<lambda>_. sample_cluster_input)
    (\<lambda>_. Some (put_file 3 sample_entries sample_tensors)) (\<lambda>_. True)"
  let ?calls = "[CallEnsure ''m'' ''p'' '''' 0, CallClose]"
  obtain m s' hist where run: "run_manager ?env ?calls (NewManager sample_manager_config)
      (\<lparr>cu_server = sample_server, cu_procs = \<lparr>pw_next = 0, pw_alive = []\<rparr>, cu_step = 0, cu_others = [], cu_lost = []\<rparr>, []) = Some (m, s', hist)"
    using run_manager_returns [of ?env ?calls] by (metis prod.exhaust)
  have "inputs_ok (\<lambda>_. sample_cluster_input)" "sv_clientSecret sample_server = ''k''" "\<not> sv_mu sample_server" "sv_groups sample_server = []"
    by (simp_all add: inputs_ok_def sample_cluster_input_def sample_gid_def sample_script_def sample_pool_simps)
  moreover have "undisturbed (\<lambda>_. sample_cluster_input)" by (simp add: undisturbed_def sample_cluster_input_def)
  ultimately have "dom (map_of (sv_groups (cu_server s'))) \<subseteq> {}" "pw_alive (cu_procs s') = []"
    using cluster_leaves_nothing_behind [OF run] by auto
  with run show ?thesis by (auto simp: dom_map_of_conv_image_fst)
qed

end
