(* ===== verification/Control_Renewal.thy ===== *)
theory Control_Renewal
  imports Control_Runs Manager
begin

text \<open>
  A manager that renews its group (\<open>startRenewLocked\<close> of \<open>src/internal/distributed/manager.go\<close>) against the
  control plane that expires it (\<open>src/internal/control/server.go\<close>), with other requests in between.
\<close>

section \<open>One request\<close>

text \<open>The group \<open>gid\<close> and all its reservations \<open>ids\<close> are there until \<open>e\<close>.\<close>

definition lives :: "string \<Rightarrow> string list \<Rightarrow> int \<Rightarrow> Server \<Rightarrow> bool" where
  "lives gid ids e s \<longleftrightarrow> map_of (sv_groups s) gid = Some \<lparr>gv_reservationIDs = ids, gv_expiresAt = e\<rparr> \<and>
     (\<forall>i\<in>set ids. \<exists>r. map_of (sv_reservations s) i = Some r \<and> rv_expiresAt r = e)"

text \<open>A request that neither releases the group or one of its reservations nor renews the group.\<close>

fun spares :: "string \<Rightarrow> string list \<Rightarrow> request \<Rightarrow> bool" where
  "spares gid ids (ReleaseLease _ i) = (i \<notin> set ids)"
| "spares gid ids (ReleaseGroup _ g) = (g \<noteq> gid)"
| "spares gid ids (RenewGroup _ g _) = (g \<noteq> gid)"
| "spares gid ids _ = True"

text \<open>The time a request reads when it expires reservations, if it does.\<close>

fun request_before :: "int \<Rightarrow> request \<Rightarrow> bool" where
  "request_before t (ListNodes _ now) = (now < t)"
| "request_before t (CreateLease _ _ clk _) = (at_expire clk < t)"
| "request_before t (CreateGroup _ _ clk _ _) = (at_expire clk < t)"
| "request_before t (RenewGroup _ _ now) = (now < t)"
| "request_before t _ = True"

lemma lives_expire: "server_ok s \<Longrightarrow> lives gid ids e s \<Longrightarrow> t < e \<Longrightarrow> lives gid ids e (expireReservationsLocked t s)"
  by (fastforce simp: lives_def server_ok_def expire_groups expire_reservations)

lemma lives_cong:
  "lives gid ids e s \<Longrightarrow> map_of (sv_groups s') gid = map_of (sv_groups s) gid \<Longrightarrow>
     (\<And>i. i \<in> set ids \<Longrightarrow> map_of (sv_reservations s') i = map_of (sv_reservations s) i) \<Longrightarrow> lives gid ids e s'"
  by (simp add: lives_def)

lemma lives_lease:
  assumes "server_ok s" "lives gid ids e s" "fresh_nonces s [rnd]" "at_expire clk < e"
    "createLease lib s secret body clk rnd = (r, s')"
  shows "lives gid ids e s'"
proof (cases "\<exists>st lease. r = Reply (JSON st lease)")
  case True
  let ?s1 = "expireReservationsLocked (at_expire clk) s"
  note l = lives_expire [OF assms(1,2,4)]
  from True assms(5) obtain st lease where "createLease lib s secret body clk rnd = (Reply (JSON st lease), s')" by auto
  then show ?thesis
  proof (rule createLease_JSON)
    fix req token claims
    assume i: "IssueModel lib rnd (at_issue clk) (lease_secret_for s (ls_NodeID lease)) (ls_NodeID lease) (lr_Model req)
       (lr_ModelDigest req) (lr_ModelSize req) (leaseTTL s (lr_ModelSize req)) = Inr (token, claims)"
      and s': "s' = ?s1\<lparr>sv_reservations := AList.update (cl_Nonce claims) \<lparr>rv_nodeID = ls_NodeID lease,
           rv_expiresAt = reservation_expiry (at_book clk) (cl_ExpiresAt claims)\<rparr> (sv_reservations ?s1)\<rparr>"
    then obtain x where "rnd = Some x" "cl_Nonce claims = b64_encode x" by (auto simp: IssueModel_def issueClaims_Inr)
    with assms(3) fresh_nonce_groups [of s x gid] assms(2) have "cl_Nonce claims \<notin> set ids" by (auto simp: lives_def)
    with l show ?thesis by (intro lives_cong [OF l]) (auto simp: s' update_conv')
  qed
next
  case False
  with assms(5) have "s' = s \<or> s' = expireReservationsLocked (at_expire clk) s"
    by (auto simp: createLease_def handler_defs split: if_splits option.splits sum.splits)
  with lives_expire [OF assms(1,2,4)] assms(2) show ?thesis by blast
qed

lemma lives_group:
  assumes "server_ok s" "lives gid ids e s" "fresh_request s (CreateGroup secret body clk rg rnds)" "at_expire clk < e"
    "createDistributedGroup lib s secret body clk rg rnds = (r, s')"
  shows "lives gid ids e s'"
  using assms(5)
proof (cases rule: createDistributedGroup_cases)
  case refused
  with lives_expire [OF assms(1,2,4)] assms(2) show ?thesis by blast
next
  case panic
  then show ?thesis by (intro lives_cong [OF lives_expire [OF assms(1,2,4)]]) auto
next
  case (rollback req plan xs)
  have "i \<notin> set (map b64_encode xs)" if "i \<in> set ids" for i
    using fresh_nonces_prefix(2) [OF _ rollback(5), of s i] assms(2,3) that by (fastforce simp: lives_def)
  with rollback show ?thesis
    by (intro lives_cong [OF lives_expire [OF assms(1,2,4)]]) (auto simp: map_of_delete_all)
next
  case (booked req plan xs g gid')
  let ?s1 = "expireReservationsLocked (at_expire clk) s"
  have "i \<notin> set (map b64_encode xs)" if "i \<in> set ids" for i
    using fresh_nonces_prefix(2) [OF _ booked(8), of s i] assms(2,3) that by (fastforce simp: lives_def)
  moreover have "map_of (book_all e' bs res) i = map_of res i" if "i \<notin> fst ` set bs" for e' bs res i
    using that by (induction bs arbitrary: res) (auto simp: update_conv')
  moreover have "fst ` set (zip (map b64_encode xs) (map sa_NodeID plan)) = set (map b64_encode xs)"
    using booked(7) by (metis length_map list.set_map map_fst_zip)
  moreover have "b64_encode gid' \<noteq> gid" using assms(2,3) booked(6) by (auto simp: lives_def)
  ultimately show ?thesis using booked(13)
    by (intro lives_cong [OF lives_expire [OF assms(1,2,4)]]) (auto simp: update_conv')
qed

lemma lives_spared:
  assumes ok: "server_ok s" and sync: "group_sync s" and l: "lives gid ids e s" and "fresh_request s req" "spares gid ids req" "request_before e req"
  shows "lives gid ids e (serve lib s req)"
proof (cases req)
  case (RegisterNode secret body now)
  obtain r s' where run: "register s secret body now = (r, s')" by fastforce
  with RegisterNode register_effect [OF run] show ?thesis by (intro lives_cong [OF l]) auto
next
  case (ListNodes secret now)
  with lives_expire [OF ok l] l assms(6) show ?thesis by (auto simp: listNodes_def handler_defs)
next
  case (CreateLease secret body clk rnd)
  then show ?thesis using lives_lease [OF ok l, of rnd clk lib secret body] assms by (cases "createLease lib s secret body clk rnd") auto
next
  case (CreateGroup secret body clk rg rnds)
  then show ?thesis using lives_group [OF ok l, of secret body clk rg rnds lib] assms
    by (cases "createDistributedGroup lib s secret body clk rg rnds") auto
next
  case (ReleaseLease secret i)
  with assms(5) show ?thesis by (intro lives_cong [OF l]) (auto simp: releaseLease_def handler_defs delete_conv')
next
  case (ReleaseGroup secret g)
  have "i \<notin> set (gv_reservationIDs grp)" if "map_of (sv_groups s) g = Some grp" "i \<in> set ids" for grp i
    using sync l that assms(5) ReleaseGroup unfolding group_sync_def lives_def by fastforce
  with ReleaseGroup assms(5) show ?thesis
    by (intro lives_cong [OF l]) (auto simp: releaseDistributedGroup_def handler_defs delete_conv' map_of_delete_all split: option.splits)
next
  case (RenewGroup secret g now)
  let ?s1 = "expireReservationsLocked now s"
  have l1: "lives gid ids e ?s1" using lives_expire [OF ok l] assms(6) RenewGroup by simp
  have "i \<notin> set (gv_reservationIDs grp)" if "map_of (sv_groups ?s1) g = Some grp" "i \<in> set ids" for grp i
    using group_sync_expire [OF ok sync, of now] l1 that assms(5) RenewGroup unfolding group_sync_def lives_def by fastforce
  then have "lives gid ids e (?s1\<lparr>sv_groups := AList.update g grp' (sv_groups ?s1),
      sv_reservations := foldl (renew_reservation e') (sv_reservations ?s1) (gv_reservationIDs grp)\<rparr>)"
    if "map_of (sv_groups ?s1) g = Some grp" for grp grp' e'
    using that assms(5) RenewGroup by (intro lives_cong [OF l1]) (auto simp: update_conv' map_of_renew)
  with RenewGroup l l1 show ?thesis by (auto simp: renewDistributedGroup_def handler_defs split: option.splits)
qed (use l in simp)

lemma lives_renewed:
  assumes "server_ok s" "lives gid ids e s" "now < e" "secret = sv_clientSecret s" "\<not> sv_mu s"
  shows "lives gid ids (now + minutes 15) (serve lib s (RenewGroup secret gid now))"
  using lives_expire [OF assms(1-3)] assms(4,5)
  by (auto simp: renewDistributedGroup_def authorizeClient_def handler_defs lives_def update_conv' map_of_renew)

section \<open>A renewed group\<close>

text \<open>
  The requests of others between two ticks: with new random values, in time before \<open>t\<close>, sparing the
  group, and without the panic that stops the control plane.
\<close>

fun others_ok :: "json_codec \<Rightarrow> string \<Rightarrow> string list \<Rightarrow> int \<Rightarrow> Server \<Rightarrow> request list \<Rightarrow> bool" where
  "others_ok lib gid ids t s [] = True"
| "others_ok lib gid ids t s (req # reqs) =
     (fresh_request s req \<and> spares gid ids req \<and> request_before t req \<and> \<not> sv_mu (serve lib s req) \<and>
      others_ok lib gid ids t (serve lib s req) reqs)"

text \<open>One tick after another, every five minutes: the renewal, if it gets through, and the requests of others.\<close>

fun renewed_run :: "json_codec \<Rightarrow> string \<Rightarrow> string \<Rightarrow> int \<Rightarrow> Server \<Rightarrow> (bool \<times> request list) list \<Rightarrow> Server" where
  "renewed_run lib secret gid t s [] = s"
| "renewed_run lib secret gid t s ((sent, others) # ticks) =
     (let s1 = foldl (serve lib) s (map (\<lambda>(i, now). RenewGroup secret i now) (startRenewLocked gid [RenewTick t sent]))
      in renewed_run lib secret gid (t + minutes 5) (foldl (serve lib) s1 others) ticks)"

fun ticks_ok :: "json_codec \<Rightarrow> string \<Rightarrow> string \<Rightarrow> string list \<Rightarrow> int \<Rightarrow> Server \<Rightarrow> bool \<Rightarrow> (bool \<times> request list) list \<Rightarrow> bool" where
  "ticks_ok lib secret gid ids t s lost [] = True"
| "ticks_ok lib secret gid ids t s lost ((sent, others) # ticks) =
     (let s1 = foldl (serve lib) s (map (\<lambda>(i, now). RenewGroup secret i now) (startRenewLocked gid [RenewTick t sent]))
      in (sent \<or> \<not> lost) \<and> others_ok lib gid ids (t + minutes 5) s1 others \<and>
         ticks_ok lib secret gid ids (t + minutes 5) (foldl (serve lib) s1 others) (\<not> sent) ticks)"

lemma lives_others:
  "others_ok lib gid ids t s reqs \<Longrightarrow> server_ok s \<Longrightarrow> group_sync s \<Longrightarrow> lives gid ids e s \<Longrightarrow> t \<le> e \<Longrightarrow> \<not> sv_mu s \<Longrightarrow>
     lives gid ids e (foldl (serve lib) s reqs) \<and> server_ok (foldl (serve lib) s reqs) \<and> group_sync (foldl (serve lib) s reqs) \<and>
     \<not> sv_mu (foldl (serve lib) s reqs) \<and> sv_clientSecret (foldl (serve lib) s reqs) = sv_clientSecret s"
proof (induction reqs arbitrary: s)
  case (Cons req reqs)
  have "request_before e req" using Cons.prems(1,5) by (cases req) auto
  with lives_spared [OF Cons.prems(2-4)] Cons.prems(1) have "lives gid ids e (serve lib s req)" by simp
  with Cons.IH [of "serve lib s req"] Cons.prems server_ok_serve [OF Cons.prems(2)] group_sync_serve [OF Cons.prems(2,3)]
  show ?case by simp
qed simp

lemma lives_ticks:
  assumes "ticks_ok lib secret gid ids t s lost ticks" "server_ok s" "group_sync s" "lives gid ids e s" "\<not> sv_mu s"
    "secret = sv_clientSecret s" "t + (if lost then minutes 5 else minutes 10) \<le> e"
  shows "\<exists>e'. lives gid ids e' (renewed_run lib secret gid t s ticks) \<and> t + minutes 5 * int (length ticks) < e'"
  using assms
proof (induction ticks arbitrary: t s lost e)
  case Nil
  then show ?case by (auto simp: minutes_def seconds_def split: if_splits)
next
  case (Cons tick ticks)
  obtain sent others where tick: "tick = (sent, others)" by fastforce
  let ?s1 = "foldl (serve lib) s (map (\<lambda>(i, now). RenewGroup secret i now) (startRenewLocked gid [RenewTick t sent]))"
  let ?s2 = "foldl (serve lib) ?s1 others" and ?e = "if sent then t + minutes 15 else e"
  have t: "t < e" using Cons.prems(7) by (auto simp: minutes_def seconds_def split: if_splits)
  have s1: "?s1 = (if sent then serve lib s (RenewGroup secret gid t) else s)" by simp
  have ok1: "server_ok ?s1" "group_sync ?s1" "sv_clientSecret ?s1 = sv_clientSecret s"
    unfolding s1 using Cons.prems(2,3) server_ok_serve [OF Cons.prems(2)] group_sync_serve [OF Cons.prems(2,3)]
    by (simp_all del: serve.simps)
  have mu1: "\<not> sv_mu ?s1"
    using Cons.prems(5) by (auto simp: renewDistributedGroup_def handler_defs split: option.splits)
  have l1: "lives gid ids ?e ?s1"
    using lives_renewed [OF Cons.prems(2,4) t Cons.prems(6,5)] Cons.prems(4) by simp
  have e: "t + minutes 5 + (if \<not> sent then minutes 5 else minutes 10) \<le> ?e"
    using Cons.prems(1,7) tick by (auto simp: minutes_def seconds_def Let_def split: if_splits)
  then have "t + minutes 5 \<le> ?e" by (auto simp: minutes_def seconds_def split: if_splits)
  note o = lives_others [OF _ ok1(1,2) l1 this mu1]
  have ok: "others_ok lib gid ids (t + minutes 5) ?s1 others" "ticks_ok lib secret gid ids (t + minutes 5) ?s2 (\<not> sent) ticks"
    using Cons.prems(1) by (simp_all only: tick ticks_ok.simps Let_def)
  have "\<exists>e'. lives gid ids e' (renewed_run lib secret gid (t + minutes 5) ?s2 ticks) \<and>
      t + minutes 5 + minutes 5 * int (length ticks) < e'"
    using o [OF ok(1)] ok1(3) Cons.prems(6) e by (intro Cons.IH [OF ok(2)]) simp_all
  then show ?case by (simp add: tick Let_def algebra_simps)
qed

text \<open>
  C34. A running manager keeps its group: in every state the control plane reaches, when a group with
  all its reservations has at least ten minutes left and the manager renews it every five minutes, no
  two renewals in a row being lost, then, however the requests of others come in between, as long as
  none of them releases the group or its reservations, the group and each of its reservations are
  still there and unexpired after any number of ticks.
\<close>

theorem renewed_group_stays:
  assumes "reachable lib (NewWithNodeCredentials hostSecret clientSecret leaseSecret ttl credentials) s"
    and "map_of (sv_groups s) gid = Some \<lparr>gv_reservationIDs = ids, gv_expiresAt = e\<rparr>"
    and "\<forall>i\<in>set ids. map_of (sv_reservations s) i \<noteq> None"
    and "t + minutes 10 \<le> e" and "secret = sv_clientSecret s" and "\<not> sv_mu s"
    and "ticks_ok lib secret gid ids t s False ticks"
  shows "\<exists>e'. t + minutes 5 * int (length ticks) < e' \<and>
    map_of (sv_groups (renewed_run lib secret gid t s ticks)) gid = Some \<lparr>gv_reservationIDs = ids, gv_expiresAt = e'\<rparr> \<and>
    (\<forall>i\<in>set ids. \<exists>r. map_of (sv_reservations (renewed_run lib secret gid t s ticks)) i = Some r \<and> rv_expiresAt r = e')"
proof -
  have inv: "server_ok s" "group_sync s" using reachable_invariant [OF assms(1)] by simp_all
  have "lives gid ids e s" using inv(2) assms(2,3) unfolding group_sync_def lives_def by fastforce
  from lives_ticks [OF assms(7) inv this assms(6,5)] assms(4) show ?thesis by (auto simp: lives_def)
qed

text \<open>One lost renewal is made up for; after two in a row the group has expired.\<close>

theorem renewed_group_stays_witness:
  "\<exists>e'. map_of (sv_groups (renewed_run (claims_codec zero_claims) ''k'' (b64_encode sample_gid) (seconds 305) grouped_server
       [(True, []), (False, []), (True, [ListNodes ''k'' (seconds 1000)])])) (b64_encode sample_gid) =
     Some \<lparr>gv_reservationIDs = [b64_encode sample_nonce, b64_encode sample_nonce2], gv_expiresAt = e'\<rparr>"
proof -
  let ?ids = "[b64_encode sample_nonce, b64_encode sample_nonce2]"
  let ?ticks = "[(True, []), (False, []), (True, [ListNodes ''k'' (seconds 1000)])]"
  have g: "map_of (sv_groups grouped_server) (b64_encode sample_gid) = Some \<lparr>gv_reservationIDs = ?ids, gv_expiresAt = seconds 905\<rparr>"
    "\<forall>i\<in>set ?ids. map_of (sv_reservations grouped_server) i \<noteq> None" "''k'' = sv_clientSecret grouped_server" "\<not> sv_mu grouped_server"
    using grouped_server_books by auto
  have mu: "\<not> sv_mu (serve lib (serve lib s a) b) \<and> \<not> sv_mu (serve lib (serve lib (serve lib s a) b) c)"
    if "\<not> sv_mu s" "a = RenewGroup k i n" "b = RenewGroup k i n'" "c = ListNodes k m" for lib s a b c k i n n' m
    using that by (auto simp: renewDistributedGroup_def listNodes_def handler_defs split: option.splits)
  have "ticks_ok (claims_codec zero_claims) ''k'' (b64_encode sample_gid) ?ids (seconds 305) grouped_server False ?ticks"
    using mu [OF g(4) refl refl refl] by (simp add: Let_def minutes_def seconds_def)
  moreover have "seconds 305 + minutes 10 \<le> seconds 905" by (simp add: seconds_def minutes_def)
  ultimately show ?thesis using renewed_group_stays [OF grouped_server_reachable g(1,2) _ g(3,4)] by blast
qed

end
