(* ===== verification/Inventory.thy ===== *)
theory Inventory
  imports Api Go_Strings
begin

text \<open>
  The hardware inventory a host reports (\<open>src/internal/hardware/inventory.go\<close>, \<open>memory_linux.go\<close>): the rows
  of \<open>nvidia-smi\<close> and the memory figures of \<open>/proc/meminfo\<close>. The outputs of the command and of the file
  are arguments, \<open>None\<close> where they cannot be had.
\<close>

datatype inventory_error = UnexpectedRow string | NotANumber string | LineTooLong

section \<open>GPUs\<close>

text \<open>The body of the loop of \<open>ParseNvidiaSMI\<close> for a line that is not blank.\<close>

definition parse_row :: "string \<Rightarrow> inventory_error + GPUDevice" where
  "parse_row line =
     (let parts = split_on CHR '','' line
      in if length parts \<noteq> 7 then Inl (UnexpectedRow line)
         else
           let parts = map TrimSpace parts
           in (case Atoi (parts ! 0) of
                 None \<Rightarrow> Inl (NotANumber (parts ! 0))
               | Some index \<Rightarrow>
                   (case Atoi (parts ! 3) of
                      None \<Rightarrow> Inl (NotANumber (parts ! 3))
                    | Some tot \<Rightarrow>
                        (case Atoi (parts ! 4) of
                           None \<Rightarrow> Inl (NotANumber (parts ! 4))
                         | Some free \<Rightarrow>
                             Inr \<lparr>gpu_Index = index, gpu_Name = parts ! 1, gpu_UUID = parts ! 2, gpu_MemoryTotalMB = tot,
                                  gpu_MemoryFreeMB = free, gpu_DriverVersion = parts ! 5, gpu_ComputeCapability = parts ! 6\<rparr>))))"

fun parse_rows :: "string list \<Rightarrow> GPUDevice list \<Rightarrow> inventory_error + GPUDevice list" where
  "parse_rows [] devices = Inr devices"
| "parse_rows (text # lines) devices =
     (let line = TrimSpace text
      in if line = '''' then parse_rows lines devices
         else (case parse_row line of
                 Inl e \<Rightarrow> Inl e
               | Inr d \<Rightarrow> parse_rows lines (devices @ [d])))"

definition ParseNvidiaSMI :: "string \<Rightarrow> inventory_error + GPUDevice list" where
  "ParseNvidiaSMI output =
     (case scan_lines output of
        (lines, too_long) \<Rightarrow>
          (case parse_rows lines [] of
             Inl e \<Rightarrow> Inl e
           | Inr devices \<Rightarrow> if too_long then Inl LineTooLong else Inr devices))"

definition detectNVIDIA :: "string option \<Rightarrow> GPUDevice list" where
  "detectNVIDIA output =
     (case output of
        None \<Rightarrow> []
      | Some text \<Rightarrow> (case ParseNvidiaSMI text of Inl _ \<Rightarrow> [] | Inr devices \<Rightarrow> devices))"

section \<open>Memory\<close>

text \<open>\<open>strconv.ParseUint\<close> in base ten with 64 bits.\<close>

definition ParseUint :: "string \<Rightarrow> int option" where
  "ParseUint s =
     (if s \<noteq> [] \<and> list_all is_digit s \<and> digits_value s < 18446744073709551616 then Some (digits_value s) else None)"

fun meminfo_line :: "int \<times> int \<Rightarrow> string \<Rightarrow> int \<times> int" where
  "meminfo_line (tot, available) line =
     (let fields = strings_Fields line
      in if length fields < 2 then (tot, available)
         else (case ParseUint (fields ! 1) of
                 None \<Rightarrow> (tot, available)
               | Some kilobytes \<Rightarrow>
                   if fields ! 0 = ''MemTotal:'' then (kilobytes div 1024, available)
                   else if fields ! 0 = ''MemAvailable:'' then (tot, kilobytes div 1024)
                   else (tot, available)))"

definition detectMemoryMB :: "string option \<Rightarrow> int \<times> int" where
  "detectMemoryMB meminfo =
     (case meminfo of None \<Rightarrow> (0, 0) | Some text \<Rightarrow> foldl meminfo_line (0, 0) (fst (scan_lines text)))"

text \<open>On Windows the total and available bytes that \<open>GlobalMemoryStatusEx\<close> reports, if it succeeds; elsewhere nothing.\<close>

definition windows_detectMemoryMB :: "(64 word \<times> 64 word) option \<Rightarrow> int \<times> int" where
  "windows_detectMemoryMB status =
     (case status of None \<Rightarrow> (0, 0) | Some (tot, available) \<Rightarrow> (uint (drop_bit 20 tot), uint (drop_bit 20 available)))"

definition other_detectMemoryMB :: "int \<times> int" where
  "other_detectMemoryMB = (0, 0)"

text \<open>
  \<open>Detect\<close>, with the operating system, the architecture, the number of processors, and what the
  \<open>detectMemoryMB\<close> of the platform gives.
\<close>

definition Detect :: "string \<Rightarrow> string \<Rightarrow> int \<Rightarrow> int \<times> int \<Rightarrow> string option \<Rightarrow> HardwareInventory" where
  "Detect os arch cpus memory smi =
     \<lparr>hw_OS = os, hw_Arch = arch, hw_CPULogical = cpus, hw_MemoryMB = fst memory, hw_MemoryFreeMB = snd memory,
      hw_GPUDevices = detectNVIDIA smi\<rparr>"

section \<open>Lemmas\<close>

lemma raw_lines_concat:
  "\<forall>l\<in>set ls. CHR 0x0A \<notin> set l \<Longrightarrow> raw_lines (concat (map (\<lambda>l. l @ [CHR 0x0A]) ls)) = ls"
proof -
  assume "\<forall>l\<in>set ls. CHR 0x0A \<notin> set l"
  then have "split_on CHR 0x0A (concat (map (\<lambda>l. l @ [CHR 0x0A]) ls)) = ls @ [[]]"
    by (induction ls) (simp_all add: split_on_append)
  then show ?thesis by (simp add: raw_lines_def)
qed

lemma scan_lines_concat:
  assumes "\<forall>l\<in>set ls. CHR 0x0A \<notin> set l \<and> length l < 65536 \<and> (l \<noteq> [] \<longrightarrow> last l \<noteq> CHR 0x0D)"
  shows "scan_lines (concat (map (\<lambda>l. l @ [CHR 0x0A]) ls)) = (ls, False)"
proof -
  have raw: "raw_lines (concat (map (\<lambda>l. l @ [CHR 0x0A]) ls)) = ls" using assms by (intro raw_lines_concat) blast
  have short: "takeWhile (\<lambda>l. length l < 65536) ls = ls" and cr: "map drop_cr ls = ls"
    using assms by (auto simp: takeWhile_eq_all_conv drop_cr_def intro!: map_idI)
  show ?thesis unfolding scan_lines_def Let_def raw short cr by simp
qed

text \<open>A field of a row: not blank at its ends, without commas and newlines.\<close>

definition field_ok :: "string \<Rightarrow> bool" where
  "field_ok s \<longleftrightarrow> s \<noteq> [] \<and> \<not> is_space (hd s) \<and> \<not> is_space (last s) \<and> CHR '','' \<notin> set s \<and> CHR 0x0A \<notin> set s"

definition device_fields :: "GPUDevice \<Rightarrow> string list" where
  "device_fields d = [itoa (gpu_Index d), gpu_Name d, gpu_UUID d, itoa (gpu_MemoryTotalMB d), itoa (gpu_MemoryFreeMB d),
     gpu_DriverVersion d, gpu_ComputeCapability d]"

text \<open>The row \<open>nvidia-smi\<close> prints for a device with \<open>--format=csv,noheader,nounits\<close>.\<close>

definition smi_row :: "GPUDevice \<Rightarrow> string" where
  "smi_row d = hd (device_fields d) @ concat (map (\<lambda>f. '', '' @ f) (tl (device_fields d)))"

definition device_ok :: "GPUDevice \<Rightarrow> bool" where
  "device_ok d \<longleftrightarrow> 0 \<le> gpu_Index d \<and> gpu_Index d < 9223372036854775808 \<and> 0 \<le> gpu_MemoryTotalMB d \<and>
     gpu_MemoryTotalMB d < 9223372036854775808 \<and> 0 \<le> gpu_MemoryFreeMB d \<and> gpu_MemoryFreeMB d < 9223372036854775808 \<and>
     field_ok (gpu_Name d) \<and> field_ok (gpu_UUID d) \<and> field_ok (gpu_DriverVersion d) \<and> field_ok (gpu_ComputeCapability d) \<and>
     length (smi_row d) < 65536"

lemma itoa_field: "0 \<le> n \<Longrightarrow> n < 9223372036854775808 \<Longrightarrow> field_ok (itoa n) \<and> Atoi (itoa n) = Some n"
proof -
  assume n: "0 \<le> n" "n < 9223372036854775808"
  have "is_digit c" if "c \<in> set (itoa n)" for c
    using decimal_digits [of "nat n"] n that by (auto simp: itoa_def list_all_iff)
  moreover have "itoa n \<noteq> []" using decimal_digits [of "nat n"] n by (simp add: itoa_def)
  moreover have "\<not> is_digit CHR '',''" "\<not> is_digit CHR 0x0A" by (simp_all add: is_digit_def)
  ultimately have "field_ok (itoa n)" using is_space_digit by (auto simp: field_ok_def)
  with Atoi_decimal [of "nat n"] n show ?thesis by (simp add: itoa_def)
qed

lemma fields_ok: "device_ok d \<Longrightarrow> \<forall>f\<in>set (device_fields d). field_ok f"
  by (auto simp: device_fields_def device_ok_def itoa_field)

lemma split_fields:
  "\<forall>f\<in>set (x # xs). CHR '','' \<notin> set f \<Longrightarrow>
     split_on CHR '','' (x @ concat (map (\<lambda>f. '', '' @ f) xs)) = x # map (\<lambda>f. CHR '' '' # f) xs"
proof (induction xs arbitrary: x)
  case (Cons y ys)
  have "split_on CHR '','' (CHR '' '' # y @ concat (map (\<lambda>f. '', '' @ f) ys)) = (CHR '' '' # y) # map (\<lambda>f. CHR '' '' # f) ys"
    using Cons.IH [of "CHR '' '' # y"] Cons.prems by simp
  with Cons.prems split_on_append [of "CHR '',''" x "CHR '' '' # y @ concat (map (\<lambda>f. '', '' @ f) ys)"]
  show ?case by simp
qed (simp add: split_on_plain)

lemma TrimSpace_field [simp]: "field_ok f \<Longrightarrow> TrimSpace f = f" "field_ok f \<Longrightarrow> TrimSpace (CHR '' '' # f) = f"
  by (simp_all add: TrimSpace_leading is_space_def TrimSpace_id field_ok_def)

lemma smi_row_ends:
  assumes "device_ok d"
  shows "smi_row d \<noteq> []" "\<not> is_space (hd (smi_row d))" "\<not> is_space (last (smi_row d))" "CHR 0x0A \<notin> set (smi_row d)"
proof -
  note f = fields_ok [OF assms]
  then have "field_ok (itoa (gpu_Index d))" "field_ok (gpu_ComputeCapability d)" by (simp_all add: device_fields_def)
  then show "smi_row d \<noteq> []" "\<not> is_space (hd (smi_row d))" "\<not> is_space (last (smi_row d))"
    by (simp_all add: smi_row_def device_fields_def field_ok_def)
  show "CHR 0x0A \<notin> set (smi_row d)" using f by (auto simp: smi_row_def device_fields_def field_ok_def)
qed

lemma smi_row_cr: "last (smi_row d) = CHR 0x0D \<Longrightarrow> \<not> device_ok d"
  using smi_row_ends(3) [of d] by (auto simp: is_space_def)

lemma smi_row_length: "device_ok d \<Longrightarrow> length (smi_row d) < 65536"
  by (simp add: device_ok_def)

lemma parse_smi_row:
  assumes "device_ok d"
  shows "parse_row (smi_row d) = Inr d"
proof -
  note f = fields_ok [OF assms]
  then have "split_on CHR '','' (smi_row d) = hd (device_fields d) # map (\<lambda>f. CHR '' '' # f) (tl (device_fields d))"
    unfolding smi_row_def by (intro split_fields) (auto simp: device_fields_def field_ok_def)
  with f show ?thesis using assms by (simp add: parse_row_def device_fields_def device_ok_def itoa_field)
qed

lemma parse_smi_rows: "\<forall>d\<in>set ds. device_ok d \<Longrightarrow> parse_rows (map smi_row ds) acc = Inr (acc @ ds)"
  by (induction ds arbitrary: acc) (simp_all add: parse_smi_row smi_row_ends TrimSpace_id)

text \<open>
  The inventory of GPUs is read back exactly: for devices with non-negative numbers and fields without
  commas, the rows \<open>nvidia-smi\<close> prints for them parse to the same devices, in the same order.
\<close>

lemma nvidia_smi_round_trip:
  assumes "\<forall>d\<in>set devices. device_ok d"
  shows "ParseNvidiaSMI (concat (map (\<lambda>d. smi_row d @ [CHR 0x0A]) devices)) = Inr devices"
proof -
  have "scan_lines (concat (map (\<lambda>l. l @ [CHR 0x0A]) (map smi_row devices))) = (map smi_row devices, False)"
    using assms by (intro scan_lines_concat) (auto simp: smi_row_ends smi_row_length dest!: smi_row_cr)
  then show ?thesis using parse_smi_rows [OF assms, of "[]"] by (simp add: ParseNvidiaSMI_def comp_def)
qed

end
