(* ===== verification/Pinning.thy ===== *)
theory Pinning
  imports Sha256 Go_Strings
begin

text \<open>
  The pin on the relay's certificate: the configuration of the tunnel's TLS client
  (\<open>src/internal/tunnel/tls.go\<close>) and the fingerprint the certificate generator prints
  (\<open>src/cmd/certgen/main.go\<close>). A certificate is its DER bytes. The TLS handshake itself, which gives the
  peer's certificates to the check, is crypto/tls.
\<close>

section \<open>The pinned configuration\<close>

record tls_Config =
  tls_MinVersion :: nat
  tls_ServerName :: string
  tls_InsecureSkipVerify :: bool
  tls_fingerprint :: string

datatype pin_error = BadFingerprint | NoCertificate | FingerprintMismatch

text \<open>\<open>strings.ReplaceAll(fingerprint, ":", "")\<close>.\<close>

definition remove_colons :: "string \<Rightarrow> string" where
  "remove_colons s = filter (\<lambda>c. c \<noteq> CHR '':'') s"

text \<open>\<open>strings.EqualFold\<close>, for the letters of ASCII.\<close>

definition EqualFold :: "string \<Rightarrow> string \<Rightarrow> bool" where
  "EqualFold a b \<longleftrightarrow> ToLower a = ToLower b"

text \<open>The field \<open>tls_fingerprint\<close> is the fingerprint the closure \<open>VerifyPeerCertificate\<close> captures; TLS 1.3 is 0x0304.\<close>

definition PinnedTLSConfig :: "string \<Rightarrow> string \<Rightarrow> pin_error + tls_Config" where
  "PinnedTLSConfig serverName fingerprint0 =
     (let fingerprint = ToLower (remove_colons fingerprint0)
      in (case hex_decode fingerprint of
            None \<Rightarrow> Inl BadFingerprint
          | Some expected \<Rightarrow>
              if length expected \<noteq> 32 then Inl BadFingerprint
              else Inr \<lparr>tls_MinVersion = 0x0304, tls_ServerName = serverName, tls_InsecureSkipVerify = True,
                        tls_fingerprint = fingerprint\<rparr>))"

definition VerifyPeerCertificate :: "tls_Config \<Rightarrow> byte list list \<Rightarrow> pin_error option" where
  "VerifyPeerCertificate cfg rawCerts =
     (case rawCerts of
        [] \<Rightarrow> Some NoCertificate
      | raw # _ \<Rightarrow>
          if EqualFold (hex_encode (sha256 raw)) (tls_fingerprint cfg) then None else Some FingerprintMismatch)"

section \<open>The generated certificate\<close>

text \<open>The lines \<open>certgen\<close> prints for a certificate \<open>der\<close> at the given paths.\<close>

definition certgen_output :: "string \<Rightarrow> string \<Rightarrow> string \<Rightarrow> byte list \<Rightarrow> string" where
  "certgen_output certPath keyPath host der =
     ''certificate='' @ certPath @ [CHR 0x0A] @ ''private_key='' @ keyPath @ [CHR 0x0A] @ ''server_name='' @ host @ [CHR 0x0A] @
     ''fingerprint_sha256='' @ hex_encode (sha256 der) @ [CHR 0x0A]"

section \<open>Lemmas\<close>

lemma ToLower_ToLower [simp]: "ToLower (ToLower s) = ToLower s"
proof -
  have "(of_char (char_of (n + 32 :: nat)) :: nat) = n + 32" if "n \<le> 90" for n using that by simp
  then show ?thesis by (auto simp: ToLower_def)
qed

lemma ToLower_hex_digit: "n < 16 \<Longrightarrow> ToLower [hex_digit n] = [hex_digit n]"
  by (auto simp: hex_digit_def ToLower_def)

lemma ToLower_Cons: "ToLower (c # s) = ToLower [c] @ ToLower s"
  by (simp add: ToLower_def)

lemma ToLower_append [simp]: "ToLower (a @ b) = ToLower a @ ToLower b"
  by (simp add: ToLower_def)

lemma ToLower_hex [simp]: "ToLower (hex_encode bs) = hex_encode bs"
proof (induction bs)
  case (Cons b bs)
  have "unat b div 16 < 16" by (rule less_mult_imp_div_less) simp
  then have "ToLower [hex_digit (unat b div 16), hex_digit (unat b mod 16)] = [hex_digit (unat b div 16), hex_digit (unat b mod 16)]"
    by (subst ToLower_Cons) (simp add: ToLower_hex_digit)
  moreover have "hex_encode (b # bs) = [hex_digit (unat b div 16), hex_digit (unat b mod 16)] @ hex_encode bs"
    by (simp add: hex_encode_def)
  ultimately show ?case by (metis Cons.IH ToLower_append)
qed (simp add: ToLower_def hex_encode_def)

lemma remove_colons_hex: "remove_colons (hex_encode bs) = hex_encode bs"
proof (induction bs)
  case (Cons b bs)
  have "hex_digit n \<noteq> CHR '':''" if "n < 16" for n
  proof
    assume "hex_digit n = CHR '':''"
    then have "(of_char (hex_digit n) :: nat) = 58" by simp
    with that show False by (auto simp: hex_digit_def split: if_splits)
  qed
  moreover have "unat b div 16 < 16" by (rule less_mult_imp_div_less) simp
  ultimately show ?case using Cons.IH by (simp add: remove_colons_def hex_encode_def)
qed (simp add: remove_colons_def hex_encode_def)

lemma hex_value_lower: "c' \<in> set (ToLower [c]) \<Longrightarrow> hex_value c' = hex_value c"
proof -
  assume "c' \<in> set (ToLower [c])"
  then have "(of_char c' :: nat) = (if 65 \<le> (of_char c :: nat) \<and> (of_char c :: nat) \<le> 90 then of_char c + 32 else of_char c)"
    by (auto simp: ToLower_def)
  then show ?thesis by (auto simp: hex_value_def Let_def split: if_splits)
qed

lemma hex_decode_lower: "hex_decode (ToLower s) = hex_decode s"
proof (induction s rule: hex_decode.induct)
  case (3 c d cs)
  have "ToLower (c # d # cs) = hd (ToLower [c]) # hd (ToLower [d]) # ToLower cs"
    by (simp add: ToLower_def)
  moreover have "hex_value (hd (ToLower [c])) = hex_value c" "hex_value (hd (ToLower [d])) = hex_value d"
    by (simp_all add: hex_value_lower ToLower_def)
  ultimately show ?case using 3 by (auto split: option.splits)
qed (simp_all add: ToLower_def)

lemma hex_digit_of_value: "hex_value c = Some n \<Longrightarrow> n < 16 \<and> [hex_digit n] = ToLower [c]"
proof -
  assume "hex_value c = Some n"
  moreover have "char_of (of_char c :: nat) = c" by simp
  ultimately show ?thesis
    by (auto simp: hex_value_def hex_digit_def ToLower_def Let_def add.commute split: if_splits)
qed

lemma unat_small_byte: "n < 256 \<Longrightarrow> unat (word_of_nat n :: byte) = n"
  by (simp add: unsigned_of_nat take_bit_nat_eq_self)

lemma hex_encode_decoded: "hex_decode s = Some v \<Longrightarrow> hex_encode v = ToLower s"
proof (induction s arbitrary: v rule: hex_decode.induct)
  case (3 c d cs)
  then obtain x y w where xy: "hex_value c = Some x" "hex_value d = Some y" and w: "hex_decode cs = Some w"
    and v: "v = word_of_nat (16 * x + y) # w" by (auto split: option.splits)
  note dx = hex_digit_of_value [OF xy(1)] and dy = hex_digit_of_value [OF xy(2)]
  then have "16 * x + y < 256" by simp
  then have "unat (word_of_nat (16 * x + y) :: byte) = 16 * x + y" by (rule unat_small_byte)
  then have "hex_encode v = [hex_digit x] @ [hex_digit y] @ hex_encode w"
    using dx dy by (simp add: v hex_encode_def)
  also have "\<dots> = ToLower [c] @ ToLower [d] @ ToLower cs" using "3.IH" [OF refl xy w] dx dy by simp
  finally show ?case by (simp add: ToLower_def)
qed (auto simp: hex_encode_def ToLower_def)

text \<open>A fingerprint is refused exactly when it is not the hexadecimal form of 32 bytes, and else pins those bytes.\<close>

lemma PinnedTLSConfig_cases:
  "PinnedTLSConfig serverName fp =
     (case hex_decode (remove_colons fp) of
        None \<Rightarrow> Inl BadFingerprint
      | Some expected \<Rightarrow>
          if length expected \<noteq> 32 then Inl BadFingerprint
          else Inr \<lparr>tls_MinVersion = 0x0304, tls_ServerName = serverName, tls_InsecureSkipVerify = True,
                    tls_fingerprint = hex_encode expected\<rparr>)"
  by (auto simp: PinnedTLSConfig_def Let_def hex_decode_lower hex_encode_decoded split: option.splits)

lemma VerifyPeerCertificate_None:
  assumes "tls_fingerprint cfg = hex_encode expected"
  shows "VerifyPeerCertificate cfg certs = None \<longleftrightarrow> (\<exists>raw rest. certs = raw # rest \<and> sha256 raw = expected)"
  using assms by (auto simp: VerifyPeerCertificate_def EqualFold_def hexadecimal.enc_inj split: list.splits)

section \<open>Property\<close>

text \<open>
  The fingerprint printed for a certificate, in any letter case and with colons anywhere, gives a
  client configuration that accepts a peer exactly when the first certificate it presents has the SHA-256
  digest of that certificate; and any other fingerprint pins some 32 bytes in the same way, or is refused.
\<close>

theorem pin_accepts_exactly_the_certificate:
  assumes "ToLower (remove_colons fp) = hex_encode (sha256 der)"
  shows "(\<exists>cfg. PinnedTLSConfig serverName fp = Inr cfg \<and> tls_ServerName cfg = serverName \<and>
       (\<forall>certs. VerifyPeerCertificate cfg certs = None \<longleftrightarrow> (\<exists>raw rest. certs = raw # rest \<and> sha256 raw = sha256 der))) \<and>
    (\<forall>fp' cfg. PinnedTLSConfig serverName fp' = Inr cfg \<longrightarrow>
       (\<exists>expected. hex_decode (remove_colons fp') = Some expected \<and> length expected = 32 \<and>
          (\<forall>certs. VerifyPeerCertificate cfg certs = None \<longleftrightarrow> (\<exists>raw rest. certs = raw # rest \<and> sha256 raw = expected))))"
proof -
  have "hex_decode (remove_colons fp) = Some (sha256 der)"
    using hex_decode_lower [of "remove_colons fp"] by (simp add: assms hexadecimal.dec_enc)
  then show ?thesis by (auto simp: PinnedTLSConfig_cases VerifyPeerCertificate_None split: option.splits if_splits)
qed

theorem pin_accepts_exactly_the_certificate_witness:
  "\<exists>cfg. PinnedTLSConfig ''relay'' (hex_encode (sha256 [1, 2, 3])) = Inr cfg \<and> VerifyPeerCertificate cfg [[1, 2, 3], [4]] = None"
proof -
  have "ToLower (remove_colons (hex_encode (sha256 [1, 2, 3]))) = hex_encode (sha256 [1, 2, 3])"
    by (simp add: remove_colons_hex)
  from pin_accepts_exactly_the_certificate [OF this, of "''relay''"] show ?thesis by blast
qed

end
