(* ===== verification/Endpoint.thy ===== *)
theory Endpoint
  imports Go_Strings
begin

text \<open>
  The address a host advertises (\<open>src/internal/networking/endpoint.go\<close>): the choice of a private IPv4
  address among the network interfaces. The interfaces are an argument; the addresses of an interface
  come parsed, with \<open>None\<close> for one that is not an address prefix.
\<close>

unbundle bit_operations_syntax

section \<open>Addresses\<close>

datatype netip_Addr = V4 "32 word" | V6 "128 word"

text \<open>An IPv4 address in an IPv6 one becomes the IPv4 address.\<close>

fun Unmap :: "netip_Addr \<Rightarrow> netip_Addr" where
  "Unmap (V4 a) = V4 a"
| "Unmap (V6 a) = (if drop_bit 32 a = 0xFFFF then V4 (ucast a) else V6 a)"

definition octet :: "nat \<Rightarrow> 32 word \<Rightarrow> nat" where
  "octet k a = unat (drop_bit (8 * (3 - k)) a AND 0xFF)"

definition IsLoopback :: "32 word \<Rightarrow> bool" where
  "IsLoopback a \<longleftrightarrow> octet 0 a = 127"

definition IsPrivate :: "32 word \<Rightarrow> bool" where
  "IsPrivate a \<longleftrightarrow> octet 0 a = 10 \<or> (octet 0 a = 172 \<and> 16 \<le> octet 1 a \<and> octet 1 a < 32) \<or> (octet 0 a = 192 \<and> octet 1 a = 168)"

definition addr_String :: "32 word \<Rightarrow> string" where
  "addr_String a = decimal (octet 0 a) @ ''.'' @ decimal (octet 1 a) @ ''.'' @ decimal (octet 2 a) @ ''.'' @ decimal (octet 3 a)"

section \<open>The choice\<close>

record Interface =
  if_Name :: string
  if_Up :: bool
  if_Loopback :: bool
  if_Addrs :: "netip_Addr option list option"

definition isVirtualInterface :: "string \<Rightarrow> bool" where
  "isVirtualInterface name \<longleftrightarrow>
     (\<exists>marker\<in>set [''docker'', ''wsl'', ''vethernet'', ''hyper-v'', ''vmware'', ''virtualbox'', ''loopback'', ''tailscale'', ''zerotier''].
        strings_Contains (ToLower name) marker)"

definition addr_candidates :: "bool \<Rightarrow> netip_Addr option \<Rightarrow> (32 word \<times> int) list" where
  "addr_candidates virtual raw =
     (case map_option Unmap raw of
        Some (V4 a) \<Rightarrow>
          if IsLoopback a \<or> \<not> IsPrivate a then []
          else [(a, 100 - (if virtual then 50 else 0) + (if take 8 (addr_String a) = ''192.168.'' then 10 else 0))]
      | _ \<Rightarrow> [])"

definition iface_candidates :: "Interface \<Rightarrow> (32 word \<times> int) list" where
  "iface_candidates iface =
     (if \<not> if_Up iface \<or> if_Loopback iface then []
      else (case if_Addrs iface of
              None \<Rightarrow> []
            | Some addrs \<Rightarrow> concat (map (addr_candidates (isVirtualInterface (if_Name iface))) addrs)))"

definition better :: "32 word \<times> int \<Rightarrow> 32 word \<times> int \<Rightarrow> bool" where
  "better x y \<longleftrightarrow> (if snd x \<noteq> snd y then snd y < snd x else fst x < fst y)"

definition PrivateIPv4 :: "Interface list \<Rightarrow> (32 word) option" where
  "PrivateIPv4 interfaces =
     (case sort_slice better (concat (map iface_candidates interfaces)) of [] \<Rightarrow> None | c # _ \<Rightarrow> Some (fst c))"

datatype endpoint_error = BadListenAddress addr_error | NoPrivateAddress

definition PublicEndpoint :: "Interface list \<Rightarrow> string \<Rightarrow> endpoint_error + string" where
  "PublicEndpoint interfaces listenAddr =
     (case SplitHostPort listenAddr of
        Inl e \<Rightarrow> Inl (BadListenAddress e)
      | Inr (_, port) \<Rightarrow>
          (case PrivateIPv4 interfaces of
             None \<Rightarrow> Inl NoPrivateAddress
           | Some a \<Rightarrow> Inr (''http://'' @ JoinHostPort (addr_String a) port)))"

section \<open>Lemmas\<close>

definition better_key :: "32 word \<times> int \<Rightarrow> int \<times> nat" where
  "better_key c = (- snd c, unat (fst c))"

lemma better_sort: "sort_slice better cs = sort_key better_key cs"
  by (rule sort_slice_key) (auto simp: better_def better_key_def less_prod_def' word_less_nat_alt)

lemma better_key_inj: "inj better_key"
  by (rule injI) (simp add: better_key_def prod_eq_iff word_unat_eq_iff)

lemma sort_key_Nil_iff: "sort_key f xs = [] \<longleftrightarrow> xs = []"
  by (metis length_0_conv length_sort)

lemma mset_concat_map: "mset (concat (map f xs)) = (\<Sum>x\<in>#mset xs. mset (f x))"
  by (induction xs) simp_all

lemma hd_sort_key_least: "xs \<noteq> [] \<Longrightarrow> hd (sort_key f xs) \<in> set xs \<and> (\<forall>x\<in>set xs. f (hd (sort_key f xs)) \<le> (f x :: 'k::linorder))"
proof -
  assume "xs \<noteq> []"
  then obtain y ys where y: "sort_key f xs = y # ys" by (cases "sort_key f xs") (simp_all add: sort_key_Nil_iff)
  have "sorted (map f (y # ys))" "set (y # ys) = set xs" using sorted_sort_key [of f xs] set_sort [of f xs] y by metis+
  with y show ?thesis by auto
qed

lemma PrivateIPv4_sort:
  "PrivateIPv4 ifs = (case sort_key better_key (concat (map iface_candidates ifs)) of [] \<Rightarrow> None | c # _ \<Rightarrow> Some (fst c))"
  by (simp add: PrivateIPv4_def better_sort)

lemma PrivateIPv4_None: "PrivateIPv4 ifs = None \<longleftrightarrow> (\<forall>iface\<in>set ifs. iface_candidates iface = [])"
proof -
  have "PrivateIPv4 ifs = None \<longleftrightarrow> sort_key better_key (concat (map iface_candidates ifs)) = []"
    by (simp add: PrivateIPv4_sort split: list.split)
  then show ?thesis by (simp add: sort_key_Nil_iff)
qed

lemma PrivateIPv4_perm:
  assumes "mset ifs = mset ifs'"
  shows "PrivateIPv4 ifs = PrivateIPv4 ifs'"
proof -
  have "mset (concat (map iface_candidates ifs)) = mset (concat (map iface_candidates ifs'))"
    by (simp only: mset_concat_map assms)
  then have "sort_key better_key (concat (map iface_candidates ifs)) = sort_key better_key (concat (map iface_candidates ifs'))"
    using better_key_inj by (intro sort_key_mset_cong) (auto intro: inj_on_subset)
  then show ?thesis by (simp add: PrivateIPv4_sort)
qed

lemma PrivateIPv4_best:
  assumes "PrivateIPv4 ifs = Some a"
  obtains iface score where "iface \<in> set ifs" "(a, score) \<in> set (iface_candidates iface)"
    "\<forall>other\<in>set ifs. \<forall>(b, s)\<in>set (iface_candidates other). s < score \<or> (s = score \<and> a \<le> b)"
proof -
  let ?cs = "concat (map iface_candidates ifs)"
  have "?cs \<noteq> []" using assms PrivateIPv4_None [of ifs] by auto
  from hd_sort_key_least [OF this, of better_key] assms obtain c where c: "c \<in> set ?cs" "\<forall>x\<in>set ?cs. better_key c \<le> better_key x" "a = fst c"
    by (auto simp: PrivateIPv4_sort split: list.splits)
  show thesis
  proof (rule that)
    show "(SOME iface. iface \<in> set ifs \<and> c \<in> set (iface_candidates iface)) \<in> set ifs"
      "(a, snd c) \<in> set (iface_candidates (SOME iface. iface \<in> set ifs \<and> c \<in> set (iface_candidates iface)))"
      using c(1,3) someI_ex [of "\<lambda>iface. iface \<in> set ifs \<and> c \<in> set (iface_candidates iface)"] by auto
    show "\<forall>other\<in>set ifs. \<forall>(b, s)\<in>set (iface_candidates other). s < snd c \<or> (s = snd c \<and> a \<le> b)"
      using c(2,3) by (fastforce simp: better_key_def less_eq_prod_def word_le_nat_alt)
  qed
qed

lemma candidate_private:
  assumes "(a, s) \<in> set (iface_candidates iface)"
  shows "if_Up iface" "\<not> if_Loopback iface" "IsPrivate a" "\<not> IsLoopback a"
  using assms by (auto simp: iface_candidates_def addr_candidates_def split: if_splits option.splits netip_Addr.splits)

lemma decimal_no_sep: "c \<in> set (decimal n) \<Longrightarrow> c \<noteq> CHR '':'' \<and> c \<noteq> CHR ''['' \<and> c \<noteq> CHR '']'' \<and> c \<noteq> CHR ''%''"
  using decimal_digits [of n] by (auto simp: list_all_iff is_digit_def)

lemma addr_String_plain: "c \<in> set (addr_String a) \<Longrightarrow> c \<noteq> CHR '':'' \<and> c \<noteq> CHR ''['' \<and> c \<noteq> CHR '']'' \<and> c \<noteq> CHR ''%''"
  by (auto simp: addr_String_def dest: decimal_no_sep)

text \<open>
  The advertised address: when a listen address names a port, the host advertises a private IPv4
  address of an interface that is up and not a loopback, with exactly that port; no candidate of any
  interface scores higher, and none that scores the same has a smaller address. It fails only when no
  interface has such an address, and the order of the interfaces does not matter.
\<close>

theorem advertised_address_best:
  assumes "SplitHostPort listenAddr = Inr (host, port)" and "CHR '':'' \<notin> set port" "CHR ''['' \<notin> set port" "CHR '']'' \<notin> set port"
    and "mset interfaces' = mset interfaces"
  shows "PublicEndpoint interfaces' listenAddr = PublicEndpoint interfaces listenAddr \<and>
    (case PublicEndpoint interfaces listenAddr of
       Inl e \<Rightarrow> e = NoPrivateAddress \<and> (\<forall>iface\<in>set interfaces. iface_candidates iface = [])
     | Inr url \<Rightarrow> \<exists>a iface score. take 7 url = ''http://'' \<and> SplitHostPort (drop 7 url) = Inr (addr_String a, port) \<and>
         iface \<in> set interfaces \<and> if_Up iface \<and> \<not> if_Loopback iface \<and> IsPrivate a \<and> (a, score) \<in> set (iface_candidates iface) \<and>
         (\<forall>other\<in>set interfaces. \<forall>(b, s)\<in>set (iface_candidates other). s < score \<or> (s = score \<and> a \<le> b)))"
proof -
  have "PublicEndpoint interfaces' listenAddr = PublicEndpoint interfaces listenAddr"
    by (simp only: PublicEndpoint_def PrivateIPv4_perm [OF assms(5)])
  moreover have "case PublicEndpoint interfaces listenAddr of
       Inl e \<Rightarrow> e = NoPrivateAddress \<and> (\<forall>iface\<in>set interfaces. iface_candidates iface = [])
     | Inr url \<Rightarrow> \<exists>a iface score. take 7 url = ''http://'' \<and> SplitHostPort (drop 7 url) = Inr (addr_String a, port) \<and>
         iface \<in> set interfaces \<and> if_Up iface \<and> \<not> if_Loopback iface \<and> IsPrivate a \<and> (a, score) \<in> set (iface_candidates iface) \<and>
         (\<forall>other\<in>set interfaces. \<forall>(b, s)\<in>set (iface_candidates other). s < score \<or> (s = score \<and> a \<le> b))"
  proof (cases "PrivateIPv4 interfaces")
    case None
    with assms(1) show ?thesis by (simp add: PublicEndpoint_def PrivateIPv4_None [symmetric])
  next
    case (Some a)
    have "SplitHostPort (JoinHostPort (addr_String a) port) = Inr (addr_String a, port)"
      using assms(2-4) addr_String_plain [of _ a] by (intro SplitHostPort_Join) blast+
    moreover obtain iface score where best: "iface \<in> set interfaces" "(a, score) \<in> set (iface_candidates iface)"
      "\<forall>other\<in>set interfaces. \<forall>(b, s)\<in>set (iface_candidates other). s < score \<or> (s = score \<and> a \<le> b)"
      by (rule PrivateIPv4_best [OF Some])
    ultimately show ?thesis using assms(1) Some candidate_private [OF best(2)]
      by (simp add: PublicEndpoint_def) (intro exI [of _ a] exI [of _ iface] conjI exI [of _ score], auto)
  qed
  ultimately show ?thesis by blast
qed

definition sample_interfaces :: "Interface list" where
  "sample_interfaces =
     [\<lparr>if_Name = ''Docker0'', if_Up = True, if_Loopback = False, if_Addrs = Some [Some (V4 0xC0A80001)]\<rparr>,
      \<lparr>if_Name = ''eth0'', if_Up = True, if_Loopback = False, if_Addrs = Some [None, Some (V6 0xFFFF0A000007), Some (V4 0x0A000005)]\<rparr>,
      \<lparr>if_Name = ''lo'', if_Up = True, if_Loopback = True, if_Addrs = Some [Some (V4 0x7F000001)]\<rparr>]"

lemma sample_endpoint: "PublicEndpoint sample_interfaces ''0.0.0.0:8091'' = Inr ''http://10.0.0.5:8091''"
  by code_simp

theorem advertised_address_best_witness:
  "\<exists>a iface. iface \<in> set sample_interfaces \<and> if_Up iface \<and> IsPrivate a \<and> SplitHostPort ''10.0.0.5:8091'' = Inr (addr_String a, ''8091'')"
proof -
  have "SplitHostPort ''0.0.0.0:8091'' = Inr (''0.0.0.0'', ''8091'')" by code_simp
  from advertised_address_best [OF this, of sample_interfaces sample_interfaces] show ?thesis
    unfolding sample_endpoint by auto
qed

end
