(* ===== verification/Startup.thy ===== *)
theory Startup
  imports Pinning Agent Endpoint Proxy Manager Control Stage
begin

text \<open>
  How the programs of \<open>src/cmd\<close> configure themselves. The environment maps the name of a variable to its
  value, the empty string when it is unset. Each main function up to the point where it listens is a
  function from the environment, and from what it reads besides, to the parts it has built or to the
  reason why it stops (\<open>log.Fatal\<close>). Listening, logging and signals are not modelled; the certificate
  generator is in theory \<open>Programs\<close>.
\<close>

type_synonym environment = "string \<Rightarrow> string"

datatype fatal =
    NotPositive string
  | NotInteger string
  | Required string
  | ConfigUnreadable
  | ConfigInvalid
  | NoClientSecret
  | IncompleteProvider
  | DuplicateProvider string
  | InvalidScope string
  | NoEndpoint endpoint_error
  | NoModelCache
  | NoCatalog catalog_error
  | NoCertificatePair
  | CannotListen
  | InvalidPairToken
  | InvalidTunnelMapping string
  | InvalidPin pin_error
  | InvalidAgent agent_error
  | InvalidStageKey
  | InvalidStageRuntime
  | InvalidModel gguf_error
  | Usage

text \<open>Continuing after a step that may be fatal.\<close>

definition and_then :: "fatal + 'a \<Rightarrow> ('a \<Rightarrow> fatal + 'b) \<Rightarrow> fatal + 'b" where
  "and_then r k = (case r of Inl e \<Rightarrow> Inl e | Inr x \<Rightarrow> k x)"

lemma and_then_Inr [simp]: "and_then r k = Inr y \<longleftrightarrow> (\<exists>x. r = Inr x \<and> k x = Inr y)"
  by (cases r) (simp_all add: and_then_def)

lemma and_then_simps [simp]: "and_then (Inr x) k = k x" "and_then (Inl e) k = Inl e"
  by (simp_all add: and_then_def)

section \<open>Variables\<close>

definition env :: "environment \<Rightarrow> string \<Rightarrow> string \<Rightarrow> string" where
  "env e key fallback = (if e key \<noteq> '''' then e key else fallback)"

definition envInt :: "environment \<Rightarrow> string \<Rightarrow> int \<Rightarrow> fatal + int" where
  "envInt e key fallback =
     (if e key = '''' then Inr fallback
      else (case Atoi (e key) of
              None \<Rightarrow> Inl (NotPositive key)
            | Some parsed \<Rightarrow> if parsed \<le> 0 then Inl (NotPositive key) else Inr parsed))"

text \<open>The variant of \<open>cmd/stage\<close> accepts every integer.\<close>

definition stage_envInt :: "environment \<Rightarrow> string \<Rightarrow> int \<Rightarrow> fatal + int" where
  "stage_envInt e key fallback =
     (if e key = '''' then Inr fallback
      else (case Atoi (e key) of None \<Rightarrow> Inl (NotInteger key) | Some parsed \<Rightarrow> Inr parsed))"

definition required :: "environment \<Rightarrow> string \<Rightarrow> fatal + string" where
  "required e key = (if e key = '''' then Inl (Required key) else Inr (e key))"

text \<open>The secret every component falls back to.\<close>

definition shared_secret :: "environment \<Rightarrow> string" where
  "shared_secret e = env e ''AIPOOL_SHARED_SECRET'' ''dev-only-change-me''"

section \<open>The control plane\<close>

record provider_config =
  pc_NodeID :: string
  pc_HostSecret :: string
  pc_LeaseSecret :: string
  pc_Scope :: string

record control_config =
  cc_ClientSecret :: string
  cc_Providers :: "provider_config list"

text \<open>\<open>bytes.TrimPrefix\<close> with the byte order mark.\<close>

definition trim_bom :: "byte list \<Rightarrow> byte list" where
  "trim_bom data = (if take 3 data = [0xEF, 0xBB, 0xBF] then drop 3 data else data)"

text \<open>The loop over the configured providers.\<close>

fun add_credentials :: "provider_config list \<Rightarrow> (string, NodeCredential) gomap \<Rightarrow> fatal + (string, NodeCredential) gomap" where
  "add_credentials [] credentials = Inr credentials"
| "add_credentials (provider # ps) credentials =
     (if pc_NodeID provider = '''' \<or> pc_HostSecret provider = '''' \<or> pc_LeaseSecret provider = '''' then Inl IncompleteProvider
      else if map_of credentials (pc_NodeID provider) \<noteq> None then Inl (DuplicateProvider (pc_NodeID provider))
      else
        let scope = (if pc_Scope provider = '''' then ''remote'' else pc_Scope provider)
        in if scope \<noteq> ''local'' \<and> scope \<noteq> ''remote'' then Inl (InvalidScope (pc_NodeID provider))
           else add_credentials ps (AList.update (pc_NodeID provider)
                  \<lparr>nc_RegistrationSecret = pc_HostSecret provider, nc_LeaseSecret = pc_LeaseSecret provider, nc_Scope = scope\<rparr>
                  credentials))"

text \<open>The client secret and the credentials; \<open>decode\<close> is \<open>json.Unmarshal\<close> of the configuration.\<close>

definition control_credentials :: "(string \<Rightarrow> byte list option) \<Rightarrow> (byte list \<Rightarrow> control_config option) \<Rightarrow> environment \<Rightarrow>
    fatal + string \<times> (string, NodeCredential) gomap" where
  "control_credentials files decode e =
     (if e ''AIPOOL_CONTROL_CONFIG'' = '''' then Inr (env e ''AIPOOL_CLIENT_SECRET'' (shared_secret e), [])
      else
        (case files (e ''AIPOOL_CONTROL_CONFIG'') of
           None \<Rightarrow> Inl ConfigUnreadable
         | Some data \<Rightarrow>
             (case decode (trim_bom data) of
                None \<Rightarrow> Inl ConfigInvalid
              | Some config \<Rightarrow>
                  if cc_ClientSecret config = '''' then Inl NoClientSecret
                  else and_then (add_credentials (cc_Providers config) [])
                         (\<lambda>credentials. Inr (cc_ClientSecret config, credentials)))))"

definition control_main :: "(string \<Rightarrow> byte list option) \<Rightarrow> (byte list \<Rightarrow> control_config option) \<Rightarrow> environment \<Rightarrow>
    fatal + string \<times> Server" where
  "control_main files decode e =
     and_then (control_credentials files decode e)
       (\<lambda>(clientSecret, credentials).
          Inr (env e ''AIPOOL_CONTROL_ADDR'' ''127.0.0.1:8080'',
               NewWithNodeCredentials (env e ''AIPOOL_HOST_SECRET'' (shared_secret e)) clientSecret
                 (env e ''AIPOOL_LEASE_SECRET'' (shared_secret e)) (minutes 5) credentials))"

section \<open>The host\<close>

definition configuredModels :: "environment \<Rightarrow> bool \<Rightarrow> string list" where
  "configuredModels e mockDefault =
     (let value' = TrimSpace (e ''AIPOOL_MODELS'')
      in if value' \<noteq> '''' then split_on CHR '','' value' else if mockDefault then [''mock-llm''] else [])"

text \<open>\<open>modelcache.New\<close>: whether the model cache can be opened, when \<open>mkdir\<close> says which directories can be made.\<close>

definition cache_New :: "(string \<Rightarrow> bool) \<Rightarrow> string \<Rightarrow> bool" where
  "cache_New mkdir dir \<longleftrightarrow> dir \<noteq> '''' \<and> mkdir dir"

text \<open>
  The configuration, for an endpoint and a limit of tasks. \<open>runtime\<close>: the managed runtime for an executable and a
  port (theory \<open>Runtimes\<close>); \<open>beside\<close> is the executable's default path, in the directory of the program.
\<close>

definition host_config :: "HardwareInventory \<Rightarrow> (string \<Rightarrow> int \<Rightarrow> ManagedRuntime) \<Rightarrow> string \<Rightarrow> environment \<Rightarrow> string \<Rightarrow> int \<Rightarrow>
    HostConfig" where
  "host_config inventory runtime beside e endpoint maxConcurrency =
     (let cacheDir = e ''AIPOOL_MODEL_CACHE_DIR''; runtimePath = env e ''AIPOOL_MANAGED_RUNTIME'' beside
      in \<lparr>hc_NodeID = env e ''AIPOOL_NODE_ID'' ''friend-gpu-1'', hc_Endpoint = endpoint,
          hc_ControlURL = env e ''AIPOOL_CONTROL_URL'' ''http://127.0.0.1:8080'', hc_Secret = '''',
          hc_RegistrationSecret = env e ''AIPOOL_HOST_SECRET'' (shared_secret e),
          hc_LeaseSecret = env e ''AIPOOL_LEASE_SECRET'' (shared_secret e),
          hc_Models = configuredModels e (cacheDir = ''''), hc_RuntimeURL = e ''AIPOOL_RUNTIME_URL'',
          hc_RuntimeKind = e ''AIPOOL_RUNTIME_KIND'', hc_RuntimeModel = e ''AIPOOL_RUNTIME_MODEL'',
          hc_Inventory = inventory, hc_ModelStore = (cacheDir \<noteq> ''''),
          hc_RuntimeManager = (if cacheDir \<noteq> '''' then Some (runtime runtimePath 18081) else None),
          hc_MaxUploadChunk = 0, hc_Scope = env e ''AIPOOL_NODE_SCOPE'' ''remote'',
          hc_MaxConcurrency = maxConcurrency, hc_DistributedReady = (e ''AIPOOL_STAGE_ENDPOINT'' \<noteq> ''''),
          hc_StageEndpoint = e ''AIPOOL_STAGE_ENDPOINT''\<rparr>)"

text \<open>\<open>mkdir\<close>: which directories can be made. The listening address comes with the configuration.\<close>

definition host_main :: "Interface list \<Rightarrow> HardwareInventory \<Rightarrow> (string \<Rightarrow> bool) \<Rightarrow> (string \<Rightarrow> int \<Rightarrow> ManagedRuntime) \<Rightarrow>
    string \<Rightarrow> environment \<Rightarrow> fatal + string \<times> HostConfig" where
  "host_main interfaces inventory mkdir runtime beside e =
     (let addr = env e ''AIPOOL_HOST_ADDR'' ''0.0.0.0:8091'';
          cacheDir = e ''AIPOOL_MODEL_CACHE_DIR''
      in and_then
           (if e ''AIPOOL_HOST_ENDPOINT'' \<noteq> '''' then Inr (e ''AIPOOL_HOST_ENDPOINT'')
            else (case PublicEndpoint interfaces addr of Inl err \<Rightarrow> Inl (NoEndpoint err) | Inr endpoint \<Rightarrow> Inr endpoint))
           (\<lambda>endpoint.
              if cacheDir \<noteq> '''' \<and> \<not> cache_New mkdir cacheDir then Inl NoModelCache
              else and_then (envInt e ''AIPOOL_MAX_CONCURRENCY'' 1)
                (\<lambda>maxConcurrency. Inr (addr, host_config inventory runtime beside e endpoint maxConcurrency))))"

section \<open>The proxy\<close>

text \<open>
  \<open>glob\<close> gives the GGUF files of a directory, nothing for the empty name. The parts are the listening
  address, the control plane's URL and the requester's secret (which the proxy and its manager share),
  the proxy and the manager.
\<close>

record proxy_parts =
  pp_addr :: string
  pp_controlURL :: string
  pp_clientSecret :: string
  pp_server :: ProxyServer
  pp_manager :: "Manager option"

definition proxy_catalog :: "file_system \<Rightarrow> (string \<Rightarrow> string list) \<Rightarrow> environment \<Rightarrow> fatal + Catalog option" where
  "proxy_catalog fs glob e =
     (let modelDir = e ''AIPOOL_LOCAL_MODEL_DIR''; modelMappings = e ''AIPOOL_LOCAL_MODELS''
      in if modelDir \<noteq> '''' \<or> modelMappings \<noteq> '''' then
           (case Load fs (glob modelDir) modelMappings of Inl err \<Rightarrow> Inl (NoCatalog err) | Inr c \<Rightarrow> Inr (Some c))
         else Inr None)"

definition proxy_manager :: "environment \<Rightarrow> fatal + Manager option" where
  "proxy_manager e =
     (let executable = e ''AIPOOL_DISTRIBUTED_LLAMA_SERVER''
      in if executable = '''' then Inr None
         else and_then (envInt e ''AIPOOL_DISTRIBUTED_MIN_NODES'' 2) (\<lambda>minNodes.
              and_then (envInt e ''AIPOOL_DISTRIBUTED_MAX_NODES'' 2) (\<lambda>maxNodes.
              and_then (envInt e ''AIPOOL_DISTRIBUTED_PORT'' 18082) (\<lambda>port.
                Inr (Some (NewManager \<lparr>mg_Executable = executable, mg_MinNodes = minNodes, mg_MaxNodes = maxNodes, mg_Port = port,
                                      mg_ContextSize = 0\<rparr>))))))"

definition proxy_main :: "file_system \<Rightarrow> (string \<Rightarrow> string list) \<Rightarrow> environment \<Rightarrow> fatal + proxy_parts" where
  "proxy_main fs glob e =
     and_then (proxy_catalog fs glob e) (\<lambda>catalog.
     and_then (proxy_manager e) (\<lambda>manager.
       Inr \<lparr>pp_addr = env e ''AIPOOL_PROXY_ADDR'' ''127.0.0.1:11434'',
            pp_controlURL = env e ''AIPOOL_CONTROL_URL'' ''http://127.0.0.1:8080'',
            pp_clientSecret = env e ''AIPOOL_CLIENT_SECRET'' (shared_secret e),
            pp_server = NewWithConfig (proxy_config (env e ''AIPOOL_CONTROL_URL'' ''http://127.0.0.1:8080'')
              (env e ''AIPOOL_CLIENT_SECRET'' (shared_secret e)) catalog (manager \<noteq> None) (e ''AIPOOL_DISTRIBUTED_DEFAULT'' = ''1'')),
            pp_manager = manager\<rparr>))"

section \<open>The relay\<close>

text \<open>\<open>load_pair\<close>: whether the certificate and its key can be loaded. \<open>can_listen\<close>: whether the address can be bound.\<close>

definition relay_main :: "(string \<Rightarrow> string \<Rightarrow> bool) \<Rightarrow> (string \<Rightarrow> bool) \<Rightarrow> environment \<Rightarrow> fatal + string \<times> Relay" where
  "relay_main load_pair can_listen e =
     (let addr = env e ''AIPOOL_RELAY_ADDR'' ''0.0.0.0:8443'';
          certPath = e ''AIPOOL_RELAY_CERT''; keyPath = e ''AIPOOL_RELAY_KEY''
      in if certPath = '''' \<or> keyPath = '''' then Inl (Required ''AIPOOL_RELAY_CERT and AIPOOL_RELAY_KEY'')
         else if \<not> load_pair certPath keyPath then Inl NoCertificatePair
         else if \<not> can_listen addr then Inl CannotListen
         else
           and_then (envInt e ''AIPOOL_RELAY_MAX_CONNECTIONS'' 4096) (\<lambda>maxConnections.
           and_then (envInt e ''AIPOOL_RELAY_MAX_CONNECTIONS_PER_IP'' 256) (\<lambda>perIP.
           and_then (envInt e ''AIPOOL_RELAY_MAX_CONNECTIONS_PER_PAIR'' 512) (\<lambda>perPair.
           and_then (envInt e ''AIPOOL_RELAY_MAX_PENDING_PER_PAIR'' 128) (\<lambda>pending.
             Inr (addr, NewRelayWithConfig \<lparr>rc_MaxConnections = maxConnections, rc_MaxConnectionsPerIP = perIP,
               rc_MaxConnectionsPerPair = perPair, rc_MaxPendingPerPair = pending, rc_HandshakeTimeout = 0,
               rc_StreamTimeout = 0\<rparr>))))))"

section \<open>The tunnel agent\<close>

fun add_mappings :: "string list \<Rightarrow> (string, string) gomap \<Rightarrow> fatal + (string, string) gomap" where
  "add_mappings [] result = Inr result"
| "add_mappings (raw # items) result =
     (let item = TrimSpace raw
      in if item = '''' then add_mappings items result
         else (case Cut CHR ''='' item of
                 None \<Rightarrow> Inl (InvalidTunnelMapping item)
               | Some (key, target) \<Rightarrow>
                   if key = '''' \<or> target = '''' then Inl (InvalidTunnelMapping item)
                   else add_mappings items (AList.update key target result)))"

definition parseMappings :: "string \<Rightarrow> fatal + (string, string) gomap" where
  "parseMappings value' = add_mappings (split_on CHR '','' value') []"

text \<open>\<open>args\<close> are the program's arguments: the command \<open>pair-id\<close> prints the pair id of a token and ends.\<close>

datatype tunnel_start = PrintPairID string | RunAgent AgentConfig tls_Config

text \<open>The agent's configuration, with the calls of \<open>required\<close> in the order of the source.\<close>

definition tunnel_agent :: "ed25519 \<Rightarrow> environment \<Rightarrow> fatal + tunnel_start" where
  "tunnel_agent ed e =
     and_then (required e ''AIPOOL_TUNNEL_ROLE'') (\<lambda>role.
     and_then (required e ''AIPOOL_RELAY_SERVER_NAME'') (\<lambda>serverName.
     and_then (required e ''AIPOOL_RELAY_FINGERPRINT'') (\<lambda>fingerprint.
       (case PinnedTLSConfig serverName fingerprint of
          Inl err \<Rightarrow> Inl (InvalidPin err)
        | Inr tlsConfig \<Rightarrow>
            and_then (required e ''AIPOOL_PAIR_ID'') (\<lambda>pairID.
            and_then (required e ''AIPOOL_RELAY_ADDRESS'') (\<lambda>relayAddress.
            and_then (required e ''AIPOOL_PAIR_TOKEN'') (\<lambda>relayToken.
            and_then (required e ''AIPOOL_TUNNEL_KEY'') (\<lambda>tunnelKey.
            and_then (parseMappings (e ''AIPOOL_TUNNEL_FORWARDS'')) (\<lambda>forwards.
            and_then (parseMappings (e ''AIPOOL_TUNNEL_TARGETS'')) (\<lambda>targets.
              (case NewAgent ed \<lparr>ag_Role = role, ag_PairID = pairID, ag_RelayAddress = relayAddress, ag_RelayToken = relayToken,
                      ag_TunnelKey = tunnelKey, ag_Forwards = forwards, ag_Targets = targets\<rparr> of
                 Inl err \<Rightarrow> Inl (InvalidAgent err)
               | Inr agent \<Rightarrow> Inr (RunAgent agent tlsConfig))))))))))))"

definition tunnel_main :: "ed25519 \<Rightarrow> string list \<Rightarrow> environment \<Rightarrow> fatal + tunnel_start" where
  "tunnel_main ed args e =
     (case args of
        [_, command, token] \<Rightarrow>
          if command = ''pair-id'' then
            (if ValidPairToken token then Inr (PrintPairID (PairIDFromToken ed token)) else Inl InvalidPairToken)
          else tunnel_agent ed e
      | _ \<Rightarrow> tunnel_agent ed e)"

section \<open>The stage, the distributed runtime and the inspector\<close>

definition stage_main :: "float_ops \<Rightarrow> (string \<Rightarrow> bool) \<Rightarrow> environment \<Rightarrow> fatal + string \<times> byte list \<times> Runtime" where
  "stage_main fl can_listen e =
     (let address = env e ''AIPOOL_STAGE_ADDR'' ''127.0.0.1:18100''
      in and_then (required e ''AIPOOL_STAGE_KEY'') (\<lambda>text.
         (case b64_decode text of
            None \<Rightarrow> Inl InvalidStageKey
          | Some key \<Rightarrow>
              if length key < 32 then Inl InvalidStageKey
              else
                and_then (stage_envInt e ''AIPOOL_STAGE_LAYER_START'' (- 1)) (\<lambda>layerStart.
                and_then (stage_envInt e ''AIPOOL_STAGE_LAYER_END'' (- 1)) (\<lambda>layerEnd.
                and_then (stage_envInt e ''AIPOOL_STAGE_HIDDEN_SIZE'' (- 1)) (\<lambda>hiddenSize.
                  (case NewRuntime layerStart layerEnd hiddenSize (Some (DeterministicBackend fl)) of
                     None \<Rightarrow> Inl InvalidStageRuntime
                   | Some runtime \<Rightarrow> if can_listen address then Inr (address, key, runtime) else Inl CannotListen)))))))"

text \<open>The items of a list separated by commas, trimmed and without empty ones.\<close>

definition split :: "string \<Rightarrow> string list" where
  "split value' = filter (\<lambda>item. item \<noteq> '''') (map TrimSpace (split_on CHR '','' value'))"

definition distributed_main :: "(string \<Rightarrow> byte list option) \<Rightarrow> environment \<Rightarrow> fatal + Metadata \<times> LlamaRPC" where
  "distributed_main files e =
     and_then (required e ''AIPOOL_DISTRIBUTED_MODEL'') (\<lambda>model.
       (case ReadFile (files model) of
          Inl err \<Rightarrow> Inl (InvalidModel err)
        | Inr metadata \<Rightarrow>
            and_then (required e ''AIPOOL_LLAMA_SERVER'') (\<lambda>executable.
            and_then (required e ''AIPOOL_RPC_SERVERS'') (\<lambda>servers.
              Inr (metadata, \<lparr>ll_Executable = executable, ll_ModelPath = model, ll_Host = '''', ll_Port = 0, ll_Context = 0,
                 ll_GPULayers = 0, ll_RPCServers = split servers, ll_ExtraArgs = [], ll_cmd = None\<rparr>)))))"

text \<open>What the inspector prints, before its JSON encoding.\<close>

definition ggufinspect_main :: "(string \<Rightarrow> byte list option) \<Rightarrow> string list \<Rightarrow> fatal + Metadata" where
  "ggufinspect_main files args =
     (case args of
        [_, path] \<Rightarrow> (case ReadFile (files path) of Inl err \<Rightarrow> Inl (InvalidModel err) | Inr metadata \<Rightarrow> Inr metadata)
      | _ \<Rightarrow> Inl Usage)"

section \<open>Lemmas\<close>

definition provider_ok :: "provider_config \<Rightarrow> bool" where
  "provider_ok p \<longleftrightarrow> pc_NodeID p \<noteq> '''' \<and> pc_HostSecret p \<noteq> '''' \<and> pc_LeaseSecret p \<noteq> '''' \<and> pc_Scope p \<in> {'''', ''local'', ''remote''}"

definition provider_credential :: "provider_config \<Rightarrow> string \<times> NodeCredential" where
  "provider_credential p =
     (pc_NodeID p, \<lparr>nc_RegistrationSecret = pc_HostSecret p, nc_LeaseSecret = pc_LeaseSecret p,
        nc_Scope = (if pc_Scope p = '''' then ''remote'' else pc_Scope p)\<rparr>)"

lemma fst_provider_credential [simp]: "fst (provider_credential p) = pc_NodeID p"
  by (simp add: provider_credential_def)

lemma add_credentials_Inr:
  assumes "gomap_ok credentials"
  shows "add_credentials ps credentials = Inr result \<longleftrightarrow>
    (\<forall>p\<in>set ps. provider_ok p) \<and> distinct (map fst credentials @ map pc_NodeID ps) \<and>
    result = credentials @ map provider_credential ps"
  using assms
proof (induction ps arbitrary: credentials)
  case Nil
  then show ?case by (auto simp: gomap_ok_def)
next
  case (Cons p ps)
  show ?case
  proof (cases "provider_ok p \<and> map_of credentials (pc_NodeID p) = None")
    case True
    then have "AList.update (pc_NodeID p) (snd (provider_credential p)) credentials = credentials @ [provider_credential p]"
      by (simp add: gomap_update_new provider_credential_def)
    moreover from this have "gomap_ok (credentials @ [provider_credential p])"
      using Cons.prems by (metis gomap_ok_update)
    ultimately have "add_credentials (p # ps) credentials = add_credentials ps (credentials @ [provider_credential p])"
      using True by (auto simp: provider_ok_def provider_credential_def Let_def)
    with Cons.IH [OF \<open>gomap_ok (credentials @ _)\<close>] True show ?thesis by (auto simp: map_of_eq_None_iff)
  next
    case False
    then have "\<forall>result. add_credentials (p # ps) credentials \<noteq> Inr result"
      by (auto simp: provider_ok_def Let_def)
    with False show ?thesis by (auto simp: map_of_eq_None_iff image_iff)
  qed
qed

lemma split_on_join:
  "\<forall>x\<in>set xs. sep \<notin> set x \<Longrightarrow> xs \<noteq> [] \<Longrightarrow> split_on sep (hd xs @ concat (map (\<lambda>y. sep # y) (tl xs))) = xs"
proof (induction xs)
  case (Cons x xs)
  show ?case
  proof (cases xs)
    case Nil
    with Cons.prems show ?thesis by (simp add: split_on_plain)
  next
    case (Cons y ys)
    with Cons.IH Cons.prems show ?thesis by (simp add: split_on_append)
  qed
qed simp

lemma split_on_join_comma: "\<forall>x\<in>set xs. CHR '','' \<notin> set x \<Longrightarrow> xs \<noteq> [] \<Longrightarrow> split_on CHR '','' (join_comma xs) = xs"
proof -
  have "(@) '','' = (#) CHR '',''" by (rule ext) simp
  then show "\<forall>x\<in>set xs. CHR '','' \<notin> set x \<Longrightarrow> xs \<noteq> [] \<Longrightarrow> split_on CHR '','' (join_comma xs) = xs"
    using split_on_join [of xs "CHR '',''"] by (cases xs) (simp_all add: join_comma_def)
qed

text \<open>A mapping as it is written in \<open>AIPOOL_TUNNEL_FORWARDS\<close>, and when it can be.\<close>

definition mapping_text :: "string \<times> string \<Rightarrow> string" where
  "mapping_text m = fst m @ ''='' @ snd m"

definition mapping_ok :: "string \<times> string \<Rightarrow> bool" where
  "mapping_ok m \<longleftrightarrow> fst m \<noteq> '''' \<and> snd m \<noteq> '''' \<and> CHR ''='' \<notin> set (fst m) \<and> CHR '','' \<notin> set (fst m @ snd m) \<and>
     \<not> is_space (hd (fst m)) \<and> \<not> is_space (last (snd m))"

lemma add_mappings_texts:
  "\<forall>m\<in>set ms. mapping_ok m \<Longrightarrow> distinct (map fst result @ map fst ms) \<Longrightarrow>
     add_mappings (map mapping_text ms) result = Inr (result @ ms)"
proof (induction ms arbitrary: result)
  case (Cons m ms)
  then have m: "mapping_ok m" by simp
  have "TrimSpace (mapping_text m) = mapping_text m"
    using m by (intro TrimSpace_id) (auto simp: mapping_ok_def mapping_text_def)
  moreover have "Cut CHR ''='' (mapping_text m) = Some (fst m, snd m)"
    using m by (auto simp: Cut_def mapping_text_def mapping_ok_def takeWhile_append dropWhile_append)
  moreover have "AList.update (fst m) (snd m) result = result @ [m]"
    using Cons.prems by (simp add: gomap_update_new map_of_eq_None_iff)
  ultimately have "add_mappings (map mapping_text (m # ms)) result = add_mappings (map mapping_text ms) (result @ [m])"
    using m by (cases m) (simp add: mapping_ok_def mapping_text_def)
  with Cons.IH [of "result @ [m]"] Cons.prems show ?case by simp
qed simp

text \<open>Mappings written down with commas between them are read back.\<close>

lemma parseMappings_round_trip:
  assumes "\<forall>m\<in>set ms. mapping_ok m" and "distinct (map fst ms)"
  shows "parseMappings (join_comma (map mapping_text ms)) = Inr ms"
proof (cases "ms = []")
  case True
  then show ?thesis by (simp add: parseMappings_def join_comma_def TrimSpace_def)
next
  case False
  have "split_on CHR '','' (join_comma (map mapping_text ms)) = map mapping_text ms"
    using assms(1) False by (intro split_on_join_comma) (auto simp: mapping_ok_def mapping_text_def)
  with add_mappings_texts [of ms "[]"] assms show ?thesis by (simp add: parseMappings_def)
qed

section \<open>Properties\<close>

text \<open>
  A control plane with a configuration file starts exactly when the file can be read and decoded, has a
  client secret, and every provider has an id of its own, both secrets and a known scope; then the client
  secret is the configured one and the credentials are those of the providers, one entry each.
\<close>

theorem control_starts_iff_config_valid:
  assumes "e ''AIPOOL_CONTROL_CONFIG'' \<noteq> ''''"
  shows "(\<exists>addr. control_main files decode e = Inr (addr, s)) \<longleftrightarrow>
    (\<exists>data config. files (e ''AIPOOL_CONTROL_CONFIG'') = Some data \<and> decode (trim_bom data) = Some config \<and>
       cc_ClientSecret config \<noteq> '''' \<and> list_all provider_ok (cc_Providers config) \<and>
       distinct (map pc_NodeID (cc_Providers config)) \<and>
       s = NewWithNodeCredentials (env e ''AIPOOL_HOST_SECRET'' (shared_secret e)) (cc_ClientSecret config)
             (env e ''AIPOOL_LEASE_SECRET'' (shared_secret e)) (minutes 5) (map provider_credential (cc_Providers config)))"
  using assms by (auto simp: control_main_def control_credentials_def add_credentials_Inr list_all_iff split: option.splits if_splits)

definition sample_environment :: environment where
  "sample_environment = (\<lambda>_. '''')(''AIPOOL_CONTROL_CONFIG'' := ''c.json'')"

definition sample_control_config :: control_config where
  "sample_control_config = \<lparr>cc_ClientSecret = ''c'', cc_Providers =
     [\<lparr>pc_NodeID = ''a'', pc_HostSecret = ''h'', pc_LeaseSecret = ''l'', pc_Scope = ''''\<rparr>,
      \<lparr>pc_NodeID = ''b'', pc_HostSecret = ''h'', pc_LeaseSecret = ''l'', pc_Scope = ''local''\<rparr>]\<rparr>"

theorem control_starts_iff_config_valid_witness:
  "\<exists>addr s. control_main (\<lambda>_. Some [0xEF, 0xBB, 0xBF, 1]) (\<lambda>data. if data = [1] then Some sample_control_config else None)
     sample_environment = Inr (addr, s) \<and> map fst (sv_nodeCredentials s) = [''a'', ''b'']"
proof -
  have "sample_environment ''AIPOOL_CONTROL_CONFIG'' \<noteq> ''''" by (simp add: sample_environment_def)
  note iff = control_starts_iff_config_valid [of sample_environment "\<lambda>_. Some [0xEF, 0xBB, 0xBF, 1]"
      "\<lambda>data. if data = [1] then Some sample_control_config else None", OF this]
  let ?s = "NewWithNodeCredentials ''dev-only-change-me'' ''c'' ''dev-only-change-me'' (minutes 5)
      (map provider_credential (cc_Providers sample_control_config))"
  have "\<exists>addr. control_main (\<lambda>_. Some [0xEF, 0xBB, 0xBF, 1]) (\<lambda>data. if data = [1] then Some sample_control_config else None)
      sample_environment = Inr (addr, ?s)"
    unfolding iff by (simp add: trim_bom_def sample_control_config_def provider_ok_def env_def shared_secret_def sample_environment_def)
  then show ?thesis by (auto simp: NewWithNodeCredentials_def sample_control_config_def)
qed

end
