(* ===== verification/Pool.thy ===== *)
theory Pool
  imports Proxy_Correct Control_Leases
begin

text \<open>
  A pool: a control plane, a host, and the network between them and a requester's proxy. The proxy's
  environment of theory \<open>Proxy\<close> is built from the handlers of theories \<open>Control\<close> and \<open>Host\<close>; JSON between the
  parts arrives as it was sent. Requests go to URLs, and a part answers only those that lead to the address on
  which it listens; where a URL leads is the network's, a parameter. A host joins by registering, and a lease of
  its model goes to it. No code of its own is modelled here.
\<close>

section \<open>The network of a pool\<close>

text \<open>
  Where a URL leads: the address listened on and the path that arrives there. \<open>reaches\<close>: all the paths below a base
  URL lead to this address.
\<close>

type_synonym network = "string \<Rightarrow> (string \<times> string) option"

definition reaches :: "network \<Rightarrow> string \<Rightarrow> string \<Rightarrow> bool" where
  "reaches net base addr \<longleftrightarrow> (\<forall>path. net (base @ CHR ''/'' # path) = Some (addr, CHR ''/'' # path))"

lemma reachesD: "reaches net base addr \<Longrightarrow> path = CHR ''/'' # rest \<Longrightarrow> net (base @ path) = Some (addr, path)"
  by (simp add: reaches_def)

text \<open>
  \<open>pl_controlAddr\<close> and \<open>pl_hostAddr\<close>: the addresses on which the control plane and the host listen. \<open>pl_now\<close>: the
  time, which stands still during a chat. \<open>pl_nonces\<close>: what \<open>rand.Read\<close> gives next.
\<close>

record pool =
  pl_control :: Server
  pl_controlAddr :: string
  pl_host :: HostServer
  pl_hostAddr :: string
  pl_now :: int
  pl_nonces :: "byte list list"

definition pool_clock :: "pool \<Rightarrow> clock" where
  "pool_clock s = \<lparr>at_expire = pl_now s, at_since = pl_now s, at_issue = pl_now s, at_book = pl_now s\<rparr>"

definition next_nonce :: "pool \<Rightarrow> byte list option" where
  "next_nonce s = (case pl_nonces s of [] \<Rightarrow> None | nonce # _ \<Rightarrow> Some nonce)"

fun control_answer :: "'a outcome \<Rightarrow> string + nat \<times> string \<times> (string + 'a)" where
  "control_answer (Reply (JSON code x)) = Inr (code, '''', Inr x)"
| "control_answer (Reply (Error code msg)) = Inr (code, msg, Inl msg)"
| "control_answer _ = Inl ''no answer''"

text \<open>The proxy's chat as it arrives at the host.\<close>

definition chat_http :: "string \<Rightarrow> string \<Rightarrow> byte list \<Rightarrow> http_request" where
  "chat_http token digest body =
     \<lparr>rq_post = True, rq_authorization = ''Bearer '' @ token, rq_modelDigest = digest, rq_uploadOffset = '''', rq_digest = '''',
      rq_body = Some body\<rparr>"

definition on_host :: "pool \<Rightarrow> 'a \<times> HostServer \<Rightarrow> 'a \<times> pool" where
  "on_host s r = (fst r, s\<lparr>pl_host := snd r\<rparr>)"

text \<open>Whether a URL leads to a path of the control plane, or of the host.\<close>

definition at_control :: "network \<Rightarrow> pool \<Rightarrow> string \<Rightarrow> string \<Rightarrow> bool" where
  "at_control net s url path \<longleftrightarrow> net url = Some (pl_controlAddr s, path)"

definition at_host :: "network \<Rightarrow> pool \<Rightarrow> string \<Rightarrow> string \<Rightarrow> bool" where
  "at_host net s url path \<longleftrightarrow> net url = Some (pl_hostAddr s, path)"

text \<open>
  What the proxy \<open>p\<close> meets on the network. Its requests to the control plane go to paths below \<open>px_controlURL p\<close> and carry
  its secret, those to a host go below the endpoint in the lease; one that leads elsewhere gets no answer. The
  identifiers in paths are base64url, which \<open>url.PathEscape\<close> leaves as it is. \<open>render\<close>: the status and body reads of
  a host's reply. There is no manager.
\<close>

definition pool_env :: "json_codec \<Rightarrow> body_codec \<Rightarrow> http_runtime \<Rightarrow> (string \<Rightarrow> bool) \<Rightarrow> (host_reply \<Rightarrow> nat \<times> body_reads) \<Rightarrow>
    network \<Rightarrow> ProxyServer \<Rightarrow> pool proxy_env" where
  "pool_env lib codec http http_url render net p =
     \<lparr>pe_lease = (\<lambda>s req. if \<not> at_control net s (px_controlURL p @ ''/v1/leases'') ''/v1/leases'' then (Inl ''no answer'', s)
          else (case createLease lib (pl_control s) (px_clientSecret p) (Some req) (pool_clock s) (next_nonce s) of
            (answer, c) \<Rightarrow> (control_answer answer, s\<lparr>pl_control := c, pl_nonces := tl (pl_nonces s)\<rparr>))),
      pe_release = (\<lambda>s i. let path = ''/v1/leases/'' @ i @ ''/release'' in
          if \<not> at_control net s (px_controlURL p @ path) path then s
          else s\<lparr>pl_control := snd (releaseLease (pl_control s) (px_clientSecret p) i)\<rparr>),
      pe_http_url = http_url,
      pe_health = (\<lambda>s url. (if at_host net s url ''/healthz'' then Inr (200, '''') else Inl ''no answer'', s)),
      pe_nodes = (\<lambda>s. if \<not> at_control net s (px_controlURL p @ ''/v1/nodes'') ''/v1/nodes'' then (None, s)
          else (case listNodes (pl_control s) (px_clientSecret p) (pl_now s) of
            (answer, c) \<Rightarrow> (case control_answer answer of
                Inl _ \<Rightarrow> None | Inr (code, _, Inl _) \<Rightarrow> Some (code, None) | Inr (code, _, Inr nodes) \<Rightarrow> Some (code, Some nodes),
              s\<lparr>pl_control := c\<rparr>))),
      pe_status = (\<lambda>s lease. let path = ''/v1/model-cache/'' @ ls_ModelDigest lease in
          if \<not> at_host net s (strings_TrimRight_slash (ls_Endpoint lease) @ path) path then (None, s)
          else on_host s (cache_answer (modelStatus lib no_faults (pl_host s) (pl_now s) (cache_request lease '''' None)))),
      pe_upload = (\<lambda>s lease offset len body. let path = ''/v1/model-cache/'' @ ls_ModelDigest lease in
          if \<not> at_host net s (strings_TrimRight_slash (ls_Endpoint lease) @ path) path \<or> int (length body) \<noteq> len then (None, s)
          else on_host s (cache_answer (modelUpload lib no_faults no_faults (pl_host s) (pl_now s)
                 (cache_request lease (itoa offset) (Some body))))),
      pe_chat = (\<lambda>s url token digest body. if \<not> at_host net s url ''/v1/chat/completions'' then (None, s)
          else on_host s (case host_chat lib codec http no_faults (pl_host s) (pl_now s) (pl_now s) (chat_http token digest body) of
                 (reply, h) \<Rightarrow> (Some (render reply), h))),
      pe_ensure = (\<lambda>s model entry. (Inl ''no manager'', s))\<rparr>"

text \<open>The proxy reaches the control plane at its URL for it, and the host at the endpoint this advertises.\<close>

definition wired :: "network \<Rightarrow> ProxyServer \<Rightarrow> pool \<Rightarrow> bool" where
  "wired net p s \<longleftrightarrow> reaches net (px_controlURL p) (pl_controlAddr s) \<and>
     reaches net (strings_TrimRight_slash (hc_Endpoint (hv_cfg (pl_host s)))) (pl_hostAddr s)"

lemma wired_control: "wired net p s \<Longrightarrow> path = CHR ''/'' # rest \<Longrightarrow> at_control net s (px_controlURL p @ path) path"
  by (simp add: wired_def at_control_def reachesD)

lemma wired_host:
  "wired net p s \<Longrightarrow> endpoint = hc_Endpoint (hv_cfg (pl_host s)) \<Longrightarrow> path = CHR ''/'' # rest \<Longrightarrow>
     at_host net s (strings_TrimRight_slash endpoint @ path) path"
  by (simp add: wired_def at_host_def reachesD)

text \<open>The host's registration, sent where its control URL leads.\<close>

definition host_registers :: "network \<Rightarrow> string + nat \<times> string \<Rightarrow> pool \<Rightarrow> Node outcome option \<times> pool" where
  "host_registers net health s =
     (case Register (pl_host s) health of
        (registration, url, secret) \<Rightarrow>
          if \<not> at_control net s url ''/v1/nodes/register'' then (None, s)
          else (case register (pl_control s) secret (Some registration) (pl_now s) of (answer, c) \<Rightarrow> (Some answer, s\<lparr>pl_control := c\<rparr>)))"

section \<open>A host joins\<close>

text \<open>A host whose registration the control plane accepts: as configured, and with a runtime that is ready.\<close>

definition ready_host :: "HostServer \<Rightarrow> string + nat \<times> string \<Rightarrow> bool" where
  "ready_host h health \<longleftrightarrow> (let cfg = hv_cfg h in
     hc_NodeID cfg \<noteq> '''' \<and> hc_Endpoint cfg \<noteq> '''' \<and> (hc_Models cfg \<noteq> [] \<or> hc_ModelStore cfg) \<and>
     valid_scope (hc_Scope cfg) \<and> 0 < hc_MaxConcurrency cfg \<and> (hc_DistributedReady cfg \<longrightarrow> hc_StageEndpoint cfg \<noteq> '''') \<and>
     hv_activeTasks h = 0 \<and> rt_Ready (RuntimeStatus_of cfg health))"

definition joined_node :: "HostServer \<Rightarrow> string + nat \<times> string \<Rightarrow> int \<Rightarrow> Node" where
  "joined_node h health now =
     registered_node (fst (Register h health)) (hc_Scope (hv_cfg h)) (hc_MaxConcurrency (hv_cfg h)) now"

lemma ready_host_joins:
  assumes "ready_host h health" and "\<not> sv_mu s" and "sv_nodeCredentials s = []" and "sv_hostSecret s = hc_RegistrationSecret (hv_cfg h)"
  shows "register s (snd (snd (Register h health))) (Some (fst (Register h health))) now =
    (Reply (JSON 200 (joined_node h health now)),
     s\<lparr>sv_nodes := AList.update (hc_NodeID (hv_cfg h)) (joined_node h health now) (sv_nodes s)\<rparr>)"
  using assms
  by (auto simp: register_def Register_def ready_host_def joined_node_def registered_node_def registration_terms_def Let_def
      lock_mu_def valid_scope_def)

lemma joined_node_id: "nd_NodeID (joined_node h health now) = hc_NodeID (hv_cfg h)" "nd_Endpoint (joined_node h health now) = hc_Endpoint (hv_cfg h)"
  by (simp_all add: joined_node_def registered_node_def Register_def Let_def)

section \<open>A lease\<close>

text \<open>The proxy's request for a model, with its digest, size and format when it has the file, and the claims of the lease.\<close>

definition pool_request :: "string \<Rightarrow> string \<Rightarrow> int \<Rightarrow> string \<Rightarrow> LeaseRequest" where
  "pool_request model digest sz format = \<lparr>lr_Model = model, lr_MinVRAMMB = 0, lr_ModelDigest = digest, lr_ModelSize = sz,
     lr_ModelFormat = format, lr_NodeID = '''', lr_Scope = '''', lr_ExcludeNodeIDs = []\<rparr>"

lemma pool_request_fields:
  "lr_Model (pool_request model digest sz format) = model" "lr_ModelDigest (pool_request model digest sz format) = digest"
  "lr_ModelSize (pool_request model digest sz format) = sz" "lr_ModelFormat (pool_request model digest sz format) = format"
  "lr_Scope (pool_request model digest sz format) = ''''"
  by (simp_all add: pool_request_def)

definition pool_claims :: "string \<Rightarrow> string \<Rightarrow> string \<Rightarrow> int \<Rightarrow> byte list \<Rightarrow> int \<Rightarrow> LeaseClaims" where
  "pool_claims nodeID model digest sz nonce expires =
     zero_claims\<lparr>cl_NodeID := nodeID, cl_Model := model, cl_ExpiresAt := unix expires, cl_Nonce := b64_encode nonce,
       cl_ModelDigest := digest, cl_ModelSize := sz\<rparr>"

text \<open>The host has the model, or takes it.\<close>

definition offers :: "HostServer \<Rightarrow> string \<Rightarrow> string \<Rightarrow> bool" where
  "offers h model digest \<longleftrightarrow> (if digest \<noteq> '''' then hc_ModelStore (hv_cfg h) else model \<in> set (hc_Models (hv_cfg h)))"

text \<open>A control plane whose only node is this host.\<close>

definition serves_only :: "Server \<Rightarrow> HostServer \<Rightarrow> Node \<Rightarrow> bool" where
  "serves_only s h node \<longleftrightarrow> \<not> sv_mu s \<and> sv_nodes s = [(hc_NodeID (hv_cfg h), node)] \<and> sv_reservations s = [] \<and> sv_groups s = [] \<and>
     sv_nodeCredentials s = [] \<and> sv_leaseSecret s = string_bytes (hc_LeaseSecret (hv_cfg h)) \<and> sv_ttl s = minutes 5"

lemma joined_node_selected:
  assumes "ready_host h health" and "offers h model digest" and "now - joined < seconds 90"
    and "serves_only s h (joined_node h health joined)"
  shows "select_node (expireReservationsLocked now s) (pool_request model digest sz format) now = joined_node h health joined"
proof -
  have "lease_eligible (expireReservationsLocked now s) (pool_request model digest sz format) now (joined_node h health joined)"
    using assms
    by (auto simp: lease_eligible_def ready_host_def joined_node_def registered_node_def Register_def offers_def Let_def
        pool_request_def hasVRAM_def active_tasks_def reservedForNodeLocked_def gomap_count_def expireReservationsLocked_def serves_only_def)
  then show ?thesis
    using assms(4) by (simp add: select_node_def select_step_def serves_only_def expireReservationsLocked_def zero_node_def)
qed

lemma leaseTTL_least: "sv_ttl s \<le> leaseTTL s sz"
  by (simp add: leaseTTL_def Let_def)

lemma pool_lease_granted:
  assumes "ready_host h health" and "offers h model digest" and "model \<noteq> ''''" and "\<not> bad_model_metadata digest sz format"
    and "pl_now s - joined < seconds 90"
    and "serves_only (pl_control s) h (joined_node h health joined)" and "sv_clientSecret (pl_control s) = secret"
    and "claims_json lib (pool_claims (hc_NodeID (hv_cfg h)) model digest sz nonce (pl_now s + leaseTTL (pl_control s) sz))"
    and "next_nonce s = Some nonce"
  obtains lease r where
    "createLease lib (pl_control s) secret (Some (pool_request model digest sz format)) (pool_clock s) (next_nonce s) =
       (Reply (JSON 201 lease), (pl_control s)\<lparr>sv_reservations := [(b64_encode nonce, r)]\<rparr>)"
    "ls_LeaseID lease = b64_encode nonce" "ls_NodeID lease = hc_NodeID (hv_cfg h)" "ls_Endpoint lease = hc_Endpoint (hv_cfg h)"
    "ls_ModelDigest lease = digest" "ls_ModelSize lease = sz"
    "Verify lib (pl_now s) (string_bytes (hc_LeaseSecret (hv_cfg h))) (ls_Token lease) =
       Inr (pool_claims (hc_NodeID (hv_cfg h)) model digest sz nonce (pl_now s + leaseTTL (pl_control s) sz))"
proof -
  let ?ttl = "leaseTTL (pl_control s) sz" and ?n = "joined_node h health joined"
  let ?c = "pool_claims (hc_NodeID (hv_cfg h)) model digest sz nonce (pl_now s + ?ttl)"
  let ?s1 = "expireReservationsLocked (pl_now s) (pl_control s)"
  have s1: "?s1 = pl_control s" using assms(6) by (simp add: serves_only_def expireReservationsLocked_def)
  note n = joined_node_id [of h health joined]
  have id: "hc_NodeID (hv_cfg h) \<noteq> ''''" using assms(1) by (simp add: ready_host_def Let_def)
  from assms(8) obtain payload where p: "marshal_claims lib ?c = Some payload" by (auto simp: claims_json_def)
  let ?token = "b64_encode payload @ CHR ''.'' # b64_encode (sign (string_bytes (hc_LeaseSecret (hv_cfg h))) (b64_encode payload))"
  have iss: "IssueModel lib (Some nonce) (pl_now s) (string_bytes (hc_LeaseSecret (hv_cfg h))) (hc_NodeID (hv_cfg h)) model digest sz ?ttl =
      Inr (?token, ?c)"
    using p by (simp add: IssueModel_def issueClaims_Inr pool_claims_def zero_claims_def)
  have "sv_ttl (pl_control s) = minutes 5" using assms(6) by (simp add: serves_only_def)
  then have "pl_now s + minutes 5 \<le> pl_now s + ?ttl" using leaseTTL_least [of "pl_control s" sz] by simp
  then have "unix (pl_now s + minutes 5) \<le> unix (pl_now s + ?ttl)" unfolding unix_def by (rule zdiv_mono1) simp
  then have "unix (pl_now s) < cl_ExpiresAt ?c" by (simp add: pool_claims_def unix_def minutes_def)
  with iss assms(8) have v: "Verify lib (pl_now s) (string_bytes (hc_LeaseSecret (hv_cfg h))) ?token = Inr ?c"
    unfolding IssueModel_def by (rule Verify_issueClaims)
  have sel: "select_node (pl_control s) (pool_request model digest sz format) (pl_now s) = ?n"
    using joined_node_selected [OF assms(1,2,5,6)] s1 by simp
  have c: "cl_Nonce ?c = b64_encode nonce" by (simp add: pool_claims_def)
  have terms: "\<not> sv_mu (pl_control s)" "sv_reservations (pl_control s) = []"
    "lease_secret_for (pl_control s) i = string_bytes (hc_LeaseSecret (hv_cfg h))" for i
    using assms(6) by (simp_all add: serves_only_def lease_secret_for_def)
  let ?lease = "\<lparr>ls_LeaseID = b64_encode nonce, ls_NodeID = hc_NodeID (hv_cfg h), ls_Endpoint = hc_Endpoint (hv_cfg h), ls_Model = model,
      ls_Token = ?token, ls_ExpiresAt = cl_ExpiresAt ?c, ls_ModelDigest = digest, ls_ModelSize = sz, ls_ModelFormat = format\<rparr>"
  have "createLease lib (pl_control s) secret (Some (pool_request model digest sz format)) (pool_clock s) (next_nonce s) =
      (Reply (JSON 201 ?lease), (pl_control s)\<lparr>sv_reservations := [(b64_encode nonce,
         \<lparr>rv_nodeID = hc_NodeID (hv_cfg h), rv_expiresAt = reservation_expiry (pl_now s) (cl_ExpiresAt ?c)\<rparr>)]\<rparr>)"
    using assms(3,4,7) by (simp add: createLease_def authorizeClient_def lock_mu_def pool_clock_def Let_def
        pool_request_fields terms s1 sel n id iss c assms(9))
  then show ?thesis by (rule that) (simp_all add: v)
qed

text \<open>The proxy finds its host reachable, and gives the lease back after the chat.\<close>

lemma wired_update [simp]:
  "wired net p (s\<lparr>pl_control := c\<rparr>) = wired net p s" "wired net p (s\<lparr>pl_nonces := ns\<rparr>) = wired net p s"
  "wired net p (s\<lparr>pl_now := now\<rparr>) = wired net p s" "hv_cfg h = hv_cfg (pl_host s) \<Longrightarrow> wired net p (s\<lparr>pl_host := h\<rparr>) = wired net p s"
  by (simp_all add: wired_def)

lemma pool_leased:
  assumes "createLease lib (pl_control s) (px_clientSecret p) (Some req) (pool_clock s) (next_nonce s) = (Reply (JSON 201 lease), control)"
    and "ls_Endpoint lease = hc_Endpoint (hv_cfg (pl_host s))" and "http_url (hc_Endpoint (hv_cfg (pl_host s)))" and "wired net p s"
  shows "leaseReachable (pool_env lib codec http http_url render net p) req (s, []) =
    (Inr lease, s\<lparr>pl_control := control, pl_nonces := tl (pl_nonces s)\<rparr>, [Acquired (ls_LeaseID lease)])"
proof -
  let ?s = "s\<lparr>pl_control := control, pl_nonces := tl (pl_nonces s)\<rparr>"
  have "wired net p ?s" using assms(4) by simp
  then have "at_host net ?s (strings_TrimRight_slash (ls_Endpoint lease) @ ''/healthz'') ''/healthz''"
    by (rule wired_host) (simp_all add: assms(2))
  moreover have "at_control net s (px_controlURL p @ ''/v1/leases'') ''/v1/leases''" using assms(4) by (rule wired_control) simp
  ultimately show ?thesis
    using assms(1-3) by (simp add: leaseReachable_def numeral_3_eq_3 proxy_lease_def preflight_def pool_env_def)
qed

lemma pool_released:
  assumes "sv_clientSecret (pl_control s) = px_clientSecret p" and "\<not> sv_mu (pl_control s)" and "sv_reservations (pl_control s) = [(i, r)]"
    and "i \<noteq> ''''" and "reaches net (px_controlURL p) (pl_controlAddr s)"
  shows "proxy_releaseLease (pool_env lib codec http http_url render net p) i (s, calls) =
    (s\<lparr>pl_control := (pl_control s)\<lparr>sv_reservations := []\<rparr>\<rparr>, calls @ [Released i])"
proof -
  have "at_control net s (px_controlURL p @ ''/v1/leases/'' @ i @ ''/release'') (''/v1/leases/'' @ i @ ''/release'')"
    using reachesD [OF assms(5)] by (simp add: at_control_def)
  then show ?thesis using assms(1-4) by (simp add: proxy_releaseLease_def pool_env_def releaseLease_def authorizeClient_def lock_mu_def)
qed

section \<open>Chats and uploads over the network\<close>

lemma chat_http_fields:
  "rq_post (chat_http token digest body)" "rq_modelDigest (chat_http token digest body) = digest"
  "(chat_http token digest body)\<lparr>rq_body := Some body\<rparr> = chat_http token digest body"
  "token \<noteq> '''' \<Longrightarrow> Bearer (rq_authorization (chat_http token digest body)) = token"
  using Bearer_token [of token] by (simp_all add: chat_http_def)

lemma chat_http_body: "length body \<le> 4194304 \<Longrightarrow> readBody (chat_http token digest body) = Some body"
  by (simp add: readBody_def chat_http_def)

lemma chat_http_authorized:
  assumes "Verify lib now (string_bytes (hc_LeaseSecret cfg)) token = Inr claims" and "cl_NodeID claims = hc_NodeID cfg"
    and "length body \<le> 4194304" and "probe_model codec body = Some (cl_Model claims)" and "cl_ModelDigest claims = digest"
  shows "authorize lib codec cfg now (chat_http token digest body) = Inr (chat_http token digest body)"
proof -
  have "token \<noteq> ''''" using assms(1) by (auto simp: Verify_def)
  with assms chat_http_body [OF assms(3), of token digest] show ?thesis by (simp add: authorize_def chat_http_fields)
qed

lemma pool_forwarded:
  assumes "host_chat lib codec http no_faults (pl_host s) (pl_now s) (pl_now s) (chat_http token digest body) = (reply, h)"
    and "endpoint = hc_Endpoint (hv_cfg (pl_host s))" and "wired net p s"
  shows "forward (pool_env lib codec http http_url render net p) endpoint token digest body err nodes s =
    (Streamed (fst (render reply)) (copyResponse (snd (render reply))) nodes, s\<lparr>pl_host := h\<rparr>)"
proof -
  have "at_host net s (strings_TrimRight_slash endpoint @ ''/v1/chat/completions'') ''/v1/chat/completions''"
    using assms(3,2) by (rule wired_host) simp
  then show ?thesis using assms(1) by (simp add: forward_def pool_env_def on_host_def case_prod_unfold)
qed

text \<open>What the network does with a model cache is what the host of theory \<open>Proxy_Correct\<close> does.\<close>

lemma modelUpload_cfg: "hv_cfg (snd (modelUpload lib ft0 ft h now rq)) = hv_cfg h"
  by (auto simp: modelUpload_def split: sum.splits option.splits prod.splits cache_error.splits)

lemma wired_cache:
  "wired net p s \<Longrightarrow> ls_Endpoint lease = hc_Endpoint (hv_cfg (pl_host s)) \<Longrightarrow>
     at_host net s (strings_TrimRight_slash (hc_Endpoint (hv_cfg (pl_host s))) @ ''/v1/model-cache/'' @ ls_ModelDigest lease)
       (''/v1/model-cache/'' @ ls_ModelDigest lease)"
  by (erule wired_host) simp_all

lemma cache_answer_snd: "snd (cache_answer r) = snd r"
  by (cases r rule: cache_answer.cases) simp_all

lemma pool_upload:
  assumes "wired net p s" and "ls_Endpoint lease = hc_Endpoint (hv_cfg (pl_host s))"
    and "pe_upload (host_env lib (pl_now s) base) (pl_host s) lease offset len body = (a, h)"
  shows "pe_upload (pool_env lib codec http http_url render net p) s lease offset len body = (a, s\<lparr>pl_host := h\<rparr>) \<and>
    hv_cfg h = hv_cfg (pl_host s)"
proof (cases "int (length body) = len")
  case True
  let ?m = "modelUpload lib no_faults no_faults (pl_host s) (pl_now s) (cache_request lease (itoa offset) (Some body))"
  have m: "cache_answer ?m = (a, h)" using assms(3) True by (simp add: host_env_def)
  then have "h = snd ?m" using cache_answer_snd [of ?m] by simp
  then have "hv_cfg h = hv_cfg (pl_host s)" by (simp add: modelUpload_cfg)
  with True m wired_cache [OF assms(1,2)] show ?thesis by (simp add: pool_env_def on_host_def Let_def assms(2))
next
  case False
  with assms show ?thesis by (simp add: pool_env_def host_env_def)
qed

lemma pool_upload_loop:
  assumes "wired net p s" and "ls_Endpoint lease = hc_Endpoint (hv_cfg (pl_host s))"
    and "upload_loop (host_env lib (pl_now s) base) chunkLimit lease file status (pl_host s) = (r, h)"
  shows "upload_loop (pool_env lib codec http http_url render net p) chunkLimit lease file status s = (r, s\<lparr>pl_host := h\<rparr>)"
  using assms
proof (induction "nat (ls_ModelSize lease - mc_Received status)" arbitrary: status s rule: less_induct)
  case less
  let ?env = "host_env lib (pl_now s) base" and ?pool = "pool_env lib codec http http_url render net p"
  show ?case
  proof (cases "ls_ModelSize lease \<le> mc_Received status")
    case True
    with less.prems(3) show ?thesis by (simp add: upload_loop.simps)
  next
    case False
    let ?n = "min (ls_ModelSize lease - mc_Received status) chunkLimit"
    let ?body = "section_bytes file (mc_Received status) ?n"
    obtain a h1 where up: "pe_upload ?env (pl_host s) lease (mc_Received status) ?n ?body = (a, h1)" by fastforce
    have pool: "pe_upload ?pool s lease (mc_Received status) ?n ?body = (a, s\<lparr>pl_host := h1\<rparr>)" "hv_cfg h1 = hv_cfg (pl_host s)"
      using pool_upload [OF less.prems(1,2) up] by blast+
    show ?thesis
    proof (cases "\<exists>code next_status. a = Some (code, Some next_status) \<and> code div 100 = 2 \<and> mc_Received status < mc_Received next_status")
      case True
      then obtain code next_status where a: "a = Some (code, Some next_status)" "code div 100 = 2" "mc_Received status < mc_Received next_status"
        by blast
      have "upload_loop ?env chunkLimit lease file next_status h1 = (r, h)"
        using less.prems(3) False up a by (simp add: upload_loop.simps [of _ _ _ _ status])
      moreover have "nat (ls_ModelSize lease - mc_Received next_status) < nat (ls_ModelSize lease - mc_Received status)"
        using a(3) False by simp
      ultimately have "upload_loop ?pool chunkLimit lease file next_status (s\<lparr>pl_host := h1\<rparr>) = (r, s\<lparr>pl_host := h1\<rparr>\<lparr>pl_host := h\<rparr>)"
        using less.hyps [of next_status "s\<lparr>pl_host := h1\<rparr>"] less.prems(1,2) pool(2) by simp
      then show ?thesis using False pool(1) a by (simp add: upload_loop.simps [of _ _ _ _ status])
    next
      case stop: False
      with less.prems(3) False up pool(1) show ?thesis
        by (simp add: upload_loop.simps [of _ _ _ _ status]) (auto split: option.splits prod.splits if_splits)
    qed
  qed
qed

lemma pool_ensureModel:
  assumes "wired net p s" and "ls_Endpoint lease = hc_Endpoint (hv_cfg (pl_host s))"
    and "ensureModel (host_env lib (pl_now s) base) chunkLimit lease (Some content) (pl_host s) = (None, h)"
  shows "ensureModel (pool_env lib codec http http_url render net p) chunkLimit lease (Some content) s = (None, s\<lparr>pl_host := h\<rparr>)"
proof -
  let ?pool = "pool_env lib codec http http_url render net p" and ?env = "host_env lib (pl_now s) base"
  let ?m = "modelStatus lib no_faults (pl_host s) (pl_now s) (cache_request lease '''' None)"
  obtain a h1 where m: "cache_answer ?m = (a, h1)" by fastforce
  then have "h1 = snd ?m" using cache_answer_snd [of ?m] by simp
  then have cfg: "hv_cfg h1 = hv_cfg (pl_host s)"
    by (auto simp: modelStatus_def split: sum.splits option.splits prod.splits)
  have status: "pe_status ?env (pl_host s) lease = (a, h1)" "pe_status ?pool s lease = (a, s\<lparr>pl_host := h1\<rparr>)"
    using m wired_cache [OF assms(1,2)] by (simp_all add: host_env_def pool_env_def on_host_def Let_def assms(2))
  from assms(3) status(1) obtain st where st: "a = Some (st)" "fst st div 100 = 2" "snd st \<noteq> None"
    by (auto simp: ensureModel_def proxy_modelStatus_def split: option.splits prod.splits if_splits)
  show ?thesis
  proof (cases "mc_Ready (the (snd st))")
    case True
    with assms(3) status st show ?thesis by (auto simp: ensureModel_def proxy_modelStatus_def split: option.splits prod.splits)
  next
    case False
    obtain r h2 where loop: "upload_loop ?env chunkLimit lease content (the (snd st)) h1 = (r, h2)" by fastforce
    have "upload_loop (host_env lib (pl_now (s\<lparr>pl_host := h1\<rparr>)) base) chunkLimit lease content (the (snd st)) (pl_host (s\<lparr>pl_host := h1\<rparr>)) = (r, h2)"
      using loop by simp
    then have "upload_loop ?pool chunkLimit lease content (the (snd st)) (s\<lparr>pl_host := h1\<rparr>) = (r, s\<lparr>pl_host := h1\<rparr>\<lparr>pl_host := h2\<rparr>)"
      using assms(1,2) cfg by (intro pool_upload_loop) simp_all
    with assms(3) status st False loop show ?thesis
      by (auto simp: ensureModel_def proxy_modelStatus_def split: option.splits prod.splits sum.splits if_splits)
  qed
qed

section \<open>A whole chat\<close>

text \<open>What the proxy asks for with a catalogue's entry, and without one.\<close>

definition entry_request :: "string \<Rightarrow> Entry option \<Rightarrow> LeaseRequest" where
  "entry_request model entry = pool_request model (case entry of None \<Rightarrow> '''' | Some e \<Rightarrow> lm_Digest e)
     (case entry of None \<Rightarrow> 0 | Some e \<Rightarrow> lm_Size e) (case entry of None \<Rightarrow> '''' | Some e \<Rightarrow> lm_Format e)"

lemma proxy_chat_without_headers:
  assumes "length body \<le> 4194304" and "probe_model codec body = Some model" and "model \<noteq> ''''"
    and "entry = Lookup (px_catalog p) model" and "px_catalog p = None \<or> entry \<noteq> None"
    and "entry = None \<or> \<not> px_distributed p \<or> \<not> px_distributedDefault p"
  shows "proxy_chat env codec p fs (Some body) no_headers w = chat_single env p fs model 0 no_headers entry body w"
  using assms by (auto simp: proxy_chat_def no_headers_def TrimSpace_def ToLower_def is_space_def Let_def split: option.splits)

lemma chat_single_steps:
  assumes "leaseReachable env (entry_request model entry) w = (Inr lease, s1, calls)"
    and "(case entry of None \<Rightarrow> (None, s1) | Some e \<Rightarrow> ensureModel env (px_uploadChunkSize p) lease (fs (en_Path e)) s1) = (None, s2)"
    and "forward env (ls_Endpoint lease) (ls_Token lease) (ls_ModelDigest lease) body ''host unavailable'' [ls_NodeID lease] s2 = (reply, s3)"
  shows "chat_single env p fs model 0 no_headers entry body w = (reply, proxy_releaseLease env (ls_LeaseID lease) (s3, calls))"
  using assms
  by (cases entry) (simp_all add: chat_single_def entry_request_def pool_request_def no_headers_def TrimSpace_def ToLower_def)

text \<open>
  A chat in a pool whose host takes the model and answers: \<open>Q\<close> says what the host is after the model has been
  synchronized, \<open>R\<close> after the chat.
\<close>

lemma pool_chat:
  assumes host: "ready_host (pl_host s) health" "offers (pl_host s) model digest" "pl_now s - joined < seconds 90"
      "serves_only (pl_control s) (pl_host s) (joined_node (pl_host s) health joined)" "http_url (hc_Endpoint (hv_cfg (pl_host s)))"
      "wired net p s"
    and model: "model \<noteq> ''''" "entry_request model entry = pool_request model digest sz format" "\<not> bad_model_metadata digest sz format"
    and lease: "sv_clientSecret (pl_control s) = px_clientSecret p" "pl_nonces s = nonce # nonces" "nonce \<noteq> []" "claims_json lib claims"
      "claims = pool_claims (hc_NodeID (hv_cfg (pl_host s))) model digest sz nonce (pl_now s + leaseTTL (pl_control s) sz)"
    and sync: "\<And>lease s1. Verify lib (pl_now s) (string_bytes (hc_LeaseSecret (hv_cfg (pl_host s)))) (ls_Token lease) = Inr claims \<Longrightarrow>
      ls_Endpoint lease = hc_Endpoint (hv_cfg (pl_host s)) \<Longrightarrow> ls_ModelDigest lease = digest \<Longrightarrow> ls_ModelSize lease = sz \<Longrightarrow>
      pl_host s1 = pl_host s \<Longrightarrow> pl_now s1 = pl_now s \<Longrightarrow> wired net p s1 \<Longrightarrow>
      \<exists>h. (case entry of None \<Rightarrow> (None, s1)
            | Some e \<Rightarrow> ensureModel (pool_env lib codec http http_url render net p) (px_uploadChunkSize p) lease (fs (en_Path e)) s1)
          = (None, s1\<lparr>pl_host := h\<rparr>) \<and> hv_cfg h = hv_cfg (pl_host s) \<and> Q h"
    and chat: "\<And>token h. Verify lib (pl_now s) (string_bytes (hc_LeaseSecret (hv_cfg (pl_host s)))) token = Inr claims \<Longrightarrow> Q h \<Longrightarrow>
      \<exists>h'. host_chat lib codec http no_faults h (pl_now s) (pl_now s) (chat_http token digest body) = (reply, h') \<and> R h'"
  shows "\<exists>s' calls. chat_single (pool_env lib codec http http_url render net p) p fs model 0 no_headers entry body (s, []) =
      (Streamed (fst (render reply)) (copyResponse (snd (render reply))) [hc_NodeID (hv_cfg (pl_host s))], s', calls) \<and>
    sv_reservations (pl_control s') = [] \<and> R (pl_host s')"
proof -
  let ?env = "pool_env lib codec http http_url render net p" and ?h = "pl_host s"
  have nn: "next_nonce s = Some nonce" using lease(2) by (simp add: next_nonce_def)
  obtain lease r where l: "createLease lib (pl_control s) (px_clientSecret p) (Some (pool_request model digest sz format)) (pool_clock s) (next_nonce s) =
       (Reply (JSON 201 lease), (pl_control s)\<lparr>sv_reservations := [(b64_encode nonce, r)]\<rparr>)"
    "ls_LeaseID lease = b64_encode nonce" "ls_NodeID lease = hc_NodeID (hv_cfg ?h)" "ls_Endpoint lease = hc_Endpoint (hv_cfg ?h)"
    "ls_ModelDigest lease = digest" "ls_ModelSize lease = sz"
    "Verify lib (pl_now s) (string_bytes (hc_LeaseSecret (hv_cfg ?h))) (ls_Token lease) = Inr claims"
    using pool_lease_granted [OF host(1,2) model(1,3) host(3,4) lease(1) lease(4) [unfolded lease(5)] nn] unfolding lease(5) by blast
  let ?s1 = "s\<lparr>pl_control := (pl_control s)\<lparr>sv_reservations := [(b64_encode nonce, r)]\<rparr>, pl_nonces := nonces\<rparr>"
  have leased: "leaseReachable ?env (entry_request model entry) (s, []) = (Inr lease, ?s1, [Acquired (b64_encode nonce)])"
    using pool_leased [of lib s p "pool_request model digest sz format" lease _ http_url net codec http render] l(1,2,4) host(5,6) model(2) lease(2)
    by simp
  obtain h1 where h1: "(case entry of None \<Rightarrow> (None, ?s1)
      | Some e \<Rightarrow> ensureModel ?env (px_uploadChunkSize p) lease (fs (en_Path e)) ?s1) = (None, ?s1\<lparr>pl_host := h1\<rparr>)"
    "hv_cfg h1 = hv_cfg ?h" "Q h1"
    using sync [OF l(7,4,5,6), of ?s1] host(6) by auto
  obtain h2 where h2: "host_chat lib codec http no_faults h1 (pl_now s) (pl_now s) (chat_http (ls_Token lease) digest body) = (reply, h2)" "R h2"
    using chat [OF l(7) h1(3)] by blast
  let ?s3 = "?s1\<lparr>pl_host := h2\<rparr>"
  have "forward ?env (ls_Endpoint lease) (ls_Token lease) (ls_ModelDigest lease) body ''host unavailable'' [ls_NodeID lease]
      (?s1\<lparr>pl_host := h1\<rparr>) = (Streamed (fst (render reply)) (copyResponse (snd (render reply))) [hc_NodeID (hv_cfg ?h)], ?s3)"
    using pool_forwarded [of lib codec http "?s1\<lparr>pl_host := h1\<rparr>" "ls_Token lease" digest body reply h2 "ls_Endpoint lease" net p http_url render]
      h2(1) h1(2) l(3-5) host(6) by simp
  from chat_single_steps [OF leased h1(1) this] have chat: "chat_single ?env p fs model 0 no_headers entry body (s, []) =
      (Streamed (fst (render reply)) (copyResponse (snd (render reply))) [hc_NodeID (hv_cfg ?h)],
       proxy_releaseLease ?env (b64_encode nonce) (?s3, [Acquired (b64_encode nonce)]))"
    using l(2) by simp
  have "proxy_releaseLease ?env (b64_encode nonce) (?s3, [Acquired (b64_encode nonce)]) =
      (?s3\<lparr>pl_control := (pl_control ?s3)\<lparr>sv_reservations := []\<rparr>\<rparr>, [Acquired (b64_encode nonce)] @ [Released (b64_encode nonce)])"
    using lease(1,3) host(4,6) by (intro pool_released) (simp_all add: serves_only_def wired_def b64_encode_nonempty)
  with chat h2(2) show ?thesis by simp
qed

end
