(* ===== verification/Deployment.thy ===== *)
theory Deployment
  imports Startup Pool
begin

text \<open>
  A pool as it is deployed: a control plane, a host and a requester's proxy, each configured by its main
  function (theory \<open>Startup\<close>), over the network of theory \<open>Pool\<close>. The host answers with the built-in runtime,
  or takes the requester's model into its cache and answers with the managed runtime.
\<close>

section \<open>The configured parts\<close>















section \<open>The host's answers\<close>



section \<open>Properties\<close>




section \<open>Witnesses\<close>















end
