(* ===== verification/Heartbeat.thy ===== *)
theory Heartbeat
  imports Host Control_Correct
begin

text \<open>
  The registration loop of a host (the goroutine of \<open>src/cmd/host/main.go\<close>) against the control plane: a host
  registers again 30 seconds after a success and 2 seconds after a failure, and the control plane leases a node
  for 90 seconds after its last registration. An attempt takes at most 8 seconds: the 5 of its context, and the 3
  that \<open>Inventory\<close> may take for \<open>nvidia-smi\<close>, which this context does not bound. Times are in nanoseconds.
\<close>

section \<open>The loop\<close>

text \<open>
  One attempt: the requests of others that the control plane serves before it, the health of the runtime, the
  tasks that run, when the registration reaches the control plane (after the start of the attempt) if it does,
  whether the reply gets back, and how long the attempt takes.
\<close>

record attempt =
  hb_others :: "request list"
  hb_health :: "string + nat \<times> string"
  hb_tasks :: int
  hb_arrives :: "int option"
  hb_replied :: bool
  hb_took :: int

fun accepted_reply :: "'a outcome \<Rightarrow> bool" where
  "accepted_reply (Reply r) = (reply_status r div 100 = 2)"
| "accepted_reply _ = False"

text \<open>\<open>server.Register(ctx)\<close> at time \<open>now\<close>: whether it returned without an error, and the control plane afterwards.\<close>

definition register_attempt :: "json_codec \<Rightarrow> HostServer \<Rightarrow> int \<Rightarrow> attempt \<Rightarrow> Server \<Rightarrow> bool \<times> Server" where
  "register_attempt lib h now a s =
     (let s1 = foldl (serve lib) s (hb_others a)
      in (case hb_arrives a of
            None \<Rightarrow> (False, s1)
          | Some delay \<Rightarrow>
              (case Register (h\<lparr>hv_activeTasks := hb_tasks a\<rparr>) (hb_health a) of
                 (registration, _, secret) \<Rightarrow>
                   (case register s1 secret (Some registration) (now + delay) of
                      (answer, s2) \<Rightarrow> (hb_replied a \<and> accepted_reply answer, s2)))))"

text \<open>The goroutine: the control plane after the attempts, and the time of the next one.\<close>

fun register_loop :: "json_codec \<Rightarrow> HostServer \<Rightarrow> int \<Rightarrow> attempt list \<Rightarrow> Server \<Rightarrow> Server \<times> int" where
  "register_loop lib h now [] s = (s, now)"
| "register_loop lib h now (a # attempts) s =
     (case register_attempt lib h now a s of
        (ok, s') \<Rightarrow> register_loop lib h (now + hb_took a + (if ok then seconds 30 else seconds 2)) attempts s')"

section \<open>Lemmas\<close>

text \<open>The node is registered and was seen at \<open>t\<close> or later.\<close>

definition seen_since :: "string \<Rightarrow> int \<Rightarrow> Server \<Rightarrow> bool" where
  "seen_since i t s \<longleftrightarrow> (\<exists>node. map_of (sv_nodes s) i = Some node \<and> t \<le> nd_LastSeen node)"

text \<open>A request that is not a registration under this id.\<close>

fun leaves_node :: "string \<Rightarrow> request \<Rightarrow> bool" where
  "leaves_node i (RegisterNode _ (Some registration) _) = (reg_NodeID registration \<noteq> i)"
| "leaves_node i _ = True"

lemma register_cases:
  assumes "register s secret (Some req) now = (r, s')"
  shows "\<not> accepted_reply r \<and> s' = s \<or>
    (\<exists>scope m. s' = s\<lparr>sv_nodes := AList.update (reg_NodeID req) (registered_node req scope m now) (sv_nodes s)\<rparr>)"
proof -
  have [simp]: "nd_NodeID (registered_node req scope m now) = reg_NodeID req" for scope m
    by (simp add: registered_node_def)
  show ?thesis using assms unfolding register_def Let_def lock_mu_def
    by (auto split: option.splits if_split_asm) blast+
qed

lemma seen_serve:
  assumes "leaves_node i req" and "seen_since i t s"
  shows "seen_since i t (serve lib s req)"
proof (cases "\<exists>secret registration now. req = RegisterNode secret (Some registration) now")
  case True
  then obtain secret registration now where req: "req = RegisterNode secret (Some registration) now" by blast
  obtain r s' where "register s secret (Some registration) now = (r, s')" by fastforce
  from register_cases [OF this] this assms show ?thesis
    by (auto simp: req seen_since_def update_conv')
next
  case False
  then have "same_registry s (serve lib s req) \<or> serve lib s req = s"
    using serve_same_registry [of req s lib] by (cases req) (auto simp: register_def split: option.splits)
  with assms(2) show ?thesis by (auto simp: same_registry_def seen_since_def)
qed

lemma seen_serves: "list_all (leaves_node i) reqs \<Longrightarrow> seen_since i t s \<Longrightarrow> seen_since i t (foldl (serve lib) s reqs)"
  by (induction reqs arbitrary: s) (auto intro: seen_serve)

definition attempt_ok :: "string \<Rightarrow> attempt \<Rightarrow> bool" where
  "attempt_ok i a \<longleftrightarrow> list_all (leaves_node i) (hb_others a) \<and> 0 \<le> hb_took a \<and> hb_took a \<le> seconds 8 \<and>
     (\<forall>delay. hb_arrives a = Some delay \<longrightarrow> 0 \<le> delay \<and> delay \<le> hb_took a)"

lemma Register_id: "reg_NodeID (fst (Register h health)) = hc_NodeID (hv_cfg h)"
  by (simp add: Register_def Let_def)

text \<open>An attempt keeps a node that was seen before; one that returns without an error has it seen during the attempt.\<close>

lemma attempt_seen:
  assumes "attempt_ok (hc_NodeID (hv_cfg h)) a" and "register_attempt lib h now a s = (ok, s')"
  shows "seen_since (hc_NodeID (hv_cfg h)) t s \<Longrightarrow> t \<le> now \<Longrightarrow> seen_since (hc_NodeID (hv_cfg h)) t s'"
    and "ok \<Longrightarrow> seen_since (hc_NodeID (hv_cfg h)) now s'"
proof -
  let ?i = "hc_NodeID (hv_cfg h)" and ?s1 = "foldl (serve lib) s (hb_others a)"
  let ?r = "Register (h\<lparr>hv_activeTasks := hb_tasks a\<rparr>) (hb_health a)"
  have cases: "(\<not> ok \<and> s' = ?s1) \<or> (\<exists>delay scope m. 0 \<le> delay \<and>
      s' = ?s1\<lparr>sv_nodes := AList.update ?i (registered_node (fst ?r) scope m (now + delay)) (sv_nodes ?s1)\<rparr>)"
  proof (cases "hb_arrives a")
    case None
    with assms(2) show ?thesis by (simp add: register_attempt_def Let_def)
  next
    case (Some delay)
    obtain answer s2 where r: "register ?s1 (snd (snd ?r)) (Some (fst ?r)) (now + delay) = (answer, s2)" by fastforce
    with Some assms(2) have "s' = s2" "ok \<longleftrightarrow> hb_replied a \<and> accepted_reply answer"
      by (simp_all add: register_attempt_def Let_def case_prod_unfold)
    moreover have "0 \<le> delay" using assms(1) Some by (simp add: attempt_ok_def)
    ultimately show ?thesis using register_cases [OF r] Register_id [of "h\<lparr>hv_activeTasks := hb_tasks a\<rparr>" "hb_health a"]
      by auto
  qed
  show "seen_since ?i now s'" if "ok" using cases that by (auto simp: seen_since_def registered_node_def update_conv')
  have "seen_since ?i t ?s1" if "seen_since ?i t s" using seen_serves [OF _ that] assms(1) by (simp add: attempt_ok_def)
  then show "seen_since ?i t s'" if "seen_since ?i t s" "t \<le> now"
    using cases that by (auto simp: seen_since_def registered_node_def update_conv')
qed

lemma register_loop_append:
  "register_loop lib h now (xs @ ys) s = (case register_loop lib h now xs s of (s', now') \<Rightarrow> register_loop lib h now' ys s')"
  by (induction xs arbitrary: now s) (auto split: prod.splits)

lemma later_attempts_seen:
  assumes "\<forall>a\<in>set attempts. attempt_ok (hc_NodeID (hv_cfg h)) a"
    and "seen_since (hc_NodeID (hv_cfg h)) t s" and "t \<le> now" and "now - t \<le> seconds (38 + 10 * int j)"
    and "register_loop lib h now attempts s = (s', now')"
  shows "\<exists>t'. seen_since (hc_NodeID (hv_cfg h)) t' s' \<and> now' - t' \<le> seconds (38 + 10 * int (j + length attempts))"
  using assms
proof (induction attempts arbitrary: t now s j)
  case Nil
  then show ?case by auto
next
  case (Cons a attempts)
  obtain ok s1 where r: "register_attempt lib h now a s = (ok, s1)" by fastforce
  have a: "attempt_ok (hc_NodeID (hv_cfg h)) a" "0 \<le> hb_took a" "hb_took a \<le> seconds 8" "\<forall>a\<in>set attempts. attempt_ok (hc_NodeID (hv_cfg h)) a"
    using Cons.prems(1) by (simp_all add: attempt_ok_def)
  note seen = attempt_seen [OF a(1) r]
  let ?t = "if ok then now else t" and ?now = "now + hb_took a + (if ok then seconds 30 else seconds 2)"
  have "seen_since (hc_NodeID (hv_cfg h)) ?t s1" using seen Cons.prems(2,3) by simp
  moreover have "?t \<le> ?now" "?now - ?t \<le> seconds (38 + 10 * int (Suc j))"
    using a(2,3) Cons.prems(3,4) by (simp_all add: seconds_def)
  moreover have "register_loop lib h ?now attempts s1 = (s', now')" using Cons.prems(5) r by simp
  ultimately show ?case using Cons.IH [OF a(4), of ?t s1 ?now "Suc j"] by simp
qed

section \<open>Property\<close>

text \<open>
  C35. A host does not become too old to be leased as long as it registers now and then: after a registration that
  succeeded, and up to four attempts after it that may fail, the control plane has the node and has seen it less
  than 90 seconds ago, until the end of the next attempt, whatever requests of others it serves in between, none of
  them a registration under the host's own id; so for every lease request the node is as eligible as it would be at
  the moment of its last registration. An attempt takes at most the 8 seconds of \<open>attempt_ok\<close>.
\<close>

lemma young_eligible:
  "u - nd_LastSeen node < seconds 90 \<Longrightarrow> lease_eligible s req u node = lease_eligible s req (nd_LastSeen node) node"
  by (auto simp: lease_eligible_def seconds_def)

theorem heartbeat_keeps_node_live:
  assumes "register_loop lib h start before s = (s0, now0)"
    and "fst (register_attempt lib h now0 good s0)"
    and "list_all (attempt_ok (hc_NodeID (hv_cfg h))) (good # later)" and "length later \<le> 4"
    and "register_loop lib h start (before @ good # later) s = (s', now')" and "u \<le> now' + seconds 8"
  shows "\<exists>node. map_of (sv_nodes s') (hc_NodeID (hv_cfg h)) = Some node \<and> u - nd_LastSeen node < seconds 90 \<and>
    (lease_eligible s' req u node \<longleftrightarrow> lease_eligible s' req (nd_LastSeen node) node)"
proof -
  obtain s1 where good: "register_attempt lib h now0 good s0 = (True, s1)" using assms(2) by (metis (full_types) prod.collapse)
  have ok: "attempt_ok (hc_NodeID (hv_cfg h)) good" "\<forall>a\<in>set later. attempt_ok (hc_NodeID (hv_cfg h)) a"
    using assms(3) by (simp_all add: list_all_iff)
  then have "now0 \<le> now0 + hb_took good + seconds 30" "now0 + hb_took good + seconds 30 - now0 \<le> seconds (38 + 10 * int 0)"
    by (simp_all add: attempt_ok_def seconds_def)
  moreover have "register_loop lib h (now0 + hb_took good + seconds 30) later s1 = (s', now')"
    using assms(1,5) good by (simp add: register_loop_append)
  ultimately obtain t' where t': "seen_since (hc_NodeID (hv_cfg h)) t' s'" "now' - t' \<le> seconds (38 + 10 * int (0 + length later))"
    using later_attempts_seen [OF ok(2) attempt_seen(2) [OF ok(1) good TrueI]] by blast
  moreover from t'(2) assms(4,6) have "u - t' < seconds 90" by (simp add: seconds_def)
  ultimately obtain node where "map_of (sv_nodes s') (hc_NodeID (hv_cfg h)) = Some node" "u - nd_LastSeen node < seconds 90"
    by (auto simp: seen_since_def)
  with young_eligible show ?thesis by blast
qed

definition sample_beat :: "bool \<Rightarrow> attempt" where
  "sample_beat arrives = \<lparr>hb_others = [], hb_health = Inl '''', hb_tasks = 0, hb_arrives = (if arrives then Some 1 else None),
     hb_replied = True, hb_took = seconds 8\<rparr>"

definition beating_host :: HostServer where
  "beating_host = Host.New \<lparr>hc_NodeID = ''n'', hc_Endpoint = ''http://n'', hc_ControlURL = ''http://c'', hc_Secret = ''k'',
     hc_RegistrationSecret = '''', hc_LeaseSecret = '''', hc_Models = [''m''], hc_RuntimeURL = '''', hc_RuntimeKind = '''',
     hc_RuntimeModel = '''', hc_Inventory = zero_hardware, hc_ModelStore = False, hc_RuntimeManager = None, hc_MaxUploadChunk = 0,
     hc_Scope = '''', hc_MaxConcurrency = 1, hc_DistributedReady = False, hc_StageEndpoint = ''''\<rparr> \<lparr>st_files = []\<rparr>"

theorem heartbeat_keeps_node_live_witness:
  "\<exists>s' now' node. register_loop \<lparr>marshal_claims = (\<lambda>_. None), unmarshal_claims = (\<lambda>_. None)\<rparr> beating_host 0
      (sample_beat True # replicate 4 (sample_beat False)) (Control.New ''k'' (minutes 5)) = (s', now') \<and>
    map_of (sv_nodes s') ''n'' = Some node \<and> now' + seconds 8 - nd_LastSeen node < seconds 90"
proof -
  let ?lib = "\<lparr>marshal_claims = (\<lambda>_. None), unmarshal_claims = (\<lambda>_. None)\<rparr>" and ?c = "Control.New ''k'' (minutes 5)"
  have id: "hc_NodeID (hv_cfg beating_host) = ''n''" by (simp add: beating_host_def Host.New_def)
  have start: "register_loop ?lib beating_host 0 [] ?c = (?c, 0)" by simp
  have good: "fst (register_attempt ?lib beating_host 0 (sample_beat True) ?c)"
    by (simp add: register_attempt_def sample_beat_def beating_host_def Host.New_def default_string_def Register_def
        RuntimeStatus_of_def register_def registration_terms_def valid_scope_def lock_mu_def Control.New_def NewWithSecrets_def
        NewWithNodeCredentials_def Let_def)
  have later: "list_all (attempt_ok (hc_NodeID (hv_cfg beating_host))) (sample_beat True # replicate 4 (sample_beat False))"
    "length (replicate 4 (sample_beat False)) \<le> 4"
    by (simp_all add: list_all_iff attempt_ok_def sample_beat_def seconds_def)
  obtain s' now' where r: "register_loop ?lib beating_host 0 ([] @ sample_beat True # replicate 4 (sample_beat False)) ?c = (s', now')"
    by fastforce
  from heartbeat_keeps_node_live [OF start good later r order_refl] r id show ?thesis by auto
qed

end
