(* ===== verification/Lock_Table.thy ===== *)
theory Lock_Table
  imports Prelude
begin

text \<open>
  The mutex per digest that serialises the calls of the model store (\<open>lock\<close> of
  \<open>src/internal/modelcache/store.go\<close>) and the uploads of the proxy (\<open>lockUpload\<close> of
  \<open>src/internal/proxy/server.go\<close>, the same code): a table of mutexes, guarded by a mutex of its own, that
  grows as digests are asked for. Goroutines interleave between any two operations on a mutex.
\<close>

section \<open>The table and its goroutines\<close>

text \<open>A mutex of the table is its position in \<open>lt_held\<close>, which says whether it is locked.\<close>

record lock_table =
  lt_mu :: bool
  lt_locks :: "(string, nat) gomap"
  lt_held :: "bool list"

text \<open>
  Where a goroutine is: before a call, before \<open>mu.Lock\<close>, between \<open>mu.Lock\<close> and the lookup, before
  \<open>mu.Unlock\<close>, before \<open>lock.Lock\<close>, and between there and the unlock it was given.
\<close>

datatype place =
    Idle
  | Entering string
  | Looking string
  | Leaving string nat
  | Awaiting string nat
  | Inside string nat

text \<open>The next operation of a goroutine, \<open>None\<close> when it has to wait; an idle one calls \<open>lock\<close> for some digest.\<close>

fun lock_move :: "lock_table \<Rightarrow> string \<Rightarrow> place \<Rightarrow> (lock_table \<times> place) option" where
  "lock_move t digest Idle = Some (t, Entering digest)"
| "lock_move t _ (Entering digest) = (if lt_mu t then None else Some (t\<lparr>lt_mu := True\<rparr>, Looking digest))"
| "lock_move t _ (Looking digest) =
     (case map_of (lt_locks t) digest of
        Some l \<Rightarrow> Some (t, Leaving digest l)
      | None \<Rightarrow>
          let l = length (lt_held t)
          in Some (t\<lparr>lt_locks := AList.update digest l (lt_locks t), lt_held := lt_held t @ [False]\<rparr>, Leaving digest l))"
| "lock_move t _ (Leaving digest l) = Some (t\<lparr>lt_mu := False\<rparr>, Awaiting digest l)"
| "lock_move t _ (Awaiting digest l) =
     (if lt_held t ! l then None else Some (t\<lparr>lt_held := (lt_held t)[l := True]\<rparr>, Inside digest l))"
| "lock_move t _ (Inside digest l) = Some (t\<lparr>lt_held := (lt_held t)[l := False]\<rparr>, Idle)"

definition lockUpload :: "lock_table \<Rightarrow> string \<Rightarrow> place \<Rightarrow> (lock_table \<times> place) option" where
  "lockUpload = lock_move"

inductive lock_reach :: "lock_table \<Rightarrow> place list \<Rightarrow> bool" where
  start: "lock_reach \<lparr>lt_mu = False, lt_locks = [], lt_held = []\<rparr> (replicate n Idle)"
| move: "lock_reach t ps \<Longrightarrow> i < length ps \<Longrightarrow> lock_move t digest (ps ! i) = Some (t', p) \<Longrightarrow> lock_reach t' (ps[i := p])"

section \<open>Invariant\<close>

fun at_table :: "place \<Rightarrow> bool" where
  "at_table (Looking _) = True"
| "at_table (Leaving _ _) = True"
| "at_table _ = False"

fun inside_lock :: "nat \<Rightarrow> place \<Rightarrow> bool" where
  "inside_lock l (Inside _ l') = (l' = l)"
| "inside_lock l _ = False"

fun place_lock :: "place \<Rightarrow> (string \<times> nat) option" where
  "place_lock (Leaving digest l) = Some (digest, l)"
| "place_lock (Awaiting digest l) = Some (digest, l)"
| "place_lock (Inside digest l) = Some (digest, l)"
| "place_lock _ = None"

text \<open>
  The table gives distinct mutexes to distinct digests; whoever has a mutex has the one of the table; just one
  goroutine is at the table when its mutex is locked, and inside a mutex when that is locked, and else none.
\<close>

definition table_ok :: "lock_table \<Rightarrow> bool" where
  "table_ok t \<longleftrightarrow> (\<forall>d l. map_of (lt_locks t) d = Some l \<longrightarrow> l < length (lt_held t)) \<and>
     (\<forall>d d' l. map_of (lt_locks t) d = Some l \<longrightarrow> map_of (lt_locks t) d' = Some l \<longrightarrow> d = d')"

definition place_ok :: "lock_table \<Rightarrow> place \<Rightarrow> bool" where
  "place_ok t p \<longleftrightarrow> (\<forall>d l. place_lock p = Some (d, l) \<longrightarrow> map_of (lt_locks t) d = Some l)"

definition mu_ok :: "lock_table \<Rightarrow> place list \<Rightarrow> bool" where
  "mu_ok t ps \<longleftrightarrow> length (filter at_table ps) = (if lt_mu t then 1 else 0)"

definition held_ok :: "lock_table \<Rightarrow> place list \<Rightarrow> bool" where
  "held_ok t ps \<longleftrightarrow> (\<forall>l<length (lt_held t). length (filter (inside_lock l) ps) = (if lt_held t ! l then 1 else 0))"

definition lock_inv :: "lock_table \<Rightarrow> place list \<Rightarrow> bool" where
  "lock_inv t ps \<longleftrightarrow> table_ok t \<and> list_all (place_ok t) ps \<and> mu_ok t ps \<and> held_ok t ps"

lemma place_ok_bound: "table_ok t \<Longrightarrow> place_ok t p \<Longrightarrow> place_lock p = Some (d, l) \<Longrightarrow> l < length (lt_held t)"
  by (auto simp: table_ok_def place_ok_def)

lemma mu_move:
  "i < length ps \<Longrightarrow> mu_ok t ps \<Longrightarrow> at_table p \<longleftrightarrow> at_table (ps ! i) \<Longrightarrow> lt_mu t' = lt_mu t \<Longrightarrow> mu_ok t' (ps[i := p])"
  "i < length ps \<Longrightarrow> mu_ok t ps \<Longrightarrow> at_table p \<Longrightarrow> \<not> at_table (ps ! i) \<Longrightarrow> \<not> lt_mu t \<Longrightarrow> lt_mu t' \<Longrightarrow> mu_ok t' (ps[i := p])"
  "i < length ps \<Longrightarrow> mu_ok t ps \<Longrightarrow> \<not> at_table p \<Longrightarrow> at_table (ps ! i) \<Longrightarrow> \<not> lt_mu t' \<Longrightarrow> mu_ok t' (ps[i := p])"
  using length_filter_update [of i ps at_table p] by (auto simp: mu_ok_def split: if_splits)

lemma held_move:
  assumes "i < length ps" and "held_ok t ps" and "\<And>l. l < length (lt_held t) \<Longrightarrow> inside_lock l p \<longleftrightarrow> inside_lock l (ps ! i)"
    and "lt_held t' = lt_held t"
  shows "held_ok t' (ps[i := p])"
proof -
  have "length (filter (inside_lock l) (ps[i := p])) = length (filter (inside_lock l) ps)" if "l < length (lt_held t)" for l
    using length_filter_update [OF assms(1), of "inside_lock l" p] assms(3) [OF that] by auto
  with assms(2,4) show ?thesis by (simp add: held_ok_def)
qed

lemma held_enter:
  assumes "i < length ps" and "held_ok t ps" and "ps ! i = Awaiting d l" and "\<not> lt_held t ! l" and "l < length (lt_held t)"
  shows "held_ok (t\<lparr>lt_held := (lt_held t)[l := True]\<rparr>) (ps[i := Inside d l])"
proof -
  have "length (filter (inside_lock k) (ps[i := Inside d l])) = (if (lt_held t)[l := True] ! k then 1 else 0)"
    if "k < length (lt_held t)" for k
    using length_filter_update [OF assms(1), of "inside_lock k" "Inside d l"] assms(2-5) that
    by (cases "k = l") (simp_all add: held_ok_def)
  then show ?thesis by (simp add: held_ok_def)
qed

lemma held_leave:
  assumes "i < length ps" and "held_ok t ps" and "ps ! i = Inside d l" and "l < length (lt_held t)"
  shows "held_ok (t\<lparr>lt_held := (lt_held t)[l := False]\<rparr>) (ps[i := Idle])"
proof -
  have "length (filter (inside_lock k) (ps[i := Idle])) = (if (lt_held t)[l := False] ! k then 1 else 0)"
    if "k < length (lt_held t)" for k
    using length_filter_update [OF assms(1), of "inside_lock k" Idle] assms(2-4) that
    by (cases "k = l") (auto simp: held_ok_def split: if_splits)
  then show ?thesis by (simp add: held_ok_def)
qed

lemma held_grow:
  assumes "held_ok t ps" and "table_ok t" and "list_all (place_ok t) ps"
  shows "held_ok (t\<lparr>lt_locks := m, lt_held := lt_held t @ [False]\<rparr>) ps"
proof -
  have "\<not> inside_lock (length (lt_held t)) p" if "p \<in> set ps" for p
    using place_ok_bound [OF assms(2), of p] assms(3) that by (cases p) (auto simp: list_all_iff)
  then have "filter (inside_lock (length (lt_held t))) ps = []" by simp
  with assms(1) show ?thesis by (auto simp: held_ok_def nth_append less_Suc_eq)
qed

lemma table_grow:
  assumes "table_ok t" and "map_of (lt_locks t) d = None"
  shows "table_ok (t\<lparr>lt_locks := AList.update d (length (lt_held t)) (lt_locks t), lt_held := lt_held t @ [False]\<rparr>)"
proof -
  have "map_of (lt_locks t) d' \<noteq> Some (length (lt_held t))" for d' using assms(1) by (auto simp: table_ok_def)
  with assms show ?thesis unfolding table_ok_def by (auto simp: update_conv' less_Suc_eq)
qed

lemma places_grow:
  "map_of (lt_locks t) d = None \<Longrightarrow> list_all (place_ok t) ps \<Longrightarrow>
     list_all (place_ok (t\<lparr>lt_locks := AList.update d l (lt_locks t), lt_held := held\<rparr>)) ps"
  by (fastforce simp: list_all_iff place_ok_def update_conv')

lemma locks_same_places: "lt_locks t' = lt_locks t \<Longrightarrow> place_ok t' = place_ok t"
  by (rule ext) (simp add: place_ok_def)

lemma table_same: "lt_locks t' = lt_locks t \<Longrightarrow> length (lt_held t') = length (lt_held t) \<Longrightarrow> table_ok t' = table_ok t"
  by (simp add: table_ok_def)

lemma lock_inv_move:
  assumes inv: "lock_inv t ps" and i: "i < length ps" and move: "lock_move t digest (ps ! i) = Some (t', p)"
  shows "lock_inv t' (ps[i := p])"
proof -
  have t: "table_ok t" and ps: "list_all (place_ok t) ps" and m: "mu_ok t ps" and h: "held_ok t ps"
    using inv by (simp_all add: lock_inv_def)
  have here: "place_ok t (ps ! i)" using ps i by (simp add: list_all_iff)
  note keep = locks_same_places [of t' t] table_same [of t' t] and upd = list_all_update [OF ps, of p i]
  show ?thesis
  proof (cases "ps ! i")
    case Idle
    with move have "t' = t" "p = Entering digest" by simp_all
    with upd mu_move(1) [OF i m, of p t'] held_move [OF i h, of p t'] Idle t show ?thesis by (simp add: lock_inv_def place_ok_def)
  next
    case (Entering d)
    with move have e: "\<not> lt_mu t" "t' = t\<lparr>lt_mu := True\<rparr>" "p = Looking d" by (simp_all split: if_splits)
    with upd mu_move(2) [OF i m, of p t'] held_move [OF i h, of p t'] keep Entering t show ?thesis
      by (simp add: lock_inv_def place_ok_def)
  next
    case (Looking d)
    show ?thesis
    proof (cases "map_of (lt_locks t) d")
      case None
      let ?t = "t\<lparr>lt_locks := AList.update d (length (lt_held t)) (lt_locks t), lt_held := lt_held t @ [False]\<rparr>"
      have t': "t' = ?t" "p = Leaving d (length (lt_held t))" using move Looking None by (simp_all add: Let_def)
      have "place_ok ?t p" by (simp add: t' place_ok_def update_conv')
      then show ?thesis
        using table_grow [OF t None] list_all_update [OF places_grow [OF None ps]] mu_move(1) [OF i m, of p ?t]
          held_move [OF i held_grow [OF h t ps, of "AList.update d (length (lt_held t)) (lt_locks t)"], where p = p and t' = ?t] Looking
        by (simp add: lock_inv_def t')
    next
      case (Some l)
      with move Looking have "t' = t" "p = Leaving d l" by simp_all
      with upd mu_move(1) [OF i m, of p t'] held_move [OF i h, of p t'] Looking t Some show ?thesis
        by (simp add: lock_inv_def place_ok_def)
    qed
  next
    case (Leaving d l)
    with move have "t' = t\<lparr>lt_mu := False\<rparr>" "p = Awaiting d l" by simp_all
    with upd mu_move(3) [OF i m, of p t'] held_move [OF i h, of p t'] keep Leaving t here show ?thesis
      by (simp add: lock_inv_def place_ok_def)
  next
    case (Awaiting d l)
    with move have e: "\<not> lt_held t ! l" "t' = t\<lparr>lt_held := (lt_held t)[l := True]\<rparr>" "p = Inside d l" by (simp_all split: if_splits)
    moreover have "l < length (lt_held t)" using place_ok_bound [OF t here] Awaiting by simp
    ultimately show ?thesis
      using upd mu_move(1) [OF i m, of p t'] held_enter [OF i h Awaiting] keep Awaiting t here by (simp add: lock_inv_def place_ok_def)
  next
    case (Inside d l)
    with move have e: "t' = t\<lparr>lt_held := (lt_held t)[l := False]\<rparr>" "p = Idle" by simp_all
    moreover have "l < length (lt_held t)" using place_ok_bound [OF t here] Inside by simp
    ultimately show ?thesis
      using upd mu_move(1) [OF i m, of p t'] held_leave [OF i h Inside] keep Inside t by (simp add: lock_inv_def place_ok_def)
  qed
qed

lemma lock_reach_inv: "lock_reach t ps \<Longrightarrow> lock_inv t ps"
proof (induction rule: lock_reach.induct)
  case (start n)
  show ?case by (simp add: lock_inv_def table_ok_def mu_ok_def held_ok_def list_all_iff place_ok_def)
qed (rule lock_inv_move)

lemma count_one_unique:
  assumes "length (filter P ps) \<le> 1" and "i < length ps" "P (ps ! i)" and "j < length ps" "P (ps ! j)"
  shows "i = j"
proof -
  have "card {k. k < length ps \<and> P (ps ! k)} \<le> 1" using assms(1) by (simp add: length_filter_conv_card)
  moreover have "{i, j} \<subseteq> {k. k < length ps \<and> P (ps ! k)}" using assms by blast
  ultimately have "card {i, j} \<le> 1" using card_mono [of "{k. k < length ps \<and> P (ps ! k)}" "{i, j}"] by simp
  then show ?thesis by (cases "i = j") simp_all
qed

lemma count_one_exists:
  assumes "length (filter P ps) = 1"
  obtains j where "j < length ps" "P (ps ! j)"
proof -
  have "filter P ps \<noteq> []" using assms by auto
  then obtain p where "p \<in> set ps" "P p" by (auto simp: filter_empty_conv)
  then show ?thesis using that by (auto simp: in_set_conv_nth)
qed

lemma inside_lock_iff: "inside_lock l p \<longleftrightarrow> (\<exists>d. p = Inside d l)"
  by (cases p) auto

section \<open>Property\<close>

text \<open>
  C36. Under every interleaving, at most one goroutine is between \<open>lock(digest)\<close> and its unlock, for each
  digest; a goroutine waits for a mutex of the table only while another one is inside for the same digest, and
  for the table only while another one is at it that can go on. So different digests do not wait for each other,
  and someone who is not idle can always go on.
\<close>

theorem one_holder_per_digest:
  assumes "lock_reach t ps" and "i < length ps"
  shows "(\<forall>j digest l l'. j < length ps \<and> ps ! i = Inside digest l \<and> ps ! j = Inside digest l' \<longrightarrow> j = i) \<and>
    (\<forall>digest l. ps ! i = Awaiting digest l \<and> lock_move t other (ps ! i) = None \<longrightarrow> (\<exists>j<length ps. ps ! j = Inside digest l)) \<and>
    (\<forall>digest. ps ! i = Entering digest \<and> lock_move t other (ps ! i) = None \<longrightarrow>
       (\<exists>j<length ps. at_table (ps ! j) \<and> lock_move t other (ps ! j) \<noteq> None))"
proof -
  have t: "table_ok t" and ps: "list_all (place_ok t) ps" and m: "mu_ok t ps" and h: "held_ok t ps"
    using lock_reach_inv [OF assms(1)] by (simp_all add: lock_inv_def)
  have ok: "map_of (lt_locks t) d = Some l \<and> l < length (lt_held t)" if "k < length ps" "place_lock (ps ! k) = Some (d, l)" for k d l
    using ps place_ok_bound [OF t, of "ps ! k"] that by (auto simp: list_all_length place_ok_def)
  have "j = i" if "j < length ps" "ps ! i = Inside d l" "ps ! j = Inside d l'" for j d l l'
  proof -
    have l: "l' = l" "l < length (lt_held t)" using ok [of i d l] ok [of j d l'] assms(2) that by auto
    then have "length (filter (inside_lock l) ps) \<le> 1" using h by (simp add: held_ok_def)
    from count_one_unique [OF this that(1) _ assms(2)] show ?thesis using that l by simp
  qed
  moreover have "\<exists>j<length ps. ps ! j = Inside d l" if "ps ! i = Awaiting d l" "lock_move t other (ps ! i) = None" for d l
  proof -
    have l: "map_of (lt_locks t) d = Some l" "l < length (lt_held t)" "lt_held t ! l"
      using ok [of i d l] assms(2) that by (simp_all split: if_splits)
    then have "length (filter (inside_lock l) ps) = 1" using h by (simp add: held_ok_def)
    then obtain j where "j < length ps" "inside_lock l (ps ! j)" by (rule count_one_exists)
    then obtain d' where j: "j < length ps" "ps ! j = Inside d' l" by (auto simp: inside_lock_iff)
    with ok [of j d' l] have "map_of (lt_locks t) d' = Some l" by simp
    with l(1) t have "d' = d" unfolding table_ok_def by blast
    with j show ?thesis by blast
  qed
  moreover have "\<exists>j<length ps. at_table (ps ! j) \<and> lock_move t other (ps ! j) \<noteq> None"
    if "ps ! i = Entering d" "lock_move t other (ps ! i) = None" for d
  proof -
    have "length (filter at_table ps) = 1" using m that by (simp add: mu_ok_def split: if_splits)
    then obtain j where j: "j < length ps" "at_table (ps ! j)" by (rule count_one_exists)
    then have "lock_move t other (ps ! j) \<noteq> None" by (cases "ps ! j") (auto split: option.splits simp: Let_def)
    with j show ?thesis by blast
  qed
  ultimately show ?thesis by blast
qed

text \<open>Two goroutines ask for the digest d: the second one waits while the first is inside.\<close>

definition two_waiting :: "lock_table \<times> place list" where
  "two_waiting = (\<lparr>lt_mu = False, lt_locks = [(''d'', 0)], lt_held = [True]\<rparr>, [Inside ''d'' 0, Awaiting ''d'' 0])"

lemma two_waiting_reached: "lock_reach (fst two_waiting) (snd two_waiting)"
proof -
  let ?t0 = "\<lparr>lt_mu = False, lt_locks = [], lt_held = []\<rparr>" and ?t1 = "\<lparr>lt_mu = True, lt_locks = [], lt_held = []\<rparr>"
  let ?t2 = "\<lparr>lt_mu = True, lt_locks = [(''d'', 0)], lt_held = [False]\<rparr>" and ?t3 = "\<lparr>lt_mu = False, lt_locks = [(''d'', 0)], lt_held = [False]\<rparr>"
  let ?t4 = "\<lparr>lt_mu = False, lt_locks = [(''d'', 0)], lt_held = [True]\<rparr>" and ?t5 = "\<lparr>lt_mu = True, lt_locks = [(''d'', 0)], lt_held = [True]\<rparr>"
  have "lock_reach ?t0 [Idle, Idle]" using lock_reach.start [of 2] by (simp add: numeral_2_eq_2)
  from lock_reach.move [OF this, of 0 "''d''" ?t0] have "lock_reach ?t0 [Entering ''d'', Idle]" by simp
  from lock_reach.move [OF this, of 0 "''d''" ?t1] have "lock_reach ?t1 [Looking ''d'', Idle]" by simp
  from lock_reach.move [OF this, of 0 "''d''" ?t2] have "lock_reach ?t2 [Leaving ''d'' 0, Idle]" by simp
  from lock_reach.move [OF this, of 0 "''d''" ?t3] have "lock_reach ?t3 [Awaiting ''d'' 0, Idle]" by simp
  from lock_reach.move [OF this, of 0 "''d''" ?t4] have "lock_reach ?t4 [Inside ''d'' 0, Idle]" by simp
  from lock_reach.move [OF this, of 1 "''d''" ?t4] have "lock_reach ?t4 [Inside ''d'' 0, Entering ''d'']" by simp
  from lock_reach.move [OF this, of 1 "''d''" ?t5] have "lock_reach ?t5 [Inside ''d'' 0, Looking ''d'']" by simp
  from lock_reach.move [OF this, of 1 "''d''" ?t5] have "lock_reach ?t5 [Inside ''d'' 0, Leaving ''d'' 0]" by simp
  from lock_reach.move [OF this, of 1 "''d''" ?t4] show ?thesis by (simp add: two_waiting_def)
qed

theorem one_holder_per_digest_witness:
  "lock_move (fst two_waiting) ''e'' (snd two_waiting ! 1) = None \<and>
   (\<exists>j. j < length (snd two_waiting) \<and> snd two_waiting ! j = Inside ''d'' 0)"
proof -
  have blocked: "1 < length (snd two_waiting)" "snd two_waiting ! 1 = Awaiting ''d'' 0"
    "lock_move (fst two_waiting) ''e'' (snd two_waiting ! 1) = None"
    by (simp_all add: two_waiting_def)
  from one_holder_per_digest [OF two_waiting_reached blocked(1), of "''e''"] blocked show ?thesis by blast
qed

end
