(* ===== verification/Stage_Server.thy ===== *)
theory Stage_Server
  imports Stage_Correct
begin

text \<open>
  The stage server with many connections (\<open>Serve\<close> of \<open>src/internal/stage/server.go\<close>): it accepts connections
  for ever and handles each in a goroutine of its own; all of them share one runtime, whose mutex makes
  \<open>Process\<close> atomic. A step is one turn of the loop of \<open>handle\<close> for some connection.
\<close>

section \<open>The server\<close>

text \<open>The check before the loop: the runtime and a key of 32 bytes.\<close>

definition stage_Serve :: "Runtime option \<Rightarrow> byte list \<Rightarrow> Runtime option" where
  "stage_Serve runtime key = (if runtime = None \<or> length key < 32 then None else runtime)"

record stage_conn =
  co_in :: "byte list"
  co_out :: writer
  co_open :: bool

text \<open>One turn of the loop of \<open>handle\<close>: the result of \<open>Process\<close>, if it comes to that; a return closes the connection.\<close>

definition handle_turn :: "byte list \<Rightarrow> Runtime \<Rightarrow> stage_conn \<Rightarrow> (stage_error + Frame) option \<times> Runtime \<times> stage_conn" where
  "handle_turn key r c =
     (case ReadFrame (co_in c) key of
        (Inl _, _) \<Rightarrow> (None, r, c\<lparr>co_open := False\<rparr>)
      | (Inr frame, rest) \<Rightarrow>
          (case Process r frame of
             (Inl e, r') \<Rightarrow> (Some (Inl e), r', c\<lparr>co_in := rest, co_open := False\<rparr>)
           | (Inr output, r') \<Rightarrow>
               (case WriteFrame (co_out c) key output of
                  (err, w) \<Rightarrow> (Some (Inr output), r', c\<lparr>co_in := rest, co_out := w, co_open := (err = None)\<rparr>))))"

text \<open>The runtime, the connections and the results so far, in the order of the calls of \<open>Process\<close>.\<close>

inductive serving :: "byte list \<Rightarrow> Runtime \<Rightarrow> Runtime \<Rightarrow> stage_conn list \<Rightarrow> (stage_error + Frame) list \<Rightarrow> bool" for key r0 where
  listen: "stage_Serve (Some r0) key = Some r \<Longrightarrow> serving key r0 r [] []"
| accept: "serving key r0 r cs results \<Longrightarrow> serving key r0 r (cs @ [\<lparr>co_in = input, co_out = w, co_open = True\<rparr>]) results"
| turn: "serving key r0 r cs results \<Longrightarrow> i < length cs \<Longrightarrow> co_open (cs ! i) \<Longrightarrow> handle_turn key r (cs ! i) = (res, r', c) \<Longrightarrow>
    serving key r0 r' (cs[i := c]) (case res of None \<Rightarrow> results | Some x \<Rightarrow> results @ [x])"

section \<open>Lemmas\<close>

text \<open>A connection on its own is handled turn by turn.\<close>

lemma handle_turns:
  "handle key r (co_in c) (co_out c) =
     (case handle_turn key r c of (_, r', c') \<Rightarrow> if co_open c' then handle key r' (co_in c') (co_out c') else (r', co_out c'))"
proof (cases "ReadFrame (co_in c) key")
  case (Pair x rest)
  show ?thesis
  proof (cases x)
    case (Inl e)
    with Pair show ?thesis by (subst handle.simps) (simp add: handle_turn_def)
  next
    case (Inr frame)
    note read = Pair [unfolded Inr]
    show ?thesis
      by (subst handle.simps) (auto simp: handle_turn_def read split: prod.split sum.split option.split)
  qed
qed

lemma process_each_snoc:
  "process_each r (fs @ [f]) = (case process_each r fs of (rs, r1) \<Rightarrow> (case Process r1 f of (res, r2) \<Rightarrow> (rs @ [res], r2)))"
  by (induction fs arbitrary: r) (auto split: prod.splits)

text \<open>However the connections interleave, the runtime has processed some frames one after the other.\<close>

lemma serving_serial: "serving key r0 r cs results \<Longrightarrow> \<exists>frames. process_each r0 frames = (results, r)"
proof (induction rule: serving.induct)
  case (listen r)
  then have "process_each r0 [] = ([], r)" by (simp add: stage_Serve_def split: if_splits)
  then show ?case by blast
next
  case (turn r cs results i res r' c)
  then obtain frames where "process_each r0 frames = (results, r)" by blast
  moreover from turn(4) have "(res = None \<and> r' = r) \<or> (\<exists>f x. res = Some x \<and> Process r f = (x, r'))"
    by (auto simp: handle_turn_def split: prod.splits sum.splits)
  moreover have "process_each r0 (frames @ [f]) = (results @ [x], r')" if "process_each r0 frames = (results, r)" "Process r f = (x, r')" for f x
    using that by (simp add: process_each_snoc)
  ultimately show ?case by (elim disjE exE conjE) auto
qed

section \<open>Property\<close>

text \<open>
  C37. A stage server takes the frames of a session in order and each exactly once: whatever arrives on however
  many connections, in whatever interleaving, the frames of a session that are processed carry consecutive
  sequence numbers from the one the runtime expected at first, and it expects the next one afterwards.
\<close>

theorem stage_server_in_order_once:
  assumes "serving key r0 r cs results"
  shows "map fr_Sequence (session_outputs sid results) =
       map (\<lambda>k. expected_sequence r0 sid + of_nat k) [0..<length (session_outputs sid results)] \<and>
     expected_sequence r sid = expected_sequence r0 sid + of_nat (length (session_outputs sid results))"
  using serving_serial [OF assms] stage_in_order_once by blast

text \<open>Two connections deliver the same frame: it is processed on the second one and then refused on the first.\<close>

theorem stage_server_in_order_once_witness:
  "\<exists>r cs. serving sample_key echo_runtime r cs [Inr (sample_frame\<lparr>fr_Values := [3, 2, 1]\<rparr>), Inl (OutOfOrder 2)] \<and>
     expected_sequence r 5 = 2"
proof -
  let ?c = "\<lparr>co_in = frame_bytes sample_key sample_frame, co_out = \<lparr>accepted = [], script = []\<rparr>, co_open = True\<rparr>"
  let ?g = "sample_frame\<lparr>fr_Values := [3, 2, 1]\<rparr>" and ?r = "echo_runtime\<lparr>sr_sequence := [(5, 2)]\<rparr>"
  have read: "ReadFrame (frame_bytes sample_key sample_frame) sample_key = (Inr sample_frame, [])"
    using ReadFrame_bytes [OF sample_frame_ok(2,1), of "[]"] by simp
  have first: "Process echo_runtime sample_frame = (Inr ?g, ?r)" and second: "Process ?r sample_frame = (Inl (OutOfOrder 2), ?r)"
    by (simp_all add: Process_def echo_runtime_def sample_frame_def expected_sequence_def)
  obtain c1 where t1: "handle_turn sample_key echo_runtime ?c = (Some (Inr ?g), ?r, c1)"
    using read first by (cases "WriteFrame \<lparr>accepted = [], script = []\<rparr> sample_key ?g") (simp add: handle_turn_def)
  obtain c2 where t2: "handle_turn sample_key ?r ?c = (Some (Inl (OutOfOrder 2)), ?r, c2)"
    using read second by (simp add: handle_turn_def)
  have "serving sample_key echo_runtime echo_runtime [] []"
    using sample_frame_ok(2) by (intro serving.listen) (simp add: stage_Serve_def)
  from serving.accept [OF serving.accept [OF this]] have "serving sample_key echo_runtime echo_runtime [?c, ?c] []" by simp
  from serving.turn [OF this, of 1] have "serving sample_key echo_runtime ?r [?c, c1] [Inr ?g]"
    using t1 by simp
  from serving.turn [OF this, of 0] have s: "serving sample_key echo_runtime ?r [c2, c1] [Inr ?g, Inl (OutOfOrder 2)]"
    using t2 by simp
  have "expected_sequence ?r 5 = 2"
    using stage_server_in_order_once [OF s, of 5] by (simp add: sample_frame_def echo_runtime_def expected_sequence_def)
  with s show ?thesis by blast
qed

end
