(* ===== verification/Host_Serve.thy ===== *)
theory Host_Serve
  imports Host_Correct
begin

text \<open>
  The routes of a host (\<open>Handler\<close> of \<open>src/internal/host/server.go\<close>) over the handlers of theory \<open>Host\<close>, and the
  events of its streamed mock answer (\<open>streamMock\<close>).
\<close>

section \<open>Routes\<close>

datatype host_route = GetHealth | GetModels | PostChat | GetCache | PutCache

datatype served = Healthy string | Answered host_reply

text \<open>
  A request on a route: the reply, and the host afterwards. The method of a chat is POST, which \<open>authorize\<close>
  looks at; the lease is checked at \<open>now\<close>, and again at \<open>later\<close> by \<open>chat\<close>.
\<close>

definition host_models_authorized :: "json_codec \<Rightarrow> body_codec \<Rightarrow> HostServer \<Rightarrow> int \<Rightarrow> http_request \<Rightarrow> host_reply \<times> HostServer" where
  "host_models_authorized lib codec s now rq =
     (case authorize lib codec (hv_cfg s) now rq of Inl e \<Rightarrow> (e, s) | Inr _ \<Rightarrow> (host_models (hv_cfg s), s))"

fun host_handler :: "json_codec \<Rightarrow> body_codec \<Rightarrow> http_runtime \<Rightarrow> io_faults \<Rightarrow> io_faults \<Rightarrow> HostServer \<Rightarrow> int \<Rightarrow> int \<Rightarrow> host_route \<Rightarrow>
    http_request \<Rightarrow> served \<times> HostServer" where
  "host_handler lib codec http ft0 ft s now later GetHealth rq = (Healthy (hc_NodeID (hv_cfg s)), s)"
| "host_handler lib codec http ft0 ft s now later GetModels rq =
     apfst Answered (host_models_authorized lib codec s now (rq\<lparr>rq_post := False\<rparr>))"
| "host_handler lib codec http ft0 ft s now later PostChat rq =
     apfst Answered (host_chat lib codec http ft s now later (rq\<lparr>rq_post := True\<rparr>))"
| "host_handler lib codec http ft0 ft s now later GetCache rq = apfst Answered (modelStatus lib ft s now rq)"
| "host_handler lib codec http ft0 ft s now later PutCache rq = apfst Answered (modelUpload lib ft0 ft s now rq)"

section \<open>The streamed answer\<close>

text \<open>The events of the stream: a piece of text, the end of the choice, and \<open>[DONE]\<close>. Without a flusher it fails.\<close>

datatype stream_event = Delta string | Stop | DoneMark

definition streamMock :: "bool \<Rightarrow> string \<Rightarrow> host_reply + stream_event list" where
  "streamMock flusher reply =
     (if \<not> flusher then Inl (HostError 500 ''streaming unsupported'' [])
      else Inr (map (\<lambda>token. Delta (token @ '' '')) (strings_Fields reply) @ [Stop, DoneMark]))"

fun event_text :: "stream_event \<Rightarrow> string" where
  "event_text (Delta s) = s"
| "event_text _ = ''''"

section \<open>Lemmas\<close>

lemma strings_Fields_tokens: "t \<in> set (strings_Fields s) \<Longrightarrow> t \<noteq> '''' \<and> (\<forall>c\<in>set t. \<not> is_space c)"
proof (induction s rule: strings_Fields.induct)
  case (1 s)
  let ?r = "dropWhile is_space s"
  show ?case
  proof (cases "?r = []")
    case True
    with 1(2) show ?thesis by (simp add: strings_Fields.simps)
  next
    case False
    then have "\<not> is_space (hd ?r)" by (rule hd_dropWhile)
    then have "takeWhile (\<lambda>c. \<not> is_space c) ?r \<noteq> []" using False by (cases ?r) simp_all
    moreover have "strings_Fields s = takeWhile (\<lambda>c. \<not> is_space c) ?r # strings_Fields (dropWhile (\<lambda>c. \<not> is_space c) ?r)"
      using False by (subst strings_Fields.simps) (simp only: Let_def if_False)
    then have "t = takeWhile (\<lambda>c. \<not> is_space c) ?r \<or> t \<in> set (strings_Fields (dropWhile (\<lambda>c. \<not> is_space c) ?r))"
      using 1(2) by simp
    ultimately show ?thesis using 1(1) [OF refl False] set_takeWhileD [where P = "\<lambda>c. \<not> is_space c"] by metis
  qed
qed

lemma strings_Fields_Nil: "strings_Fields [] = []"
  by (simp add: strings_Fields.simps)

lemma strings_Fields_token:
  assumes "t \<noteq> ''''" and "\<forall>c\<in>set t. \<not> is_space c" and "is_space c"
  shows "strings_Fields (t @ c # s) = t # strings_Fields s"
proof -
  have "dropWhile is_space (t @ c # s) = t @ c # s" using assms(1,2) by (cases t) simp_all
  moreover have "takeWhile (\<lambda>c. \<not> is_space c) (t @ c # s) = t" "dropWhile (\<lambda>c. \<not> is_space c) (t @ c # s) = c # s"
    using assms(2,3) by (simp_all add: takeWhile_append2 dropWhile_append2)
  moreover have "strings_Fields (c # s) = strings_Fields s"
    using assms(3) by (subst (1 2) strings_Fields.simps) simp
  ultimately show ?thesis using assms(1) by (subst strings_Fields.simps) simp
qed

text \<open>The text of the stream has the words of the reply.\<close>

lemma streamMock_text:
  assumes "streamMock flusher reply = Inr events"
  shows "strings_Fields (concat (map event_text events)) = strings_Fields reply"
proof -
  have sp: "is_space CHR '' ''" by (simp add: is_space_def)
  have "strings_Fields (concat (map (\<lambda>t. t @ '' '') ts)) = ts" if "\<forall>t\<in>set ts. t \<noteq> '''' \<and> (\<forall>c\<in>set t. \<not> is_space c)" for ts
    using that by (induction ts) (simp_all add: strings_Fields_token [OF _ _ sp] strings_Fields_Nil)
  from this [of "strings_Fields reply"] show ?thesis
    using assms strings_Fields_tokens by (auto simp: streamMock_def comp_def split: if_splits)
qed

text \<open>Without a valid lease of this node every route but the health check is an error and changes nothing.\<close>

lemma host_routes_need_lease:
  assumes "\<forall>claims. Verify lib now (string_bytes (hc_LeaseSecret (hv_cfg s))) (Bearer (rq_authorization rq)) = Inr claims \<longrightarrow>
      cl_NodeID claims \<noteq> hc_NodeID (hv_cfg s)"
    and "route \<noteq> GetHealth"
  shows "\<exists>code msg. host_handler lib codec http ft0 ft s now later route rq = (Answered (HostError code msg []), s) \<and> code \<in> {401, 404}"
proof -
  have auth: "authorize lib codec (hv_cfg s) now rq' = Inl (HostError 401 ''valid host lease required'' [])"
    if "rq_authorization rq' = rq_authorization rq" for rq'
    using assms(1) that by (auto simp: authorize_def split: sum.splits)
  have transfer: "\<exists>code msg. authorizeModelTransfer lib (hv_cfg s) now rq = Inl (HostError code msg []) \<and> code \<in> {401, 404}"
    using assms(1) by (auto simp: authorizeModelTransfer_def split: sum.splits)
  show ?thesis
    using assms(2) auth transfer
    by (cases route) (auto simp: host_models_authorized_def host_chat_def modelStatus_def modelUpload_def)
qed

end
