(* ===== verification/Relay_Address.thy ===== *)
theory Relay_Address
  imports Relay Go_Strings
begin

text \<open>
  The address the relay counts a connection under (\<open>remoteIP\<close> of \<open>src/internal/tunnel/relay.go\<close>): the host part of
  the peer's address, or all of it when it has no port.
\<close>

definition remoteIP :: "string \<Rightarrow> string" where
  "remoteIP address = (case SplitHostPort address of Inr (host, _) \<Rightarrow> host | Inl _ \<Rightarrow> address)"

text \<open>The connections of one host count together, whatever their ports, and those of different hosts apart.\<close>

definition plain_text :: "string \<Rightarrow> bool" where
  "plain_text s \<longleftrightarrow> CHR ''['' \<notin> set s \<and> CHR '']'' \<notin> set s"

lemma remoteIP_host:
  assumes "plain_text host" and "plain_text port" and "CHR '':'' \<notin> set port"
  shows "remoteIP (JoinHostPort host port) = host"
  using assms by (simp add: remoteIP_def plain_text_def SplitHostPort_Join)

lemma accept_counts_host:
  assumes "plain_text host" and "plain_text port" and "CHR '':'' \<notin> set port" and "acquireConnection r (remoteIP (JoinHostPort host port)) = (True, r')"
  shows "tally (rl_connectionsByIP r') host = tally (rl_connectionsByIP r) host + 1"
  using assms(4) unfolding remoteIP_host [OF assms(1-3)]
  by (auto simp: acquireConnection_def tally_inc_def tally_def update_conv' split: if_splits)

end
