(* ===== verification/Bridge.thy ===== *)
theory Bridge
  imports Agent
begin

text \<open>
  The copying of bytes through a tunnel: \<open>bridge\<close> and \<open>bufferedConn\<close> of \<open>src/internal/tunnel/agent.go\<close> and the two
  copiers of \<open>relayPair\<close> in \<open>relay.go\<close>. A stream runs from a client over the requester's agent, the relay and the
  provider's agent to a service, and back: six goroutines in \<open>io.Copy\<close>, in any interleaving, each read giving
  any number of bytes and each write failing wherever the network lets it. A TCP connection is the bytes under
  way in each direction.
\<close>

section \<open>Buffered connections\<close>

text \<open>What \<open>bufio.Reader\<close> holds and what the connection still gives; \<open>got\<close> is how much one read of the connection gives.\<close>

record bufferedConn =
  bc_reader :: "byte list"
  bc_conn :: "byte list"

definition bufferedConn_Read :: "bufferedConn \<Rightarrow> nat \<Rightarrow> nat \<Rightarrow> byte list \<times> bufferedConn" where
  "bufferedConn_Read c got n =
     (if bc_reader c \<noteq> [] then (take n (bc_reader c), c\<lparr>bc_reader := drop n (bc_reader c)\<rparr>)
      else (take n (take got (bc_conn c)), \<lparr>bc_reader = drop n (take got (bc_conn c)), bc_conn = drop got (bc_conn c)\<rparr>))"

text \<open>Nothing the reader took ahead while the handshake was read is lost: it comes before what follows.\<close>

lemma bufferedConn_keeps_stream:
  assumes "bufferedConn_Read c got n = (bs, c')"
  shows "bc_reader c @ bc_conn c = bs @ bc_reader c' @ bc_conn c'"
  using assms append_take_drop_id [of n "take got (bc_conn c)"]
  by (auto simp: bufferedConn_Read_def split: if_splits) (metis append.assoc append_take_drop_id)

section \<open>One direction of a stream\<close>

text \<open>
  \<open>dr_source\<close>: what the writing side has written and the first agent not yet read, and whether it has ended its
  side. \<open>dr_up\<close> and \<open>dr_down\<close>: the bytes on the way to the relay and from it. The three copiers run until
  they return. \<open>dr_written\<close>, \<open>dr_opened\<close>, \<open>dr_delivered\<close>: all that was written, all that the second agent
  has read from its encrypted connection, and all that it has written on.
\<close>

record direction =
  dr_source :: "byte list"
  dr_ended :: bool
  dr_sealing :: bool
  dr_sender :: secureConn
  dr_up :: "byte list"
  dr_relaying :: bool
  dr_down :: "byte list"
  dr_receiver :: secureConn
  dr_opening :: bool
  dr_written :: "byte list"
  dr_opened :: "byte list"
  dr_delivered :: "byte list"

text \<open>
  One round of \<open>io.Copy\<close> in each of the copiers. The first agent reads up to \<open>n\<close> bytes and seals them; at the end
  of its source it returns. \<open>steps\<close> is how the writes go; a copier returns after one that failed.
\<close>

definition seal_copy :: "nat \<Rightarrow> write_step list \<Rightarrow> direction \<Rightarrow> direction" where
  "seal_copy n steps d =
     (if \<not> dr_sealing d then d
      else if dr_source d = [] then d\<lparr>dr_sealing := \<not> dr_ended d\<rparr>
      else
        (case secure_Write (dr_sender d) \<lparr>accepted = dr_up d, script = steps\<rparr> (take n (dr_source d)) 0 of
           ((_, e), c, w) \<Rightarrow>
             d\<lparr>dr_source := drop n (dr_source d), dr_sender := c, dr_up := accepted w, dr_sealing := (e = None)\<rparr>))"

text \<open>The relay copies bytes as they are; \<open>hungup\<close>: the sending agent has closed its connection.\<close>

definition relay_copy :: "bool \<Rightarrow> nat \<Rightarrow> write_step list \<Rightarrow> direction \<Rightarrow> direction" where
  "relay_copy hungup n steps d =
     (if \<not> dr_relaying d then d
      else if dr_up d = [] then d\<lparr>dr_relaying := \<not> hungup\<rparr>
      else
        (case write_call \<lparr>accepted = dr_down d, script = steps\<rparr> (take n (dr_up d)) of
           ((k, ok), w) \<Rightarrow>
             d\<lparr>dr_up := drop n (dr_up d), dr_down := accepted w, dr_relaying := (ok \<and> k = length (take n (dr_up d)))\<rparr>))"

text \<open>The second agent opens what it can; \<open>hungup\<close>: the relay has closed its connection.\<close>

definition open_copy :: "bool \<Rightarrow> nat \<Rightarrow> write_step list \<Rightarrow> direction \<Rightarrow> direction" where
  "open_copy hungup n steps d =
     (if \<not> dr_opening d then d
      else
        (case secure_Read (dr_receiver d) (dr_down d) n of
           (Inr bs, c, s) \<Rightarrow>
             (case write_call \<lparr>accepted = dr_delivered d, script = steps\<rparr> bs of
                ((k, ok), w) \<Rightarrow>
                  d\<lparr>dr_receiver := c, dr_down := s, dr_opened := dr_opened d @ bs, dr_delivered := accepted w,
                    dr_opening := (ok \<and> k = length bs)\<rparr>)
         | (Inl (SecureIO _), _) \<Rightarrow> d\<lparr>dr_opening := \<not> hungup\<rparr>
         | (Inl _, _) \<Rightarrow> d\<lparr>dr_opening := False\<rparr>))"

section \<open>A stream\<close>

datatype way = Forward | Backward

datatype place = AtRequester | AtRelay | AtProvider

text \<open>\<open>tn_closed\<close>: whose function has returned, closing both of its connections.\<close>

record tunnel_stream =
  tn_direction :: "way \<Rightarrow> direction"
  tn_closed :: "place \<Rightarrow> bool"

text \<open>
  What can happen: one side writes, or ends its side; a copier goes a round; a copier's read fails; a function
  whose first copier has returned returns itself.
\<close>

datatype tunnel_event =
    AppWrites way "byte list"
  | AppEnds way
  | SealRound way nat "write_step list"
  | RelayRound way nat "write_step list"
  | OpenRound way nat "write_step list"
  | ReadFails way place
  | Returns place

definition on_way :: "way \<Rightarrow> (direction \<Rightarrow> direction) \<Rightarrow> tunnel_stream \<Rightarrow> tunnel_stream" where
  "on_way x f t = t\<lparr>tn_direction := (tn_direction t)(x := f (tn_direction t x))\<rparr>"

fun sender_place :: "way \<Rightarrow> place" where
  "sender_place Forward = AtRequester"
| "sender_place Backward = AtProvider"

text \<open>Whether the copier of a direction at a place runs, and stopping it.\<close>

definition copier_runs :: "place \<Rightarrow> way \<Rightarrow> direction \<Rightarrow> bool" where
  "copier_runs p x d =
     (if p = AtRelay then dr_relaying d else if p = sender_place x then dr_sealing d else dr_opening d)"

definition stop_copier :: "place \<Rightarrow> way \<Rightarrow> direction \<Rightarrow> direction" where
  "stop_copier p x d =
     (if p = AtRelay then d\<lparr>dr_relaying := False\<rparr>
      else if p = sender_place x then d\<lparr>dr_sealing := False\<rparr> else d\<lparr>dr_opening := False\<rparr>)"

text \<open>
  \<open>bridge\<close> and \<open>relayPair\<close> wait for the first of their two copiers and return; the deferred closes of both
  connections then end the other copier.
\<close>

definition bridge_return :: "place \<Rightarrow> tunnel_stream \<Rightarrow> tunnel_stream" where
  "bridge_return p t =
     (if copier_runs p Forward (tn_direction t Forward) \<and> copier_runs p Backward (tn_direction t Backward) then t
      else (on_way Forward (stop_copier p Forward) (on_way Backward (stop_copier p Backward) t))
             \<lparr>tn_closed := (tn_closed t)(p := True)\<rparr>)"

fun tunnel_step :: "tunnel_stream \<Rightarrow> tunnel_event \<Rightarrow> tunnel_stream" where
  "tunnel_step t (AppWrites x data) =
     on_way x (\<lambda>d. if dr_ended d then d else d\<lparr>dr_source := dr_source d @ data, dr_written := dr_written d @ data\<rparr>) t"
| "tunnel_step t (AppEnds x) = on_way x (\<lambda>d. d\<lparr>dr_ended := True\<rparr>) t"
| "tunnel_step t (SealRound x n steps) = on_way x (seal_copy n steps) t"
| "tunnel_step t (RelayRound x n steps) = on_way x (relay_copy (tn_closed t (sender_place x)) n steps) t"
| "tunnel_step t (OpenRound x n steps) = on_way x (open_copy (tn_closed t AtRelay) n steps) t"
| "tunnel_step t (ReadFails x p) = on_way x (stop_copier p x) t"
| "tunnel_step t (Returns p) = bridge_return p t"

definition run_tunnel :: "tunnel_event list \<Rightarrow> tunnel_stream \<Rightarrow> tunnel_stream" where
  "run_tunnel events t = foldl tunnel_step t events"

definition new_direction :: "secureConn \<Rightarrow> secureConn \<Rightarrow> direction" where
  "new_direction sender receiver =
     \<lparr>dr_source = [], dr_ended = False, dr_sealing = True, dr_sender = sender, dr_up = [], dr_relaying = True, dr_down = [],
      dr_receiver = receiver, dr_opening = True, dr_written = [], dr_opened = [], dr_delivered = []\<rparr>"

text \<open>A stream between the ends that the two agents have opened.\<close>

definition new_stream :: "secureConn \<Rightarrow> secureConn \<Rightarrow> tunnel_stream" where
  "new_stream requester provider =
     \<lparr>tn_direction = (\<lambda>x. case x of Forward \<Rightarrow> new_direction requester provider | Backward \<Rightarrow> new_direction provider requester),
      tn_closed = (\<lambda>_. False)\<rparr>"

end
