(* ===== verification/Bridge_Correct.thy ===== *)
theory Bridge_Correct
  imports Bridge
begin

text \<open>
  A stream through the relay is a byte pipe in both directions. The bytes under way on the two connections of
  the relay, one after the other, are the network of a channel of theory \<open>Secure\<close>: what the copiers do
  to them keeps that channel's invariant, also when a copier stops and the rest is lost.
\<close>

section \<open>Losing bytes under way\<close>

lemma cut_record_shorter: "cut_record key aad counter bs \<Longrightarrow> prefix x bs \<Longrightarrow> cut_record key aad counter x"
  unfolding cut_record_def by (meson prefix_order.le_less_trans)

lemma records_cut:
  assumes "prefix x (records key aad counter ps @ t)" and "list_all chunk ps"
    and "cut_record key aad (counter + of_nat (length ps)) t"
  shows "\<exists>qs rest t'. ps = qs @ rest \<and> x = records key aad counter qs @ t' \<and> cut_record key aad (counter + of_nat (length qs)) t'"
  using assms
proof (induction ps arbitrary: x counter)
  case Nil
  then show ?case using cut_record_shorter by fastforce
next
  case (Cons p ps)
  let ?r = "record_bytes key aad counter p"
  show ?case
  proof (cases "strict_prefix x ?r")
    case True
    with Cons.prems(2) have "cut_record key aad counter x" by (auto simp: cut_record_def)
    then show ?thesis by (intro exI [of _ "[]"] exI [of _ "p # ps"] exI [of _ x]) simp
  next
    case False
    with Cons.prems(1) obtain y where y: "x = ?r @ y" "prefix y (records key aad (counter + 1) ps @ t)"
      by (auto simp: prefix_append strict_prefix_def)
    obtain qs rest t' where "ps = qs @ rest" "y = records key aad (counter + 1) qs @ t'"
        "cut_record key aad (counter + 1 + of_nat (length qs)) t'"
      using Cons.IH [OF y(2)] Cons.prems(2,3) by (auto simp: add.assoc)
    with y(1) show ?thesis by (intro exI [of _ "p # qs"] exI [of _ rest] exI [of _ t']) (simp add: add.assoc)
  qed
qed

lemma in_flight_break: "in_flight ch ps t left \<Longrightarrow> in_flight (ch\<lparr>ch_broken := True\<rparr>) ps t left"
  by (auto simp: in_flight_def Let_def cut_record_Nil split: if_splits)

lemma in_flight_cut:
  assumes "in_flight ch ps t left" and "prefix x (accepted (ch_net ch))"
  shows "\<exists>ps' t' left'. in_flight (ch\<lparr>ch_net := \<lparr>accepted = x, script = sc\<rparr>, ch_broken := True\<rparr>) ps' t' left'"
proof -
  let ?r = "ch_recv ch"
  note b = in_flight_break [OF assms(1)]
  then have "prefix x (records (sc_readAEAD ?r) (sc_readAAD ?r) (sc_readCounter ?r) ps @ t)"
    "list_all chunk ps" "cut_record (sc_readAEAD ?r) (sc_readAAD ?r) (sc_readCounter ?r + of_nat (length ps)) t"
    using assms(2) by (simp_all add: in_flight_def Let_def)
  from records_cut [OF this] obtain qs rest t' where q: "ps = qs @ rest"
    "x = records (sc_readAEAD ?r) (sc_readAAD ?r) (sc_readCounter ?r) qs @ t'"
    "cut_record (sc_readAEAD ?r) (sc_readAAD ?r) (sc_readCounter ?r + of_nat (length qs)) t'" by blast
  with b have "in_flight (ch\<lparr>ch_net := \<lparr>accepted = x, script = sc\<rparr>, ch_broken := True\<rparr>) qs t' (concat rest @ left)"
    by (simp add: in_flight_def Let_def)
  then show ?thesis by blast
qed

lemma in_flight_lost:
  "in_flight ch ps t left \<Longrightarrow> ch_broken ch \<Longrightarrow> in_flight (ch\<lparr>ch_send := c, ch_sent := ch_sent ch @ data\<rparr>) ps t (left @ data)"
  by (simp add: in_flight_def Let_def)

section \<open>Reading from part of what is under way\<close>

lemma read_full_more: "read_full n s = (Inr a, s') \<Longrightarrow> read_full n (s @ u) = (Inr a, s' @ u)"
  by (simp add: read_full_Inr)

lemma secure_Read_more:
  "secure_Read c s n = (Inr bs, c', s') \<Longrightarrow> secure_Read c (s @ u) n = (Inr bs, c', s' @ u)"
  by (auto simp: secure_Read_def read_full_more Let_def split: if_splits prod.splits sum.splits option.splits)

lemma secure_Read_more_error:
  "secure_Read c s n = (Inl e, c', s') \<Longrightarrow> \<forall>i. e \<noteq> SecureIO i \<Longrightarrow> \<exists>s2. secure_Read c (s @ u) n = (Inl e, c', s2)"
  by (auto simp: secure_Read_def read_full_more Let_def split: if_splits prod.splits sum.splits option.splits)

section \<open>The invariant of a direction\<close>

text \<open>The channel a direction amounts to: what has been taken from the source was sent on it.\<close>

definition channel_of :: "direction \<Rightarrow> byte list \<Rightarrow> channel" where
  "channel_of d taken =
     \<lparr>ch_send = dr_sender d, ch_net = \<lparr>accepted = dr_down d @ (if dr_relaying d then dr_up d else []), script = []\<rparr>,
      ch_recv = dr_receiver d, ch_sent = taken, ch_received = dr_opened d,
      ch_broken = (\<not> dr_sealing d \<or> \<not> dr_relaying d), ch_rejected = False\<rparr>"

definition direction_ok :: "direction \<Rightarrow> bool" where
  "direction_ok d \<longleftrightarrow> (\<exists>taken. dr_written d = taken @ dr_source d \<and> channel_ok (channel_of d taken)) \<and>
     prefix (dr_delivered d) (dr_opened d) \<and> (dr_opening d \<longrightarrow> dr_delivered d = dr_opened d)"

lemma direction_okI:
  "dr_written d = taken @ dr_source d \<Longrightarrow> in_flight (channel_of d taken) ps t left \<Longrightarrow> prefix (dr_delivered d) (dr_opened d) \<Longrightarrow>
     (dr_opening d \<Longrightarrow> dr_delivered d = dr_opened d) \<Longrightarrow> direction_ok d"
  by (auto simp: direction_ok_def channel_ok_def)

lemma direction_okE:
  assumes "direction_ok d"
  obtains taken ps t left where "dr_written d = taken @ dr_source d" "in_flight (channel_of d taken) ps t left"
    "prefix (dr_delivered d) (dr_opened d)" "dr_opening d \<longrightarrow> dr_delivered d = dr_opened d"
  using assms by (auto simp: direction_ok_def channel_ok_def)

lemma direction_ok_prefix:
  assumes "direction_ok d"
  shows "prefix (dr_delivered d) (dr_written d)"
proof -
  from assms obtain taken ps t left where a: "dr_written d = taken @ dr_source d" "in_flight (channel_of d taken) ps t left"
    "prefix (dr_delivered d) (dr_opened d)" by (rule direction_okE)
  have "prefix (dr_opened d) taken" using a(2) by (simp add: in_flight_def channel_of_def Let_def)
  moreover have "prefix taken (dr_written d)" using a(1) by simp
  ultimately show ?thesis using a(3) prefix_order.trans by blast
qed

lemma direction_ok_stop:
  assumes "direction_ok d"
  shows "direction_ok (stop_copier p x d)"
proof -
  from assms obtain taken ps t left where a: "dr_written d = taken @ dr_source d" "in_flight (channel_of d taken) ps t left"
    "prefix (dr_delivered d) (dr_opened d)" "dr_opening d \<longrightarrow> dr_delivered d = dr_opened d" by (rule direction_okE)
  have "\<exists>ps t left. in_flight (channel_of (d\<lparr>dr_relaying := False\<rparr>) taken) ps t left"
    using in_flight_cut [OF a(2), of "dr_down d" "[]"] by (simp add: channel_of_def)
  then have "direction_ok (d\<lparr>dr_relaying := False\<rparr>)" using a by (auto intro!: direction_okI [of _ taken])
  moreover have "in_flight (channel_of (d\<lparr>dr_sealing := False\<rparr>) taken) ps t left"
    using in_flight_break [OF a(2)] by (simp add: channel_of_def split: if_splits)
  then have "direction_ok (d\<lparr>dr_sealing := False\<rparr>)" using a by (auto intro!: direction_okI [of _ taken])
  moreover have "channel_of (d\<lparr>dr_opening := False\<rparr>) taken = channel_of d taken" by (simp add: channel_of_def)
  then have "in_flight (channel_of (d\<lparr>dr_opening := False\<rparr>) taken) ps t left" using a(2) by simp
  then have "direction_ok (d\<lparr>dr_opening := False\<rparr>)" using a by (auto intro!: direction_okI [of _ taken])
  ultimately show ?thesis by (simp add: stop_copier_def)
qed

lemma direction_ok_seal:
  assumes "direction_ok d"
  shows "direction_ok (seal_copy n steps d)"
proof -
  from assms obtain taken ps t left where a: "dr_written d = taken @ dr_source d" "in_flight (channel_of d taken) ps t left"
    "prefix (dr_delivered d) (dr_opened d)" "dr_opening d \<longrightarrow> dr_delivered d = dr_opened d" by (rule direction_okE)
  let ?data = "take n (dr_source d)"
  consider (idle) "\<not> dr_sealing d \<or> dr_source d = []" | (copy) "dr_sealing d" "dr_source d \<noteq> []" by blast
  then show ?thesis
  proof cases
    case idle
    then have "seal_copy n steps d = d \<or> seal_copy n steps d = stop_copier AtRequester Forward d"
      by (cases d) (auto simp: seal_copy_def stop_copier_def)
    with assms direction_ok_stop show ?thesis by metis
  next
    case copy
    obtain k e c w where run: "secure_Write (dr_sender d) \<lparr>accepted = dr_up d, script = steps\<rparr> ?data 0 = ((k, e), c, w)"
      by (metis surj_pair)
    define d' where "d' = seal_copy n steps d"
    have d': "d' = d\<lparr>dr_source := drop n (dr_source d), dr_sender := c, dr_up := accepted w, dr_sealing := (e = None)\<rparr>"
      using copy run by (simp add: d'_def seal_copy_def)
    have "channel_ok (channel_of d' (taken @ ?data))"
    proof (cases "dr_relaying d")
      case True
      have "\<not> ch_broken (channel_of d taken)" using True copy by (simp add: channel_of_def)
      from in_flight_wrote [OF a(2) this, of "\<lparr>accepted = dr_up d, script = steps\<rparr>" ?data k e c w "[]"]
      obtain z ps' t' left' where "accepted w = dr_up d @ z"
        "in_flight (channel_of d taken\<lparr>ch_send := c, ch_net := \<lparr>accepted = accepted (ch_net (channel_of d taken)) @ z, script = []\<rparr>,
           ch_sent := ch_sent (channel_of d taken) @ ?data, ch_broken := e \<noteq> None\<rparr>) ps' t' left'"
        using run by (auto simp: channel_of_def)
      with True show ?thesis unfolding channel_ok_def by (intro exI) (simp add: d' channel_of_def)
    next
      case False
      then have "ch_broken (channel_of d taken)" by (simp add: channel_of_def)
      from in_flight_lost [OF a(2) this, where c = c and data = ?data] False show ?thesis unfolding channel_ok_def by (intro exI) (simp add: d' channel_of_def)
    qed
    moreover have "dr_written d' = (taken @ ?data) @ dr_source d'" "dr_delivered d' = dr_delivered d" "dr_opened d' = dr_opened d"
        "dr_opening d' = dr_opening d"
      using a(1) by (simp_all add: d')
    ultimately show ?thesis unfolding d'_def [symmetric] direction_ok_def using a(3,4) by metis
  qed
qed

lemma write_call_prefix:
  assumes "write_call w bs = ((k, ok), w')"
  shows "accepted w' = accepted w @ take k bs" and "k \<le> length bs"
  using assms by (auto simp: write_call_def min_def split: list.splits write_step.splits if_splits)

lemma direction_ok_relay:
  assumes "direction_ok d"
  shows "direction_ok (relay_copy hungup n steps d)"
proof -
  from assms obtain taken ps t left where a: "dr_written d = taken @ dr_source d" "in_flight (channel_of d taken) ps t left"
    "prefix (dr_delivered d) (dr_opened d)" "dr_opening d \<longrightarrow> dr_delivered d = dr_opened d" by (rule direction_okE)
  let ?data = "take n (dr_up d)"
  consider (idle) "\<not> dr_relaying d \<or> dr_up d = []" | (copy) "dr_relaying d" "dr_up d \<noteq> []" by blast
  then show ?thesis
  proof cases
    case idle
    then have "relay_copy hungup n steps d = d \<or> relay_copy hungup n steps d = stop_copier AtRelay Forward d"
      by (cases d) (auto simp: relay_copy_def stop_copier_def)
    with assms direction_ok_stop show ?thesis by metis
  next
    case copy
    obtain k ok w where run: "write_call \<lparr>accepted = dr_down d, script = steps\<rparr> ?data = ((k, ok), w)" by (metis surj_pair)
    define on where "on = (ok \<and> k = length ?data)"
    define d' where "d' = relay_copy hungup n steps d"
    have d': "d' = d\<lparr>dr_up := drop n (dr_up d), dr_down := dr_down d @ take k ?data, dr_relaying := on\<rparr>"
      using copy run write_call_prefix(1) [OF run] by (simp add: d'_def relay_copy_def on_def)
    have "channel_ok (channel_of d' taken)"
    proof (cases on)
      case True
      then have "take k ?data = ?data" unfolding on_def by (metis order_refl take_all)
      then have "channel_of d' taken = channel_of d taken" using True copy by (simp add: d' channel_of_def)
      with a(2) show ?thesis unfolding channel_ok_def by metis
    next
      case False
      have "prefix (dr_down d @ take k ?data) (accepted (ch_net (channel_of d taken)))"
        using copy prefix_order.trans [OF take_is_prefix take_is_prefix] by (simp add: channel_of_def)
      from in_flight_cut [OF a(2) this, of "[]"] False show ?thesis unfolding channel_ok_def by (simp add: d' channel_of_def)
    qed
    moreover have "dr_written d' = taken @ dr_source d'" "dr_delivered d' = dr_delivered d" "dr_opened d' = dr_opened d"
        "dr_opening d' = dr_opening d"
      using a(1) by (simp_all add: d')
    ultimately show ?thesis unfolding d'_def [symmetric] direction_ok_def using a(3,4) by metis
  qed
qed

text \<open>What the second agent reads is what the channel's receiver reads, although part of it may still be at the relay.\<close>

lemma direction_ok_read:
  assumes "in_flight (channel_of d taken) ps t left" and "secure_Read (dr_receiver d) (dr_down d) n = (r, c, s)"
  shows "(\<exists>i. r = Inl (SecureIO i)) \<or>
    (\<exists>bs ps'. r = Inr bs \<and> in_flight (channel_of (d\<lparr>dr_receiver := c, dr_down := s, dr_opened := dr_opened d @ bs\<rparr>) taken) ps' t left)"
proof -
  let ?u = "if dr_relaying d then dr_up d else []"
  obtain ps' where ok: "in_flight (channel_step (channel_of d taken) (Receive n)) ps' t left"
    using in_flight_receive(1) [OF assms(1)] by blast
  show ?thesis
  proof (cases r)
    case (Inr bs)
    from secure_Read_more [OF assms(2) [unfolded Inr], of ?u]
    have "channel_step (channel_of d taken) (Receive n) =
        channel_of (d\<lparr>dr_receiver := c, dr_down := s, dr_opened := dr_opened d @ bs\<rparr>) taken"
      by (simp add: channel_of_def)
    with ok Inr show ?thesis by auto
  next
    case (Inl e)
    have "\<exists>i. e = SecureIO i"
    proof (rule ccontr)
      assume no: "\<nexists>i. e = SecureIO i"
      with secure_Read_more_error [OF assms(2) [unfolded Inl], of ?u] obtain s2 where
        "secure_Read (dr_receiver d) (dr_down d @ ?u) n = (Inl e, c, s2)" by blast
      then have "ch_rejected (channel_step (channel_of d taken) (Receive n))" using no by (cases e) (simp_all add: channel_of_def)
      with ok show False by (simp add: in_flight_def Let_def)
    qed
    with Inl show ?thesis by blast
  qed
qed

lemma direction_ok_open:
  assumes "direction_ok d"
  shows "direction_ok (open_copy hungup n steps d)"
proof (cases "dr_opening d")
  case True
  from assms obtain taken ps t left where a: "dr_written d = taken @ dr_source d" "in_flight (channel_of d taken) ps t left"
    "prefix (dr_delivered d) (dr_opened d)" "dr_opening d \<longrightarrow> dr_delivered d = dr_opened d" by (rule direction_okE)
  obtain r c s where read: "secure_Read (dr_receiver d) (dr_down d) n = (r, c, s)" by (metis surj_pair)
  from direction_ok_read [OF a(2) read] show ?thesis
  proof (elim disjE exE conjE)
    fix i
    assume "r = Inl (SecureIO i)"
    then have "open_copy hungup n steps d = d \<or> open_copy hungup n steps d = stop_copier AtProvider Forward d"
      using True read by (cases d) (auto simp: open_copy_def stop_copier_def)
    with assms direction_ok_stop show ?thesis by metis
  next
    fix bs ps'
    assume r: "r = Inr bs" and fl: "in_flight (channel_of (d\<lparr>dr_receiver := c, dr_down := s, dr_opened := dr_opened d @ bs\<rparr>) taken) ps' t left"
    obtain k ok w where run: "write_call \<lparr>accepted = dr_delivered d, script = steps\<rparr> bs = ((k, ok), w)" by (metis surj_pair)
    let ?d = "d\<lparr>dr_receiver := c, dr_down := s, dr_opened := dr_opened d @ bs, dr_delivered := dr_opened d @ take k bs,
      dr_opening := (ok \<and> k = length bs)\<rparr>"
    have d': "open_copy hungup n steps d = ?d"
      using True read r run write_call_prefix(1) [OF run] a(4) by (simp add: open_copy_def)
    have "channel_of ?d taken = channel_of (d\<lparr>dr_receiver := c, dr_down := s, dr_opened := dr_opened d @ bs\<rparr>) taken"
      by (simp add: channel_of_def)
    then have "in_flight (channel_of ?d taken) ps' t left" using fl by simp
    with a(1) show ?thesis unfolding d' by (intro direction_okI [of _ taken]) (auto simp: take_is_prefix)
  qed
next
  case False
  then show ?thesis using assms by (simp add: open_copy_def)
qed

section \<open>The invariant of a stream\<close>

definition stream_ok :: "tunnel_stream \<Rightarrow> bool" where
  "stream_ok t \<longleftrightarrow> (\<forall>x. direction_ok (tn_direction t x))"

lemma stream_ok_on_way: "stream_ok t \<Longrightarrow> (\<And>d. direction_ok d \<Longrightarrow> direction_ok (f d)) \<Longrightarrow> stream_ok (on_way x f t)"
  by (simp add: stream_ok_def on_way_def)

lemma direction_ok_writes:
  "direction_ok d \<Longrightarrow> direction_ok (d\<lparr>dr_source := dr_source d @ data, dr_written := dr_written d @ data\<rparr>)"
  by (auto elim!: direction_okE intro!: direction_okI simp: channel_of_def)

lemma direction_ok_ends: "direction_ok d \<Longrightarrow> direction_ok (d\<lparr>dr_ended := True\<rparr>)"
  by (auto elim!: direction_okE intro!: direction_okI simp: channel_of_def)

lemma stream_ok_step: "stream_ok t \<Longrightarrow> stream_ok (tunnel_step t event)"
proof (cases event)
  case (AppWrites x data)
  then show "stream_ok t \<Longrightarrow> ?thesis" by (auto intro!: stream_ok_on_way simp: direction_ok_writes)
next
  case (Returns p)
  moreover have "stream_ok (s\<lparr>tn_closed := c\<rparr>) = stream_ok s" for s c by (simp add: stream_ok_def)
  ultimately show "stream_ok t \<Longrightarrow> ?thesis" by (simp add: bridge_return_def stream_ok_on_way direction_ok_stop)
qed (simp_all add: stream_ok_on_way direction_ok_ends direction_ok_seal direction_ok_relay direction_ok_open direction_ok_stop)

lemma stream_ok_run: "stream_ok t \<Longrightarrow> stream_ok (run_tunnel events t)"
  by (induction events arbitrary: t) (simp_all add: run_tunnel_def stream_ok_step)

lemma stream_ok_new:
  assumes "wrapSecure key pairID streamID role = Inr a" and "wrapSecure key pairID streamID (peerRole role) = Inr b"
  shows "stream_ok (new_stream a b)"
proof -
  have "wrapSecure key pairID streamID (peerRole (peerRole role)) = Inr a"
    using assms peerRole_twice [of role] by (auto simp: wrapSecure_def Let_def split: option.splits if_splits)
  then have "channel_ok (open_channel b a [])" "channel_ok (open_channel a b [])"
    using wrapSecure_ends [OF assms] wrapSecure_ends [OF assms(2)] by blast+
  moreover have "channel_of (new_direction c c') [] = open_channel c c' []" for c c'
    by (simp add: channel_of_def new_direction_def open_channel_def)
  ultimately have "direction_ok (new_direction a b)" "direction_ok (new_direction b a)"
    by (auto simp: direction_ok_def new_direction_def)
  then show ?thesis by (simp add: stream_ok_def new_stream_def split: way.splits)
qed

section \<open>Nothing gets stuck\<close>

text \<open>A direction whose bytes have all reached the connection to the second agent.\<close>

definition arrived :: "direction \<Rightarrow> bool" where
  "arrived d \<longleftrightarrow> dr_sealing d \<and> dr_relaying d \<and> dr_opening d \<and> dr_source d = [] \<and> dr_up d = []"

lemma open_round_progress:
  assumes "direction_ok d" and "arrived d" and "dr_delivered d \<noteq> dr_written d"
  shows "arrived (open_copy hungup 65536 [] d)" and "dr_written (open_copy hungup 65536 [] d) = dr_written d"
    and "length (dr_delivered d) < length (dr_delivered (open_copy hungup 65536 [] d))"
proof -
  from assms(1) obtain taken ps t left where a: "dr_written d = taken @ dr_source d" "in_flight (channel_of d taken) ps t left"
    "dr_opening d \<longrightarrow> dr_delivered d = dr_opened d" by (rule direction_okE)
  have ch: "\<not> ch_broken (channel_of d taken)" "ch_sent (channel_of d taken) = dr_written d"
    "ch_received (channel_of d taken) = dr_delivered d" "accepted (ch_net (channel_of d taken)) = dr_down d"
    using assms(2) a(1,3) by (simp_all add: channel_of_def arrived_def)
  have more: "length (ch_received (channel_of d taken)) < length (ch_received (channel_step (channel_of d taken) (Receive 65536)))"
    by (rule in_flight_receive(2) [OF a(2)]) (use ch assms(3) in simp_all)
  obtain r c s where read: "secure_Read (dr_receiver d) (dr_down d) 65536 = (r, c, s)" by (metis surj_pair)
  then have read': "secure_Read (ch_recv (channel_of d taken)) (accepted (ch_net (channel_of d taken))) 65536 = (r, c, s)"
    unfolding ch(4) by (simp add: channel_of_def)
  with more obtain bs where bs: "r = Inr bs" "bs \<noteq> []"
    by (auto split: sum.splits secure_error.splits)
  then show "arrived (open_copy hungup 65536 [] d)" and "dr_written (open_copy hungup 65536 [] d) = dr_written d"
    and "length (dr_delivered d) < length (dr_delivered (open_copy hungup 65536 [] d))"
    using read assms(2) by (simp_all add: open_copy_def arrived_def write_call_def)
qed

lemma on_way_direction [simp]: "tn_direction (on_way x f t) y = (if y = x then f (tn_direction t x) else tn_direction t y)"
  by (simp add: on_way_def)

lemma open_rounds_deliver:
  assumes "stream_ok t" and "arrived (tn_direction t x)"
  shows "\<exists>k. dr_delivered (tn_direction (run_tunnel (replicate k (OpenRound x 65536 [])) t) x) = dr_written (tn_direction t x)"
  using assms
proof (induction "length (dr_written (tn_direction t x)) - length (dr_delivered (tn_direction t x))" arbitrary: t rule: less_induct)
  case less
  let ?d = "tn_direction t x"
  have ok: "direction_ok ?d" using less.prems(1) by (simp add: stream_ok_def)
  show ?case
  proof (cases "dr_delivered ?d = dr_written ?d")
    case True
    then show ?thesis by (intro exI [of _ 0]) (simp add: run_tunnel_def)
  next
    case False
    let ?t = "tunnel_step t (OpenRound x 65536 [])"
    note p = open_round_progress [OF ok less.prems(2) False, of "tn_closed t AtRelay"]
    have "prefix (dr_delivered (tn_direction ?t x)) (dr_written ?d)"
      using direction_ok_prefix [OF direction_ok_open [OF ok, of "tn_closed t AtRelay" 65536 "[]"]] unfolding p(2) by simp
    then have "length (dr_written ?d) - length (dr_delivered (tn_direction ?t x)) < length (dr_written ?d) - length (dr_delivered ?d)"
      using p(3) prefix_length_le by fastforce
    moreover have "stream_ok ?t" by (rule stream_ok_step [OF less.prems(1)])
    ultimately have "\<exists>k. dr_delivered (tn_direction (run_tunnel (replicate k (OpenRound x 65536 [])) ?t) x) = dr_written ?d"
      using less.hyps [of ?t] p(1,2) by simp
    then obtain k where "dr_delivered (tn_direction (run_tunnel (replicate k (OpenRound x 65536 [])) ?t) x) = dr_written ?d" ..
    then show ?thesis by (intro exI [of _ "Suc k"]) (simp add: run_tunnel_def)
  qed
qed

text \<open>Rounds of the copiers of one direction, with writes that succeed.\<close>

fun round_of :: "way \<Rightarrow> tunnel_event \<Rightarrow> bool" where
  "round_of x (SealRound y n steps) = (y = x \<and> steps = [])"
| "round_of x (RelayRound y n steps) = (y = x \<and> steps = [])"
| "round_of x (OpenRound y n steps) = (y = x \<and> steps = [])"
| "round_of x _ = False"

lemma run_tunnel_append: "run_tunnel (es @ fs) t = run_tunnel fs (run_tunnel es t)"
  by (simp add: run_tunnel_def)

definition all_run :: "direction \<Rightarrow> bool" where
  "all_run d \<longleftrightarrow> dr_sealing d \<and> dr_relaying d \<and> dr_opening d"

lemma seal_all:
  assumes "all_run d" and "dr_source d \<noteq> []"
  shows "all_run (seal_copy (length (dr_source d)) [] d)" "dr_source (seal_copy (length (dr_source d)) [] d) = []"
    "dr_written (seal_copy (length (dr_source d)) [] d) = dr_written d"
  using assms secure_Write_ready [of "\<lparr>accepted = dr_up d, script = []\<rparr>" "dr_sender d" "dr_source d" 0]
  by (auto simp: seal_copy_def all_run_def split: prod.splits)

lemma relay_all:
  assumes "all_run d" and "dr_up d \<noteq> []"
  shows "all_run (relay_copy hungup (length (dr_up d)) [] d)" "dr_up (relay_copy hungup (length (dr_up d)) [] d) = []"
    "dr_written (relay_copy hungup (length (dr_up d)) [] d) = dr_written d" "dr_source (relay_copy hungup (length (dr_up d)) [] d) = dr_source d"
  using assms by (auto simp: relay_copy_def all_run_def write_call_def)

lemma rounds_deliver:
  assumes "stream_ok t" and "all_run (tn_direction t x)"
  shows "\<exists>rounds. list_all (round_of x) rounds \<and> dr_delivered (tn_direction (run_tunnel rounds t) x) = dr_written (tn_direction t x)"
proof -
  let ?d = "tn_direction t x"
  define r1 where "r1 = (if dr_source ?d = [] then [] else [SealRound x (length (dr_source ?d)) []])"
  define t1 where "t1 = run_tunnel r1 t"
  have t1: "all_run (tn_direction t1 x)" "dr_source (tn_direction t1 x) = []" "dr_written (tn_direction t1 x) = dr_written ?d"
    using assms(2) seal_all [of ?d] by (auto simp: t1_def r1_def run_tunnel_def)
  let ?d1 = "tn_direction t1 x"
  define r2 where "r2 = (if dr_up ?d1 = [] then [] else [RelayRound x (length (dr_up ?d1)) []])"
  define t2 where "t2 = run_tunnel r2 t1"
  have t2: "all_run (tn_direction t2 x)" "dr_source (tn_direction t2 x) = []" "dr_up (tn_direction t2 x) = []"
      "dr_written (tn_direction t2 x) = dr_written ?d"
    using t1 relay_all [of ?d1] by (auto simp: t2_def r2_def run_tunnel_def)
  have "stream_ok t2" using assms(1) by (simp add: t1_def t2_def stream_ok_run)
  then obtain k where k: "dr_delivered (tn_direction (run_tunnel (replicate k (OpenRound x 65536 [])) t2) x) = dr_written ?d"
    using open_rounds_deliver [of t2 x] t2 by (auto simp: arrived_def all_run_def)
  have "list_all (round_of x) (r1 @ r2 @ replicate k (OpenRound x 65536 []))"
    by (simp add: r1_def r2_def list_all_iff)
  moreover have "run_tunnel (r1 @ r2 @ replicate k (OpenRound x 65536 [])) t = run_tunnel (replicate k (OpenRound x 65536 [])) t2"
    by (simp add: run_tunnel_append t1_def t2_def)
  ultimately show ?thesis using k by metis
qed

section \<open>A side that has ended\<close>

text \<open>Once the copier to a side has stopped, nothing is delivered there any more.\<close>

lemma stopped_step:
  assumes "\<not> dr_opening (tn_direction t x)"
  shows "\<not> dr_opening (tn_direction (tunnel_step t event) x) \<and>
    dr_delivered (tn_direction (tunnel_step t event) x) = dr_delivered (tn_direction t x)"
  using assms
  by (cases event) (auto simp: seal_copy_def relay_copy_def open_copy_def stop_copier_def bridge_return_def on_way_def split: prod.splits)

lemma stopped_run:
  "\<not> dr_opening (tn_direction t x) \<Longrightarrow> dr_delivered (tn_direction (run_tunnel events t) x) = dr_delivered (tn_direction t x)"
proof (induction events arbitrary: t)
  case (Cons e events)
  from Cons.IH [of "tunnel_step t e"] stopped_step [OF Cons.prems, of e] show ?case by (simp add: run_tunnel_def)
qed (simp add: run_tunnel_def)

section \<open>Properties\<close>

lemma openStream_wraps: "openStream cfg streamID (Inr m) = Inr c \<Longrightarrow> wrapSecure (ag_TunnelKey cfg) (ag_PairID cfg) streamID (ag_Role cfg) = Inr c"
  by (auto simp: openStream_def split: if_splits sum.splits)

lemma paired_stream_ok:
  assumes "NewAgent ed a = Inr a'" and "NewAgent ed b = Inr b'" and "ag_Role a = ''requester''" and "ag_Role b = ''provider''"
    and "ag_RelayToken b = ag_RelayToken a" and "ag_TunnelKey b = ag_TunnelKey a"
    and "openStream a streamID (Inr ma) = Inr ca" and "openStream b streamID (Inr mb) = Inr cb"
  shows "stream_ok (new_stream ca cb)"
proof -
  have "ag_PairID b = ag_PairID a" using NewAgent_Inr [OF assms(1)] NewAgent_Inr [OF assms(2)] assms(5) by simp
  then show ?thesis
    using openStream_wraps [OF assms(7)] openStream_wraps [OF assms(8)] assms(3,4,6)
    by (intro stream_ok_new [of "ag_TunnelKey a" "ag_PairID a" streamID "ag_Role a"]) (simp_all add: peerRole_def)
qed

text \<open>
  C5. A tunnelled stream is a byte pipe in both directions. Whatever sizes the reads have, wherever writes and
  reads fail and connections are closed, and however the six copiers, the two applications and the returns of
  the three functions interleave: what has been delivered on either side is a prefix of what the other side
  wrote. And nothing gets stuck: as long as the three copiers of a direction run, finitely many more of
  their rounds deliver everything written so far.
\<close>

theorem tunnel_is_byte_pipe:
  assumes "NewAgent ed a = Inr a'" and "NewAgent ed b = Inr b'" and "ag_Role a = ''requester''" and "ag_Role b = ''provider''"
    and "ag_RelayToken b = ag_RelayToken a" and "ag_TunnelKey b = ag_TunnelKey a"
    and "openStream a streamID (Inr ma) = Inr ca" and "openStream b streamID (Inr mb) = Inr cb"
    and "t = run_tunnel events (new_stream ca cb)"
  shows "prefix (dr_delivered (tn_direction t x)) (dr_written (tn_direction t x)) \<and>
    (all_run (tn_direction t x) \<longrightarrow>
       (\<exists>rounds. list_all (round_of x) rounds \<and> dr_delivered (tn_direction (run_tunnel rounds t) x) = dr_written (tn_direction t x)))"
proof -
  have "stream_ok t" unfolding assms(9) by (rule stream_ok_run [OF paired_stream_ok [OF assms(1-8)]])
  then show ?thesis using rounds_deliver direction_ok_prefix by (simp add: stream_ok_def)
qed

text \<open>The stream of two sample agents.\<close>

lemma sample_stream:
  obtains ca cb where "openStream (sample_agent ''requester'') ''s'' (Inr (control_message ''ready'')) = Inr ca"
    "openStream (sample_agent ''provider'') ''s'' (Inr (control_message ''ready'')) = Inr cb"
proof -
  have "NewAgent constant_ed (sample_agent ''requester'') = Inr (sample_agent ''requester'')"
    "NewAgent constant_ed (sample_agent ''provider'') = Inr (sample_agent ''provider'')"
    by (simp_all add: sample_agent_ok peerRole_def)
  from agent_wraps [OF this(1), of "''s''"] agent_wraps [OF this(2), of "''s''"]
  show ?thesis using that by (auto simp: openStream_def control_message_def)
qed

theorem tunnel_is_byte_pipe_witness:
  "\<exists>ca cb rounds. openStream (sample_agent ''requester'') ''s'' (Inr (control_message ''ready'')) = Inr ca \<and>
     openStream (sample_agent ''provider'') ''s'' (Inr (control_message ''ready'')) = Inr cb \<and>
     dr_delivered (tn_direction (run_tunnel rounds (run_tunnel [AppWrites Forward [1, 2, 3]] (new_stream ca cb))) Forward) = [1, 2, 3]"
proof -
  obtain ca cb where c: "openStream (sample_agent ''requester'') ''s'' (Inr (control_message ''ready'')) = Inr ca"
    "openStream (sample_agent ''provider'') ''s'' (Inr (control_message ''ready'')) = Inr cb" by (rule sample_stream)
  have ok: "NewAgent constant_ed (sample_agent ''requester'') = Inr (sample_agent ''requester'')"
    "NewAgent constant_ed (sample_agent ''provider'') = Inr (sample_agent ''provider'')"
    by (simp_all add: sample_agent_ok peerRole_def)
  have same: "ag_Role (sample_agent ''requester'') = ''requester''" "ag_Role (sample_agent ''provider'') = ''provider''"
    "ag_RelayToken (sample_agent ''provider'') = ag_RelayToken (sample_agent ''requester'')"
    "ag_TunnelKey (sample_agent ''provider'') = ag_TunnelKey (sample_agent ''requester'')" by (simp_all add: sample_agent_def)
  let ?t = "run_tunnel [AppWrites Forward [1, 2, 3]] (new_stream ca cb)"
  have "all_run (tn_direction ?t Forward)" "dr_written (tn_direction ?t Forward) = [1, 2, 3]"
    by (simp_all add: run_tunnel_def new_stream_def new_direction_def all_run_def)
  with tunnel_is_byte_pipe [OF ok same c refl, where x = Forward and events = "[AppWrites Forward [1, 2, 3]]"] c show ?thesis by auto
qed

fun other_way :: "way \<Rightarrow> way" where
  "other_way Forward = Backward"
| "other_way Backward = Forward"

text \<open>
  C40. A side that ends its own sending gets no answer: as soon as its agent has read to the end of what it sent,
  \<open>bridge\<close> can return, although the copier of the answer still runs, and from then on nothing whatever of the
  answer is delivered, however much of it is already on its way. A protocol whose client shuts down its
  sending side before it reads the answer does not work through the tunnel.
\<close>

theorem ended_side_gets_no_answer:
  assumes "dr_ended (tn_direction t x)" and "dr_source (tn_direction t x) = []"
  shows "dr_delivered (tn_direction (run_tunnel (SealRound x n steps # Returns (sender_place x) # events) t) (other_way x)) =
    dr_delivered (tn_direction t (other_way x))"
proof -
  let ?t1 = "tunnel_step t (SealRound x n steps)"
  let ?t2 = "tunnel_step ?t1 (Returns (sender_place x))"
  have "\<not> dr_sealing (tn_direction ?t1 x)" using assms by (simp add: seal_copy_def)
  moreover have same: "tn_direction ?t1 (other_way x) = tn_direction t (other_way x)" by (cases x) simp_all
  ultimately have "\<not> dr_opening (tn_direction ?t2 (other_way x))"
    "dr_delivered (tn_direction ?t2 (other_way x)) = dr_delivered (tn_direction t (other_way x))"
    by (cases x; simp add: bridge_return_def copier_runs_def stop_copier_def)+
  with stopped_run [of ?t2 "other_way x" events] show ?thesis by (simp add: run_tunnel_def)
qed

text \<open>The service has answered, and all of the answer is on the connection to the requester's agent.\<close>

theorem ended_side_gets_no_answer_witness:
  "\<exists>t. dr_written (tn_direction t Backward) = [4, 5] \<and> dr_down (tn_direction t Backward) \<noteq> [] \<and> dr_opening (tn_direction t Backward) \<and>
     dr_delivered (tn_direction (run_tunnel [SealRound Forward 0 [], Returns AtRequester, OpenRound Backward 9 []] t) Backward) = []"
proof -
  obtain ca cb where c: "openStream (sample_agent ''requester'') ''s'' (Inr (control_message ''ready'')) = Inr ca"
    "openStream (sample_agent ''provider'') ''s'' (Inr (control_message ''ready'')) = Inr cb" by (rule sample_stream)
  let ?t = "run_tunnel [AppEnds Forward, AppWrites Backward [4, 5], SealRound Backward 2 [], RelayRound Backward 99 []] (new_stream ca cb)"
  have ended: "dr_ended (tn_direction ?t Forward)" "dr_source (tn_direction ?t Forward) = []"
    by (simp_all add: run_tunnel_def new_stream_def new_direction_def)
  have "PutUint32 w \<noteq> []" for w using PutUint_length(1) [of w] by (metis length_0_conv zero_neq_numeral)
  then have up: "dr_written (tn_direction ?t Backward) = [4, 5]" "dr_delivered (tn_direction ?t Backward) = []"
    "dr_opening (tn_direction ?t Backward)" "dr_down (tn_direction ?t Backward) \<noteq> []"
    by (simp_all add: run_tunnel_def new_stream_def new_direction_def seal_copy_def relay_copy_def secure_Write.simps
        writeFull_ready write_call_def maxEncryptedRecord_def Let_def split: prod.splits)
  from ended_side_gets_no_answer [OF ended, of 0 "[]" "[OpenRound Backward 9 []]"] up
  show ?thesis by (intro exI [of _ ?t]) simp
qed

end
