(* ===== verification/Agent_Dial.thy ===== *)
theory Agent_Dial
  imports Startup Bridge_Correct
begin

text \<open>
  How the tunnel agent reaches the relay and opens streams (\<open>src/internal/tunnel/agent.go\<close>): the default \<open>Dialer\<close>
  with its pinned TLS handshake, \<open>openStream\<close> and \<open>openTarget\<close> as a whole, and the accepting of local
  connections; and what two agents started by \<open>cmd/tunnel\<close> have of it. What the network does comes as a script.
\<close>

section \<open>Dialling\<close>

datatype dial_error = NoConnection | HandshakeFailed | PinRefused pin_error

datatype relay_conn = PlainConn | PinnedConn "byte list list"

text \<open>\<open>reached\<close>: the TCP connection is made. \<open>certs\<close>: the certificates the peer presents in a handshake that works.\<close>

definition default_Dialer :: "tls_Config option \<Rightarrow> bool \<Rightarrow> byte list list option \<Rightarrow> dial_error + relay_conn" where
  "default_Dialer tlsConfig reached certs =
     (if \<not> reached then Inl NoConnection
      else
        (case tlsConfig of
           None \<Rightarrow> Inr PlainConn
         | Some cfg \<Rightarrow>
             (case certs of
                None \<Rightarrow> Inl HandshakeFailed
              | Some raw \<Rightarrow>
                  (case VerifyPeerCertificate cfg raw of Some e \<Rightarrow> Inl (PinRefused e) | None \<Rightarrow> Inr (PinnedConn raw)))))"

section \<open>Opening a stream\<close>

record stream_script =
  ss_connected :: bool
  ss_certs :: "byte list list option"
  ss_hello_sent :: bool
  ss_challenge :: "line_error + authChallenge"
  ss_answer_sent :: bool
  ss_response :: "line_error + controlMessage"

datatype stream_error = DialFailed dial_error | HelloNotSent | AnswerNotSent | StreamRefused agent_error

text \<open>The whole of \<open>authenticate\<close>: the answer it has sent, or its error.\<close>

definition authenticate_relay :: "ed25519 \<Rightarrow> AgentConfig \<Rightarrow> handshake \<Rightarrow> stream_script \<Rightarrow> stream_error + authResponse" where
  "authenticate_relay ed cfg hello sc =
     (if \<not> ss_hello_sent sc then Inl HelloNotSent
      else
        (case agent_authenticate ed cfg hello (ss_challenge sc) of
           Inl e \<Rightarrow> Inl (StreamRefused e)
         | Inr answer \<Rightarrow> if ss_answer_sent sc then Inr answer else Inl AnswerNotSent))"

text \<open>The encrypted stream or an error, and whether the connection to the relay is left open.\<close>

definition open_stream :: "ed25519 \<Rightarrow> tls_Config option \<Rightarrow> AgentConfig \<Rightarrow> string \<Rightarrow> string \<Rightarrow> stream_script \<Rightarrow>
    (stream_error + secureConn) \<times> bool" where
  "open_stream ed tlsConfig cfg streamID target sc =
     (case default_Dialer tlsConfig (ss_connected sc) (ss_certs sc) of
        Inl e \<Rightarrow> (Inl (DialFailed e), False)
      | Inr _ \<Rightarrow>
          (case authenticate_relay ed cfg (stream_hello cfg streamID target) sc of
             Inl e \<Rightarrow> (Inl e, False)
           | Inr _ \<Rightarrow>
               (case openStream cfg streamID (ss_response sc) of
                  Inl NotPaired \<Rightarrow> (Inl (StreamRefused NotPaired), False)
                | Inl e \<Rightarrow> (Inl (StreamRefused e), True)
                | Inr c \<Rightarrow> (Inr c, True))))"

text \<open>
  \<open>openTarget\<close> for a message of the control session: the local address it has dialled and the stream it bridges to
  it, if it gets that far. \<open>can_dial\<close>: which local services answer.
\<close>

definition open_target :: "ed25519 \<Rightarrow> tls_Config option \<Rightarrow> AgentConfig \<Rightarrow> (string \<Rightarrow> bool) \<Rightarrow> string \<Rightarrow> string \<Rightarrow> stream_script \<Rightarrow>
    (string \<times> secureConn) option" where
  "open_target ed tlsConfig cfg can_dial streamID target sc =
     (case map_of (ag_Targets cfg) target of
        None \<Rightarrow> None
      | Some address \<Rightarrow>
          if \<not> can_dial address then None
          else (case fst (open_stream ed tlsConfig cfg streamID target sc) of Inl _ \<Rightarrow> None | Inr remote \<Rightarrow> Some (address, remote)))"

text \<open>The connections a listener accepts until it fails or is closed; each is forwarded to \<open>target\<close>.\<close>

fun acceptLoop :: "string \<Rightarrow> 'c option list \<Rightarrow> ('c \<times> string) list" where
  "acceptLoop target [] = []"
| "acceptLoop target (None # accepts) = []"
| "acceptLoop target (Some local # accepts) = (local, target) # acceptLoop target accepts"

section \<open>Lemmas\<close>

lemma case_fatal_Inr: "(case r of Inl e \<Rightarrow> Inl (f e) | Inr x \<Rightarrow> g x) = Inr y \<longleftrightarrow> (\<exists>x. r = Inr x \<and> g x = Inr y)"
  by (cases r) simp_all

lemma started_agent:
  assumes "tunnel_main ed args e = Inr (RunAgent a tls)"
  shows "NewAgent ed a = Inr a" "ag_Role a = e ''AIPOOL_TUNNEL_ROLE''" "ag_RelayToken a = e ''AIPOOL_PAIR_TOKEN''"
    "ag_TunnelKey a = e ''AIPOOL_TUNNEL_KEY''" "PinnedTLSConfig (e ''AIPOOL_RELAY_SERVER_NAME'') (e ''AIPOOL_RELAY_FINGERPRINT'') = Inr tls"
proof -
  have ag: "tunnel_agent ed e = Inr (RunAgent a tls)"
    using assms by (auto simp: tunnel_main_def split: list.splits if_splits)
  obtain cfg where "NewAgent ed cfg = Inr a" "ag_Role cfg = e ''AIPOOL_TUNNEL_ROLE''" "ag_RelayToken cfg = e ''AIPOOL_PAIR_TOKEN''"
    "ag_TunnelKey cfg = e ''AIPOOL_TUNNEL_KEY''" "PinnedTLSConfig (e ''AIPOOL_RELAY_SERVER_NAME'') (e ''AIPOOL_RELAY_FINGERPRINT'') = Inr tls"
    using ag by (auto simp: tunnel_agent_def required_def case_fatal_Inr split: if_split_asm)
  moreover from this(1) have "a = cfg" using NewAgent_Inr by blast
  ultimately
  show "NewAgent ed a = Inr a" "ag_Role a = e ''AIPOOL_TUNNEL_ROLE''" "ag_RelayToken a = e ''AIPOOL_PAIR_TOKEN''"
    "ag_TunnelKey a = e ''AIPOOL_TUNNEL_KEY''" "PinnedTLSConfig (e ''AIPOOL_RELAY_SERVER_NAME'') (e ''AIPOOL_RELAY_FINGERPRINT'') = Inr tls"
    by simp_all
qed

lemma default_Dialer_pinned:
  assumes "PinnedTLSConfig serverName fingerprint = Inr tls"
  shows "(\<exists>conn. default_Dialer (Some tls) reached certs = Inr conn) \<longleftrightarrow>
    reached \<and> (\<exists>raw rest. certs = Some (raw # rest) \<and> hex_decode (remove_colons fingerprint) = Some (sha256 raw))"
proof -
  from assms obtain expected where e: "hex_decode (remove_colons fingerprint) = Some expected" "tls_fingerprint tls = hex_encode expected"
    by (auto simp: PinnedTLSConfig_cases split: option.splits if_splits)
  have "(\<exists>conn. default_Dialer (Some tls) reached certs = Inr conn) \<longleftrightarrow>
      reached \<and> (\<exists>raw. certs = Some raw \<and> VerifyPeerCertificate tls raw = None)"
    by (auto simp: default_Dialer_def split: option.splits)
  then show ?thesis unfolding VerifyPeerCertificate_None [OF e(2)] using e(1) by auto
qed

lemma open_stream_dialled:
  "(\<exists>err. fst (open_stream ed tlsConfig cfg streamID target sc) = Inl (DialFailed err)) \<longleftrightarrow>
     (\<nexists>conn. default_Dialer tlsConfig (ss_connected sc) (ss_certs sc) = Inr conn)"
  by (auto simp: open_stream_def authenticate_relay_def split: sum.splits agent_error.splits if_splits)

text \<open>A checked configuration can always be wrapped, so no connection is left open with an error.\<close>

lemma open_stream_closes:
  assumes "NewAgent ed cfg = Inr cfg" and "open_stream ed tlsConfig cfg streamID target sc = (Inl e, is_open)"
  shows "\<not> is_open"
proof -
  obtain c where "wrapSecure (ag_TunnelKey cfg) (ag_PairID cfg) streamID (ag_Role cfg) = Inr c" using agent_wraps [OF assms(1)] by blast
  with assms(2) show ?thesis
    by (auto simp: open_stream_def openStream_def split: sum.splits agent_error.splits if_splits)
qed

section \<open>Properties\<close>

text \<open>
  C39. An agent started by \<open>cmd/tunnel\<close> sends its handshake, and later the bytes of its streams, to nobody but the relay
  whose certificate is pinned: opening a stream gets past dialling exactly when the connection is made and the
  first certificate the peer presents has the SHA-256 digest that \<open>AIPOOL_RELAY_FINGERPRINT\<close> spells; and an
  attempt that fails later leaves no connection open.
\<close>

theorem agent_speaks_only_to_pinned_relay:
  assumes "tunnel_main ed args e = Inr (RunAgent a tls)"
  shows "((\<nexists>err. fst (open_stream ed (Some tls) a streamID target sc) = Inl (DialFailed err)) \<longleftrightarrow>
      ss_connected sc \<and>
      (\<exists>raw rest. ss_certs sc = Some (raw # rest) \<and> hex_decode (remove_colons (e ''AIPOOL_RELAY_FINGERPRINT'')) = Some (sha256 raw))) \<and>
    (\<forall>err is_open. open_stream ed (Some tls) a streamID target sc = (Inl err, is_open) \<longrightarrow> \<not> is_open)"
  using default_Dialer_pinned [OF started_agent(5) [OF assms], of "ss_connected sc" "ss_certs sc"]
    open_stream_dialled [of ed "Some tls" a streamID target sc] open_stream_closes [OF started_agent(1) [OF assms]]
  by blast

text \<open>
  C6. Two agents started with the same pair token and tunnel key, one as requester and one as provider, get through:
  at a relay with the pinned certificate both pass the authentication of every stream whatever challenge is
  drawn, both get an encrypted stream when the relay has paired them, and the two ends of it make a byte pipe in both directions.
\<close>

theorem deployed_tunnel_connects:
  assumes "ed25519_ok ed" and "tunnel_main ed args ea = Inr (RunAgent a ta)" and "tunnel_main ed args' eb = Inr (RunAgent b tb)"
    and "ea ''AIPOOL_TUNNEL_ROLE'' = ''requester''" and "eb ''AIPOOL_TUNNEL_ROLE'' = ''provider''"
    and "eb ''AIPOOL_PAIR_TOKEN'' = ea ''AIPOOL_PAIR_TOKEN''" and "eb ''AIPOOL_TUNNEL_KEY'' = ea ''AIPOOL_TUNNEL_KEY''"
    and "hex_decode (remove_colons (ea ''AIPOOL_RELAY_FINGERPRINT'')) = Some (sha256 cert)"
    and "hex_decode (remove_colons (eb ''AIPOOL_RELAY_FINGERPRINT'')) = Some (sha256 cert)"
    and "nonce \<noteq> []"
    and "sc = \<lparr>ss_connected = True, ss_certs = Some (cert # certs), ss_hello_sent = True,
      ss_challenge = Inr \<lparr>ac_Type = ''auth_challenge'', ac_Nonce = b64_encode nonce\<rparr>, ss_answer_sent = True,
      ss_response = Inr (control_message ''ready'')\<rparr>"
  shows "\<exists>ca cb resp_a resp_b. open_stream ed (Some ta) a streamID target sc = (Inr ca, True) \<and>
    open_stream ed (Some tb) b streamID target sc = (Inr cb, True) \<and>
    authenticate_relay ed a (stream_hello a streamID target) sc = Inr resp_a \<and>
    relay_authenticate ed (stream_hello a streamID target) (Some nonce) True (Some resp_a) \<and>
    authenticate_relay ed b (stream_hello b streamID target) sc = Inr resp_b \<and>
    relay_authenticate ed (stream_hello b streamID target) (Some nonce) True (Some resp_b) \<and>
    (\<forall>events x. prefix (dr_delivered (tn_direction (run_tunnel events (new_stream ca cb)) x))
       (dr_written (tn_direction (run_tunnel events (new_stream ca cb)) x)))"
proof -
  note sa = started_agent [OF assms(2)] and sb = started_agent [OF assms(3)]
  obtain ra where ra: "authenticate_relay ed a (stream_hello a streamID target) sc = Inr ra"
    "relay_authenticate ed (stream_hello a streamID target) (Some nonce) True (Some ra)"
    using agent_admitted [OF assms(1) sa(1) assms(10), of "stream_hello a streamID target"]
    by (auto simp: stream_hello_def authenticate_relay_def assms(11))
  obtain rb where rb: "authenticate_relay ed b (stream_hello b streamID target) sc = Inr rb"
    "relay_authenticate ed (stream_hello b streamID target) (Some nonce) True (Some rb)"
    using agent_admitted [OF assms(1) sb(1) assms(10), of "stream_hello b streamID target"]
    by (auto simp: stream_hello_def authenticate_relay_def assms(11))
  obtain ca where ca: "openStream a streamID (Inr (control_message ''ready'')) = Inr ca"
    using agent_wraps [OF sa(1), of streamID] by (auto simp: openStream_def control_message_def)
  obtain cb where cb: "openStream b streamID (Inr (control_message ''ready'')) = Inr cb"
    using agent_wraps [OF sb(1), of streamID] by (auto simp: openStream_def control_message_def)
  have "\<exists>conn. default_Dialer (Some ta) (ss_connected sc) (ss_certs sc) = Inr conn"
      "\<exists>conn. default_Dialer (Some tb) (ss_connected sc) (ss_certs sc) = Inr conn"
    unfolding default_Dialer_pinned [OF sa(5)] default_Dialer_pinned [OF sb(5)] using assms(8,9) by (simp_all add: assms(11))
  then have "open_stream ed (Some ta) a streamID target sc = (Inr ca, True)"
      "open_stream ed (Some tb) b streamID target sc = (Inr cb, True)"
    using ra(1) rb(1) ca cb by (auto simp: open_stream_def assms(11))
  moreover have ok: "stream_ok (new_stream ca cb)"
    using sa sb assms(4-7) by (intro paired_stream_ok [OF sa(1) sb(1) _ _ _ _ ca cb]) simp_all
  then have "\<forall>events x. prefix (dr_delivered (tn_direction (run_tunnel events (new_stream ca cb)) x))
      (dr_written (tn_direction (run_tunnel events (new_stream ca cb)) x))"
    using stream_ok_run [OF ok] direction_ok_prefix by (simp add: stream_ok_def)
  ultimately show ?thesis using ra rb by blast
qed

section \<open>Witnesses\<close>

definition tunnel_environment :: "string \<Rightarrow> environment" where
  "tunnel_environment role = (\<lambda>_. '''')(''AIPOOL_TUNNEL_ROLE'' := role, ''AIPOOL_RELAY_SERVER_NAME'' := ''relay'',
     ''AIPOOL_RELAY_FINGERPRINT'' := hex_encode (sha256 [1, 2, 3]), ''AIPOOL_PAIR_ID'' := hex_encode (replicate 32 0),
     ''AIPOOL_RELAY_ADDRESS'' := ''r:1'', ''AIPOOL_PAIR_TOKEN'' := b64_encode (replicate 32 1),
     ''AIPOOL_TUNNEL_KEY'' := b64_encode (replicate 32 2))"

lemma tunnel_environment_fingerprint:
  "hex_decode (remove_colons (tunnel_environment role ''AIPOOL_RELAY_FINGERPRINT'')) = Some (sha256 [1, 2, 3])"
  by (simp add: tunnel_environment_def remove_colons_hex hexadecimal.dec_enc)

lemma tunnel_environment_starts:
  assumes "role = ''requester'' \<or> role = ''provider''"
  obtains tls where "tunnel_main constant_ed [] (tunnel_environment role) = Inr (RunAgent (sample_agent role) tls)"
proof -
  obtain tls where tls: "PinnedTLSConfig ''relay'' (hex_encode (sha256 [1, 2, 3])) = Inr tls"
    using tunnel_environment_fingerprint [of role] by (auto simp: tunnel_environment_def PinnedTLSConfig_cases)
  have map: "parseMappings '''' = Inr []" by (simp add: parseMappings_def TrimSpace_def)
  have "NewAgent constant_ed (sample_agent role) = Inr (sample_agent role)" using assms by (intro sample_agent_ok) (auto simp: peerRole_def)
  then have "tunnel_main constant_ed [] (tunnel_environment role) = Inr (RunAgent (sample_agent role) tls)"
    using assms tls map
    by (auto simp: tunnel_main_def tunnel_agent_def required_def tunnel_environment_def sample_agent_def b64_encode_nonempty
        hex_encode_nonempty)
  then show ?thesis by (rule that)
qed

definition paired_script :: stream_script where
  "paired_script = \<lparr>ss_connected = True, ss_certs = Some [[1, 2, 3], [4]], ss_hello_sent = True,
     ss_challenge = Inr \<lparr>ac_Type = ''auth_challenge'', ac_Nonce = b64_encode [9]\<rparr>, ss_answer_sent = True,
     ss_response = Inr (control_message ''ready'')\<rparr>"

theorem agent_speaks_only_to_pinned_relay_witness:
  "\<exists>tls. tunnel_main constant_ed [] (tunnel_environment ''requester'') = Inr (RunAgent (sample_agent ''requester'') tls) \<and>
     (\<nexists>err. fst (open_stream constant_ed (Some tls) (sample_agent ''requester'') ''s'' ''provider-host'' paired_script) = Inl (DialFailed err))"
proof -
  obtain tls where t: "tunnel_main constant_ed [] (tunnel_environment ''requester'') = Inr (RunAgent (sample_agent ''requester'') tls)"
    using tunnel_environment_starts by blast
  from agent_speaks_only_to_pinned_relay [OF t, of "''s''" "''provider-host''" paired_script]
  show ?thesis using t tunnel_environment_fingerprint [of "''requester''"] by (auto simp: paired_script_def)
qed

theorem deployed_tunnel_connects_witness:
  "\<exists>ta tb ca cb. tunnel_main constant_ed [] (tunnel_environment ''requester'') = Inr (RunAgent (sample_agent ''requester'') ta) \<and>
     tunnel_main constant_ed [] (tunnel_environment ''provider'') = Inr (RunAgent (sample_agent ''provider'') tb) \<and>
     open_stream constant_ed (Some ta) (sample_agent ''requester'') ''s'' ''provider-host'' paired_script = (Inr ca, True) \<and>
     open_stream constant_ed (Some tb) (sample_agent ''provider'') ''s'' ''provider-host'' paired_script = (Inr cb, True)"
proof -
  obtain ta where ta: "tunnel_main constant_ed [] (tunnel_environment ''requester'') = Inr (RunAgent (sample_agent ''requester'') ta)"
    using tunnel_environment_starts by blast
  obtain tb where tb: "tunnel_main constant_ed [] (tunnel_environment ''provider'') = Inr (RunAgent (sample_agent ''provider'') tb)"
    using tunnel_environment_starts by blast
  have env: "tunnel_environment ''requester'' ''AIPOOL_TUNNEL_ROLE'' = ''requester''" "tunnel_environment ''provider'' ''AIPOOL_TUNNEL_ROLE'' = ''provider''"
    "tunnel_environment ''provider'' ''AIPOOL_PAIR_TOKEN'' = tunnel_environment ''requester'' ''AIPOOL_PAIR_TOKEN''"
    "tunnel_environment ''provider'' ''AIPOOL_TUNNEL_KEY'' = tunnel_environment ''requester'' ''AIPOOL_TUNNEL_KEY''"
    by (simp_all add: tunnel_environment_def)
  have "[9 :: byte] \<noteq> []" by simp
  from deployed_tunnel_connects [OF constant_ed_ok ta tb env tunnel_environment_fingerprint tunnel_environment_fingerprint this
      paired_script_def, of "''s''" "''provider-host''"] ta tb
  show ?thesis by blast
qed

end
