(* ===== verification/Httpx.thy ===== *)
theory Httpx
  imports Bytes
begin

text \<open>
  The helpers of the HTTP handlers (\<open>src/internal/httpx/httpx.go\<close>): decoding of a request body, and JSON answers.
  \<open>encoding/json\<close> is a parameter: a decoder takes the value at the front of some bytes and gives the rest, an encoder
  gives the text of a value. \<open>Bearer\<close> is in theory \<open>Host\<close>.
\<close>

section \<open>Decoding\<close>

datatype decode_error = MalformedBody | MoreThanOneObject

text \<open>White space between JSON values, the only thing after which the decoder reports the end of its input.\<close>

definition json_space :: "byte \<Rightarrow> bool" where
  "json_space b \<longleftrightarrow> b \<in> {0x20, 0x09, 0x0A, 0x0D}"

definition DecodeJSON :: "(byte list \<Rightarrow> ('a \<times> byte list) option) \<Rightarrow> byte list \<Rightarrow> decode_error + 'a" where
  "DecodeJSON decode body =
     (case decode (take 4194304 body) of
        None \<Rightarrow> Inl MalformedBody
      | Some (v, rest) \<Rightarrow> if list_all json_space rest then Inr v else Inl MoreThanOneObject)"

section \<open>Answers\<close>

record http_response =
  hr_ContentType :: string
  hr_Status :: nat
  hr_Body :: "byte list"

definition httpx_JSON :: "('v \<Rightarrow> byte list option) \<Rightarrow> nat \<Rightarrow> 'v \<Rightarrow> http_response" where
  "httpx_JSON encode status value' =
     \<lparr>hr_ContentType = ''application/json; charset=utf-8'', hr_Status = status,
      hr_Body = (case encode value' of None \<Rightarrow> [] | Some text \<Rightarrow> text @ [10])\<rparr>"

datatype json_value = JString string | JObject "(string \<times> json_value) list"

definition httpx_Error :: "(json_value \<Rightarrow> byte list option) \<Rightarrow> nat \<Rightarrow> string \<Rightarrow> http_response" where
  "httpx_Error encode status message =
     httpx_JSON encode status (JObject [(''error'', JObject [(''message'', JString message), (''type'', JString ''aipool_error'')])])"

section \<open>Lemmas\<close>

text \<open>
  A decoder reads what it is given alone: a value keeps its reading when more follows. Then a body with one value
  and white space is accepted, and two values one after the other are not.
\<close>

definition decodes_prefix :: "(byte list \<Rightarrow> ('a \<times> byte list) option) \<Rightarrow> byte list \<Rightarrow> 'a \<Rightarrow> bool" where
  "decodes_prefix decode text v \<longleftrightarrow> (\<forall>rest. decode (text @ rest) = Some (v, rest))"

lemma DecodeJSON_one:
  assumes "decodes_prefix decode text v" and "length (text @ rest) \<le> 4194304"
  shows "DecodeJSON decode (text @ rest) = (if list_all json_space rest then Inr v else Inl MoreThanOneObject)"
proof -
  have "take 4194304 (text @ rest) = text @ rest" using assms(2) by simp
  then show ?thesis using assms(1) by (simp only: DecodeJSON_def decodes_prefix_def) simp
qed

lemma DecodeJSON_two:
  assumes "decodes_prefix decode text v" and "length (text @ u) \<le> 4194304" and "b \<in> set u" and "\<not> json_space b"
  shows "DecodeJSON decode (text @ u) = Inl MoreThanOneObject"
  using assms DecodeJSON_one [OF assms(1,2)] by (auto simp: list_all_iff)

end
