(* ===== verification/Programs.thy ===== *)
theory Programs
  imports Startup Runtimes
begin

text \<open>
  Two programs as a whole: the certificate generator (\<open>src/cmd/certgen/main.go\<close>) over the calls of crypto/x509, and
  the distributed runtime (\<open>src/cmd/distributed/main.go\<close>) over the processes of theory \<open>Runtimes\<close>.
\<close>

section \<open>The certificate generator\<close>

datatype key_usage = DigitalSignature | KeyEncipherment

datatype ext_key_usage = ServerAuth

record 'ip certificate =
  x509_SerialNumber :: int
  x509_CommonName :: string
  x509_Organization :: "string list"
  x509_NotBefore :: int
  x509_NotAfter :: int
  x509_KeyUsage :: "key_usage list"
  x509_ExtKeyUsage :: "ext_key_usage list"
  x509_BasicConstraintsValid :: bool
  x509_IPAddresses :: "'ip list"
  x509_DNSNames :: "string list"

text \<open>
  Times are nanoseconds; a \<open>time.Duration\<close> is 64 bits wide and \<open>days\<close> wraps around in it. The clock is read twice,
  for the beginning (\<open>now\<close>) and for the end (\<open>now'\<close>).
\<close>

definition certgen_template :: "(string \<Rightarrow> 'ip option) \<Rightarrow> int \<Rightarrow> string \<Rightarrow> int \<Rightarrow> int \<Rightarrow> int \<Rightarrow> 'ip certificate" where
  "certgen_template ParseIP serial host days now now' =
     \<lparr>x509_SerialNumber = serial, x509_CommonName = host, x509_Organization = [''AIPool Self-Hosted Relay''],
      x509_NotBefore = now - 300000000000, x509_NotAfter = now' + i64 (i64 days * 86400000000000),
      x509_KeyUsage = [DigitalSignature, KeyEncipherment], x509_ExtKeyUsage = [ServerAuth], x509_BasicConstraintsValid = True,
      x509_IPAddresses = (case ParseIP host of Some ip \<Rightarrow> [ip] | None \<Rightarrow> []),
      x509_DNSNames = (case ParseIP host of Some ip \<Rightarrow> [] | None \<Rightarrow> [host])\<rparr>"

datatype certgen_error = NoHost | CannotMakeDirectory | NoKey | NoSerial | NoCertificateMade | CannotWrite string | NoKeyEncoding

text \<open>
  What the generator gets from the libraries and the system: keys, serial numbers, certificates (signed by their own
  key), encodings, directories and files.
\<close>

record ('k, 'ip) certgen_lib =
  cg_ParseIP :: "string \<Rightarrow> 'ip option"
  cg_MkdirAll :: "string \<Rightarrow> bool"
  cg_GenerateKey :: "'k option"
  cg_Serial :: "int option"
  cg_CreateCertificate :: "'ip certificate \<Rightarrow> 'k \<Rightarrow> byte list option"
  cg_MarshalKey :: "'k \<Rightarrow> byte list option"
  cg_Pem :: "string \<Rightarrow> byte list \<Rightarrow> byte list"
  cg_Join :: "string \<Rightarrow> string \<Rightarrow> string"
  cg_CanWrite :: "string \<Rightarrow> bool"

text \<open>The files it has written, and the lines it prints or the reason why it stops.\<close>

definition certgen_main :: "('k, 'ip) certgen_lib \<Rightarrow> string \<Rightarrow> string \<Rightarrow> int \<Rightarrow> int \<Rightarrow> int \<Rightarrow>
    (string \<times> byte list) list \<times> (certgen_error + string)" where
  "certgen_main lib host out days now now' =
     (if host = '''' then ([], Inl NoHost)
      else if \<not> cg_MkdirAll lib out then ([], Inl CannotMakeDirectory)
      else
        (case cg_GenerateKey lib of
           None \<Rightarrow> ([], Inl NoKey)
         | Some key \<Rightarrow>
             (case cg_Serial lib of
                None \<Rightarrow> ([], Inl NoSerial)
              | Some serial \<Rightarrow>
                  (case cg_CreateCertificate lib (certgen_template (cg_ParseIP lib) serial host days now now') key of
                     None \<Rightarrow> ([], Inl NoCertificateMade)
                   | Some der \<Rightarrow>
                       let certPath = cg_Join lib out ''relay.crt''; keyPath = cg_Join lib out ''relay.key'';
                           cert = (certPath, cg_Pem lib ''CERTIFICATE'' der)
                       in if \<not> cg_CanWrite lib certPath then ([], Inl (CannotWrite certPath))
                          else
                            (case cg_MarshalKey lib key of
                               None \<Rightarrow> ([cert], Inl NoKeyEncoding)
                             | Some keyDER \<Rightarrow>
                                 if \<not> cg_CanWrite lib keyPath then ([cert], Inl (CannotWrite keyPath))
                                 else ([cert, (keyPath, cg_Pem lib ''PRIVATE KEY'' keyDER)],
                                       Inr (certgen_output certPath keyPath host der)))))))"

text \<open>A certificate for up to 106751 days is valid when it is made; one day more and it has expired some 292 years ago.\<close>

lemma certgen_valid_now:
  assumes "0 < days" and "days \<le> 106751"
  shows "x509_NotBefore (certgen_template ParseIP serial host days now now') < now \<and>
    x509_NotAfter (certgen_template ParseIP serial host days now now') = now' + days * 86400000000000"
proof -
  have "i64 days = days" using assms by (intro i64_id_nonneg) simp_all
  moreover have "i64 (days * 86400000000000) = days * 86400000000000" using assms by (intro i64_id_nonneg) simp_all
  ultimately show ?thesis by (simp add: certgen_template_def)
qed

lemma certgen_days_wrap: "x509_NotAfter (certgen_template ParseIP serial host 106752 now now') < now'"
proof -
  have "i64 (i64 106752 * 86400000000000) < 0" by code_simp
  then show ?thesis by (simp add: certgen_template_def)
qed

text \<open>
  The fingerprint in the last line that is printed configures clients that accept exactly peers presenting the
  certificate whose file was written.
\<close>

lemma certgen_fingerprint_pins:
  assumes "certgen_main lib host out days now now' = (files, Inr printed)"
  shows "\<exists>der pre cfg. files ! 0 = (cg_Join lib out ''relay.crt'', cg_Pem lib ''CERTIFICATE'' der) \<and>
    printed = pre @ ''fingerprint_sha256='' @ hex_encode (sha256 der) @ [CHR 0x0A] \<and>
    PinnedTLSConfig host (hex_encode (sha256 der)) = Inr cfg \<and>
    (\<forall>certs. VerifyPeerCertificate cfg certs = None \<longleftrightarrow> (\<exists>raw rest. certs = raw # rest \<and> sha256 raw = sha256 der))"
proof -
  obtain der where der: "files ! 0 = (cg_Join lib out ''relay.crt'', cg_Pem lib ''CERTIFICATE'' der)"
    "printed = certgen_output (cg_Join lib out ''relay.crt'') (cg_Join lib out ''relay.key'') host der"
    using assms by (auto simp: certgen_main_def Let_def split: if_splits option.splits)
  moreover obtain cfg where cfg: "PinnedTLSConfig host (hex_encode (sha256 der)) = Inr cfg" "tls_fingerprint cfg = hex_encode (sha256 der)"
    by (simp add: PinnedTLSConfig_cases remove_colons_hex hexadecimal.dec_enc)
  ultimately show ?thesis
    using VerifyPeerCertificate_None [OF cfg(2)] by (auto simp: certgen_output_def intro!: exI [of _ der])
qed

section \<open>The distributed runtime\<close>

text \<open>
  After its configuration the program starts the runtime, checks its health every five seconds until it is
  interrupted, and closes it. \<open>log.Fatal\<close> after a failed start does not run the deferred \<open>Close\<close>. \<open>None\<close>: the start
  still waits.
\<close>

datatype program_end = StartFailed runtime_error | Interrupted | Serving string

definition distributed_serve :: "start_script \<Rightarrow> bool \<Rightarrow> LlamaRPC \<Rightarrow> process_world \<Rightarrow> (program_end \<times> process_world) option" where
  "distributed_serve sc interrupted runtime w =
     (case llama_Start sc runtime w of
        None \<Rightarrow> None
      | Some (Inl e, runtime', w') \<Rightarrow> Some (StartFailed e, w')
      | Some (Inr url, runtime', w') \<Rightarrow>
          if interrupted then Some (Interrupted, snd (llama_stopLocked runtime' w')) else Some (Serving url, w'))"

text \<open>However the program ends, the process it has started is gone.\<close>

lemma distributed_leaves_no_process:
  assumes "distributed_serve sc interrupted runtime \<lparr>pw_next = 0, pw_alive = []\<rparr> = Some (r, w)" and "\<nexists>url. r = Serving url"
  shows "pw_alive w = []"
  using assms
  by (auto simp: distributed_serve_def llama_Start_def llama_stopLocked_def start_process_def Let_def
      split: option.splits if_splits wait_result.splits wait_event.splits)

end
